(* ===== verification/Prelude.thy ===== *)
theory Prelude
  imports Main "HOL-Library.Word" "HOL-Library.Sublist"
begin

unbundle bit_operations_syntax

text \<open>
  Shared vocabulary of the development: the machine-integer types of the C structs and of the
  ctypes fields, the exceptions the Python code raises or lets escape as values of a sum type,
  the hint collections of the components, and generic facts on lists, words and results.
\<close>

subsection \<open>Types\<close>

type_synonym u8 = "8 word"
type_synonym u16 = "16 word"
type_synonym u32 = "32 word"
type_synonym u64 = "64 word"
type_synonym bytes = "u8 list"

text \<open>
  The exceptions of the modelled Python code. A function that may raise returns
  \<open>py_error + 'a\<close>; every raise and every failing assertion is an \<open>Inl\<close>.
\<close>

datatype py_error =
    AssertionError
  | StructError
  | ConnectionError
  | ValueError
  | TypeError
  | IndexError
  | KeyError string
  | ZeroDivisionError
  | AttributeError
  | RuntimeError string
  | FileNotFoundError
  | TimeoutError
  | JSONDecodeError
  | CalledProcessError
  | TimeoutExpired

type_synonym 'a res = "py_error + 'a"

definition res_bind :: "'a res \<Rightarrow> ('a \<Rightarrow> 'b res) \<Rightarrow> 'b res" where
  "res_bind m f = (case m of Inl e \<Rightarrow> Inl e | Inr x \<Rightarrow> f x)"

fun res_map :: "('a \<Rightarrow> 'b res) \<Rightarrow> 'a list \<Rightarrow> 'b list res" where
  "res_map f [] = Inr []"
| "res_map f (x # xs) = res_bind (f x) (\<lambda>y. res_bind (res_map f xs) (\<lambda>ys. Inr (y # ys)))"

text \<open>
  A Python method on an object with state \<open>'s\<close>: the result or the exception, and the state it
  leaves. An exception keeps the updates made before it was raised.
\<close>

type_synonym ('s, 'a) act = "'s \<Rightarrow> 'a res \<times> 's"

definition act_bind :: "('s, 'a) act \<Rightarrow> ('a \<Rightarrow> ('s, 'b) act) \<Rightarrow> ('s, 'b) act" where
  "act_bind m f s = (case m s of (Inl e, s') \<Rightarrow> (Inl e, s') | (Inr x, s') \<Rightarrow> f x s')"

definition act_return :: "'a \<Rightarrow> ('s, 'a) act" where
  "act_return x s = (Inr x, s)"

definition act_raise :: "py_error \<Rightarrow> ('s, 'a) act" where
  "act_raise e s = (Inl e, s)"

definition act_lift :: "'a res \<Rightarrow> ('s, 'a) act" where
  "act_lift r s = (r, s)"

definition act_modify :: "('s \<Rightarrow> 's) \<Rightarrow> ('s, unit) act" where
  "act_modify f s = (Inr (), f s)"

definition act_get :: "('s \<Rightarrow> 'a) \<Rightarrow> ('s, 'a) act" where
  "act_get f s = (Inr (f s), s)"

subsection \<open>Hint collections\<close>

named_theorems wire_simps \<open>unfolding of the byte encoders and decoders\<close>
named_theorems table_simps \<open>effect of the host-table operations\<close>
named_theorems py_simps \<open>evaluation of the Python string and number helpers\<close>

subsection \<open>Results\<close>

lemma res_bind_simps [simp]:
  "res_bind (Inl e) f = Inl e"
  "res_bind (Inr x) f = f x"
  by (simp_all add: res_bind_def)

lemma act_simps [simp]:
  "m s = (Inl e, s') \<Longrightarrow> act_bind m f s = (Inl e, s')"
  "m s = (Inr x, s') \<Longrightarrow> act_bind m f s = f x s'"
  "act_return x s = (Inr x, s)"
  "act_raise e s = (Inl e, s)"
  "act_lift r s = (r, s)"
  "act_modify g s = (Inr (), g s)"
  "act_get h s = (Inr (h s), s)"
  by (simp_all add: act_bind_def act_return_def act_raise_def act_lift_def act_modify_def act_get_def)

lemma act_bind_Inr:
  "act_bind m f s = (Inr y, s'') \<longleftrightarrow> (\<exists>x s'. m s = (Inr x, s') \<and> f x s' = (Inr y, s''))"
  by (auto simp: act_bind_def split: prod.splits sum.splits)

lemma act_bind_cong [fundef_cong]:
  "m s = m' s \<Longrightarrow> (\<And>x s'. m' s = (Inr x, s') \<Longrightarrow> f x s' = f' x s') \<Longrightarrow> s = t \<Longrightarrow>
   act_bind m f s = act_bind m' f' t"
  by (auto simp: act_bind_def split: prod.splits sum.splits)

lemma res_bind_Inr_conv: "res_bind m f = Inr y \<longleftrightarrow> (\<exists>x. m = Inr x \<and> f x = Inr y)"
  by (cases m) auto

lemma res_map_Inr: "(\<And>x. x \<in> set xs \<Longrightarrow> f x = Inr (g x)) \<Longrightarrow> res_map f xs = Inr (map g xs)"
  by (induction xs) auto

lemma res_map_nth: "res_map f xs = Inr ys \<Longrightarrow> length ys = length xs \<and> (\<forall>i < length xs. f (xs ! i) = Inr (ys ! i))"
proof (induction xs arbitrary: ys)
  case (Cons x xs)
  then obtain y zs where "f x = Inr y" "res_map f xs = Inr zs" "ys = y # zs" by (auto simp: res_bind_Inr_conv)
  with Cons.IH show ?case by (auto simp: less_Suc_eq_0_disj)
qed simp

lemma res_map_map: "res_map f (map g xs) = res_map (f \<circ> g) xs"
  by (induction xs) auto

subsection \<open>Lists\<close>

lemma nth_append_offset [simp]: "(pre @ xs) ! (length pre + i) = xs ! i"
  by (simp add: nth_append)

lemma nth_append_Suc_offset [simp]: "(pre @ xs) ! Suc (length pre) = xs ! Suc 0"
  using nth_append_offset [of pre xs "Suc 0"] by simp

lemma nth_append_Suc_Suc_offset [simp]: "(pre @ xs) ! Suc (Suc (length pre)) = xs ! 2"
  using nth_append_offset [of pre xs 2] by simp

lemma nth_append_base [simp]: "(pre @ x # xs) ! length pre = x"
  by (simp add: nth_append)

lemma map_of_map_key:
  "distinct (map f xs) \<Longrightarrow> x \<in> set xs \<Longrightarrow> map_of (map (\<lambda>y. (f y, y)) xs) (f x) = Some x"
  by (induction xs) (auto simp: image_iff)

lemma map_of_map_Some:
  "map_of (map (\<lambda>y. (f y, y)) xs) k = Some x \<Longrightarrow> x \<in> set xs \<and> f x = k"
  by (induction xs) (auto split: if_splits)

lemma map_of_map_None:
  "map_of (map (\<lambda>y. (f y, y)) xs) k = None \<longleftrightarrow> k \<notin> f ` set xs"
  by (induction xs) auto

lemma drop_prefix_append: "prefix xs ys \<Longrightarrow> ys = xs @ drop (length xs) ys"
  by (auto simp: prefix_def)

lemma find_append:
  "find P (xs @ ys) = (case find P xs of Some x \<Rightarrow> Some x | None \<Rightarrow> find P ys)"
  by (induction xs) auto

lemma find_None_prefix: "prefix xs ys \<Longrightarrow> find P ys = None \<Longrightarrow> find P xs = None"
  by (auto simp: prefix_def find_append split: option.splits)

subsection \<open>Words\<close>

lemma unat_bounds: "unat (a :: u8) < 256" "unat (b :: u16) < 65536"
  using unsigned_less [of a, where ?'a = nat] unsigned_less [of b, where ?'a = nat] by simp_all

end
