(* ===== verification/Host_State.thy ===== *)
theory Host_State
  imports Prelude
begin

text \<open>
  The host-location table of one node (\<open>implementation/src/daim_distributed_state.c\<close>): the
  record of where a MAC address is attached, the process-wide state with its bounded table,
  and the operations on it. Every operation of the C file runs under one mutex, so each is one
  atomic state transformer here. The array prefix of \<open>count\<close> used entries is a list; the clock
  reading of \<open>monotonic_ns()\<close> is an argument. Pointer arguments are taken to be non-null: all
  callers pass the address of a local variable.
\<close>

subsection \<open>Data\<close>

record daim_host_location =
  mac :: bytes
  origin_node_id :: u64
  owner_dpid :: u64
  owner_port :: u32
  owner_epoch :: u64
  sequence :: u64
  is_local :: u8
  learned_at_ns :: u64
  applied_at_ns :: u64

datatype daim_host_apply_result =
    DAIM_HOST_APPLY_NEW
  | DAIM_HOST_APPLY_UPDATED
  | DAIM_HOST_APPLY_DUPLICATE
  | DAIM_HOST_APPLY_STALE_REJECTED
  | DAIM_HOST_APPLY_OWNERSHIP_CONFLICT
  | DAIM_HOST_APPLY_INVALID

text \<open>The value the C enum has when it crosses into Python as a \<open>c_int\<close>.\<close>

fun apply_result_int :: "daim_host_apply_result \<Rightarrow> int" where
  "apply_result_int DAIM_HOST_APPLY_NEW = 0"
| "apply_result_int DAIM_HOST_APPLY_UPDATED = 1"
| "apply_result_int DAIM_HOST_APPLY_DUPLICATE = 2"
| "apply_result_int DAIM_HOST_APPLY_STALE_REJECTED = 3"
| "apply_result_int DAIM_HOST_APPLY_OWNERSHIP_CONFLICT = 4"
| "apply_result_int DAIM_HOST_APPLY_INVALID = 5"

record daim_host_state_stats =
  local_count :: u64
  remote_count :: u64
  applied_new :: u64
  applied_updated :: u64
  applied_duplicate :: u64
  applied_stale_rejected :: u64
  applied_conflict :: u64
  applied_invalid :: u64

definition zero_stats :: daim_host_state_stats where
  "zero_stats = \<lparr>local_count = 0, remote_count = 0, applied_new = 0, applied_updated = 0,
     applied_duplicate = 0, applied_stale_rejected = 0, applied_conflict = 0, applied_invalid = 0\<rparr>"

record host_state =
  ready :: bool
  node_id :: u64
  epoch :: u64
  next_local_sequence :: u64
  table :: "daim_host_location list"
  stats :: daim_host_state_stats

definition MAX_HOST_ENTRIES :: nat where
  "MAX_HOST_ENTRIES = 4096"

definition MAC_ADDR_LEN :: nat where
  "MAC_ADDR_LEN = 6"

text \<open>The zero-initialised \<open>g_state\<close> of a fresh process.\<close>

definition g_state0 :: host_state where
  "g_state0 = \<lparr>ready = False, node_id = 0, epoch = 0, next_local_sequence = 0, table = [],
     stats = zero_stats\<rparr>"

subsection \<open>Operations\<close>

definition mac_eq :: "bytes \<Rightarrow> bytes \<Rightarrow> bool" where
  "mac_eq a b \<longleftrightarrow> take MAC_ADDR_LEN a = take MAC_ADDR_LEN b"

fun find_index :: "daim_host_location list \<Rightarrow> bytes \<Rightarrow> nat option" where
  "find_index [] m = None"
| "find_index (e # es) m = (if mac_eq (mac e) m then Some 0 else map_option Suc (find_index es m))"

definition daim_host_state_init :: "u64 \<Rightarrow> u64 \<Rightarrow> host_state \<Rightarrow> host_state" where
  "daim_host_state_init n e s =
     s\<lparr>ready := True, node_id := n, epoch := e, next_local_sequence := 1, table := [],
       stats := zero_stats\<rparr>"

definition local_record :: "host_state \<Rightarrow> u64 \<Rightarrow> bytes \<Rightarrow> u64 \<Rightarrow> u32 \<Rightarrow> daim_host_location" where
  "local_record s now m dpid port =
     \<lparr>mac = take MAC_ADDR_LEN m, origin_node_id = node_id s, owner_dpid = dpid, owner_port = port,
      owner_epoch = epoch s, sequence = next_local_sequence s, is_local = 1,
      learned_at_ns = now, applied_at_ns = now\<rparr>"

definition daim_host_learn_local ::
    "u64 \<Rightarrow> bytes \<Rightarrow> u64 \<Rightarrow> u32 \<Rightarrow> host_state \<Rightarrow> u64 \<times> host_state" where
  "daim_host_learn_local now m dpid port s =
     (if \<not> ready s then (0, s)
      else
        let seq = next_local_sequence s;
            s1 = s\<lparr>next_local_sequence := seq + 1\<rparr>;
            rec = local_record s now m dpid port
        in case find_index (table s) m of
             None \<Rightarrow>
               if MAX_HOST_ENTRIES \<le> length (table s) then (0, s1)
               else (seq, s1\<lparr>table := table s @ [rec]\<rparr>)
           | Some idx \<Rightarrow> (seq, s1\<lparr>table := (table s)[idx := rec]\<rparr>))"

definition is_newer :: "daim_host_location \<Rightarrow> daim_host_location \<Rightarrow> bool" where
  "is_newer existing incoming \<longleftrightarrow>
     (if owner_epoch incoming \<noteq> owner_epoch existing
      then owner_epoch incoming > owner_epoch existing
      else sequence incoming > sequence existing)"

definition remote_record :: "u64 \<Rightarrow> daim_host_location \<Rightarrow> daim_host_location" where
  "remote_record now u =
     \<lparr>mac = take MAC_ADDR_LEN (mac u), origin_node_id = origin_node_id u, owner_dpid = owner_dpid u,
      owner_port = owner_port u, owner_epoch = owner_epoch u, sequence = sequence u, is_local = 0,
      learned_at_ns = learned_at_ns u, applied_at_ns = now\<rparr>"

definition updated_record :: "u64 \<Rightarrow> daim_host_location \<Rightarrow> daim_host_location \<Rightarrow> daim_host_location" where
  "updated_record now e u =
     e\<lparr>owner_dpid := owner_dpid u, owner_port := owner_port u, owner_epoch := owner_epoch u,
       sequence := sequence u, learned_at_ns := learned_at_ns u, applied_at_ns := now\<rparr>"

fun count_result :: "daim_host_apply_result \<Rightarrow> daim_host_state_stats \<Rightarrow> daim_host_state_stats" where
  "count_result DAIM_HOST_APPLY_NEW st = st\<lparr>applied_new := applied_new st + 1\<rparr>"
| "count_result DAIM_HOST_APPLY_UPDATED st = st\<lparr>applied_updated := applied_updated st + 1\<rparr>"
| "count_result DAIM_HOST_APPLY_DUPLICATE st = st\<lparr>applied_duplicate := applied_duplicate st + 1\<rparr>"
| "count_result DAIM_HOST_APPLY_STALE_REJECTED st =
     st\<lparr>applied_stale_rejected := applied_stale_rejected st + 1\<rparr>"
| "count_result DAIM_HOST_APPLY_OWNERSHIP_CONFLICT st =
     st\<lparr>applied_conflict := applied_conflict st + 1\<rparr>"
| "count_result DAIM_HOST_APPLY_INVALID st = st\<lparr>applied_invalid := applied_invalid st + 1\<rparr>"

text \<open>
  The decision of \<open>apply_locked\<close> on the table: the result it returns and the table it leaves, for
  the node \<open>me\<close>. Each return statement of the C function counts its result and returns it.
\<close>

definition apply_table ::
    "u64 \<Rightarrow> u64 \<Rightarrow> daim_host_location \<Rightarrow> daim_host_location list
     \<Rightarrow> daim_host_apply_result \<times> daim_host_location list" where
  "apply_table me now u t =
     (if origin_node_id u = 0 then (DAIM_HOST_APPLY_INVALID, t)
      else if origin_node_id u = me then (DAIM_HOST_APPLY_INVALID, t)
      else case find_index t (mac u) of
        None \<Rightarrow>
          if MAX_HOST_ENTRIES \<le> length t then (DAIM_HOST_APPLY_INVALID, t)
          else (DAIM_HOST_APPLY_NEW, t @ [remote_record now u])
      | Some idx \<Rightarrow>
          let e = t ! idx
          in if origin_node_id e \<noteq> origin_node_id u then (DAIM_HOST_APPLY_OWNERSHIP_CONFLICT, t)
             else if owner_epoch u = owner_epoch e \<and> sequence u = sequence e
             then (DAIM_HOST_APPLY_DUPLICATE, t)
             else if \<not> is_newer e u then (DAIM_HOST_APPLY_STALE_REJECTED, t)
             else (DAIM_HOST_APPLY_UPDATED, t[idx := updated_record now e u]))"

definition apply_locked ::
    "u64 \<Rightarrow> daim_host_location \<Rightarrow> host_state \<Rightarrow> daim_host_apply_result \<times> host_state" where
  "apply_locked now u s =
     (case apply_table (node_id s) now u (table s) of
        (r, t) \<Rightarrow> (r, s\<lparr>table := t, stats := count_result r (stats s)\<rparr>))"

definition daim_host_apply_remote ::
    "u64 \<Rightarrow> daim_host_location \<Rightarrow> host_state \<Rightarrow> daim_host_apply_result \<times> host_state" where
  "daim_host_apply_remote now u s =
     (if \<not> ready s then (DAIM_HOST_APPLY_INVALID, s) else apply_locked now u s)"

definition daim_host_import_snapshot_entry ::
    "u64 \<Rightarrow> daim_host_location \<Rightarrow> host_state \<Rightarrow> daim_host_apply_result \<times> host_state" where
  "daim_host_import_snapshot_entry now u s =
     (if \<not> ready s then (DAIM_HOST_APPLY_INVALID, s) else apply_locked now u s)"

definition daim_host_lookup :: "host_state \<Rightarrow> bytes \<Rightarrow> daim_host_location option" where
  "daim_host_lookup s m =
     (if \<not> ready s then None else map_option (\<lambda>i. table s ! i) (find_index (table s) m))"

text \<open>The entries passed to \<open>emit\<close>, in order; \<open>None\<close> is the -1 of an uninitialised state.\<close>

definition daim_host_export_snapshot :: "host_state \<Rightarrow> daim_host_location list option" where
  "daim_host_export_snapshot s = (if \<not> ready s then None else Some (table s))"

definition daim_host_state_stats_out :: "host_state \<Rightarrow> daim_host_state_stats" where
  "daim_host_state_stats_out s =
     (if \<not> ready s then zero_stats
      else (stats s)\<lparr>local_count := of_nat (length (filter (\<lambda>e. is_local e \<noteq> 0) (table s))),
                     remote_count := of_nat (length (filter (\<lambda>e. is_local e = 0) (table s)))\<rparr>)"

definition daim_host_state_reset :: "host_state \<Rightarrow> host_state" where
  "daim_host_state_reset s =
     (if \<not> ready s then s
      else s\<lparr>table := [], next_local_sequence := 1, stats := zero_stats\<rparr>)"

subsection \<open>Versions\<close>

text \<open>
  The ordering key of one origin's updates: the epoch first, the sequence number within it.
\<close>

datatype version = Version (v_epoch: u64) (v_seq: u64)

instantiation version :: linorder
begin

definition less_eq_version :: "version \<Rightarrow> version \<Rightarrow> bool" where
  "less_eq_version v w \<longleftrightarrow> v_epoch v < v_epoch w \<or> (v_epoch v = v_epoch w \<and> v_seq v \<le> v_seq w)"

definition less_version :: "version \<Rightarrow> version \<Rightarrow> bool" where
  "less_version v w \<longleftrightarrow> v_epoch v < v_epoch w \<or> (v_epoch v = v_epoch w \<and> v_seq v < v_seq w)"

instance
  by standard (auto simp: less_eq_version_def less_version_def intro: version.expand)

end

definition loc_version :: "daim_host_location \<Rightarrow> version" where
  "loc_version e = Version (owner_epoch e) (sequence e)"

lemma is_newer_version: "is_newer e u \<longleftrightarrow> loc_version e < loc_version u"
  by (auto simp: is_newer_def loc_version_def less_version_def)

lemma duplicate_version:
  "owner_epoch u = owner_epoch e \<and> sequence u = sequence e \<longleftrightarrow> loc_version u = loc_version e"
  by (auto simp: loc_version_def)

subsection \<open>Searching the table\<close>

lemma mac_eq_simps [simp]:
  "mac_eq m m" "mac_eq (take MAC_ADDR_LEN a) b = mac_eq a b" "mac_eq a (take MAC_ADDR_LEN b) = mac_eq a b"
  by (simp_all add: mac_eq_def)

lemma mac_eq_sym: "mac_eq a b \<longleftrightarrow> mac_eq b a"
  by (auto simp: mac_eq_def)

lemma mac_eq_trans: "mac_eq a b \<Longrightarrow> mac_eq b c \<longleftrightarrow> mac_eq a c"
  by (auto simp: mac_eq_def)

lemma mac_eq_full: "length a = MAC_ADDR_LEN \<Longrightarrow> length b = MAC_ADDR_LEN \<Longrightarrow> mac_eq a b \<longleftrightarrow> a = b"
  by (simp add: mac_eq_def)

lemma find_index_None: "find_index t m = None \<longleftrightarrow> (\<forall>e \<in> set t. \<not> mac_eq (mac e) m)"
  by (induction t) auto

lemma find_index_Some:
  "find_index t m = Some i \<Longrightarrow> i < length t \<and> mac_eq (mac (t ! i)) m"
  by (induction t arbitrary: i) (auto split: if_splits)

lemma find_index_cong: "mac_eq m m' \<Longrightarrow> find_index t m = find_index t m'"
  by (induction t) (auto simp: mac_eq_def)

lemma find_index_append:
  "find_index (t @ [e]) m =
     (case find_index t m of Some i \<Rightarrow> Some i
      | None \<Rightarrow> if mac_eq (mac e) m then Some (length t) else None)"
  by (induction t) (auto split: option.splits)

lemma find_index_update:
  "i < length t \<Longrightarrow> mac e = mac (t ! i) \<Longrightarrow> find_index (t[i := e]) m = find_index t m"
  by (induction t arbitrary: i) (auto split: nat.splits)

lemma find_index_update_eq:
  "i < length t \<Longrightarrow> mac_eq (mac e) (mac (t ! i)) \<Longrightarrow> find_index (t[i := e]) m = find_index t m"
  by (induction t arbitrary: i) (auto simp: mac_eq_def split: nat.splits)

text \<open>The table as a finite map from MAC addresses, which is how its clients see it.\<close>

definition table_lookup :: "daim_host_location list \<Rightarrow> bytes \<Rightarrow> daim_host_location option" where
  "table_lookup t m = map_option (\<lambda>i. t ! i) (find_index t m)"

lemma daim_host_lookup_table: "ready s \<Longrightarrow> daim_host_lookup s m = table_lookup (table s) m"
  by (simp add: daim_host_lookup_def table_lookup_def)

lemma table_lookup_mac: "table_lookup t m = Some e \<Longrightarrow> mac_eq (mac e) m \<and> e \<in> set t"
  by (auto simp: table_lookup_def dest: find_index_Some)

lemma table_lookup_append:
  "table_lookup (t @ [e]) m =
     (case table_lookup t m of Some x \<Rightarrow> Some x | None \<Rightarrow> if mac_eq (mac e) m then Some e else None)"
  by (auto simp: table_lookup_def find_index_append nth_append split: option.splits
      dest: find_index_Some)

lemma table_lookup_update:
  assumes "find_index t m = Some i" and "mac_eq (mac e) m"
  shows "table_lookup (t[i := e]) m' = (if mac_eq m m' then Some e else table_lookup t m')"
proof -
  from assms have i: "i < length t" "mac_eq (mac e) (mac (t ! i))"
    using find_index_Some [OF assms(1)] by (auto simp: mac_eq_def)
  show ?thesis
  proof (cases "mac_eq m m'")
    case True
    with assms i find_index_cong [OF True, of t] show ?thesis
      by (simp add: table_lookup_def find_index_update_eq)
  next
    case False
    have "(t[i := e]) ! j = t ! j" if "find_index t m' = Some j" for j
      using find_index_Some [OF that] find_index_Some [OF assms(1)] False
      by (cases "j = i") (auto simp: mac_eq_def)
    with False i show ?thesis
      by (cases "find_index t m'") (auto simp: table_lookup_def find_index_update_eq)
  qed
qed

end
