(* ===== verification/Host_Laws.thy ===== *)
theory Host_Laws
  imports Host_State
begin

text \<open>
  What the host-location table promises: a well-formedness invariant kept by every operation,
  the effect of each operation on the map view of the table, the interface the transport and
  the learning application rely on (as a locale, interpreted on the C model), and the
  characterisation of the table after any sequence of received updates.
\<close>

subsection \<open>The invariant\<close>

definition entry_ok :: "u64 \<Rightarrow> u64 \<Rightarrow> daim_host_location \<Rightarrow> bool" where
  "entry_ok me ep e \<longleftrightarrow>
     length (mac e) = MAC_ADDR_LEN \<and>
     (if is_local e = 0 then origin_node_id e \<noteq> me \<and> origin_node_id e \<noteq> 0
      else is_local e = 1 \<and> origin_node_id e = me \<and> owner_epoch e = ep)"

definition tab_inv :: "u64 \<Rightarrow> u64 \<Rightarrow> daim_host_location list \<Rightarrow> bool" where
  "tab_inv me ep t \<longleftrightarrow>
     distinct (map mac t) \<and> length t \<le> MAX_HOST_ENTRIES \<and> list_all (entry_ok me ep) t"

definition host_inv :: "host_state \<Rightarrow> bool" where
  "host_inv s \<longleftrightarrow> tab_inv (node_id s) (epoch s) (table s)"

lemma tab_inv_entry: "tab_inv me ep t \<Longrightarrow> e \<in> set t \<Longrightarrow> entry_ok me ep e"
  by (simp add: tab_inv_def list_all_iff)

lemma new_mac_fresh:
  assumes "find_index t m = None" and "length m = MAC_ADDR_LEN"
  shows "m \<notin> mac ` set t"
  using assms by (auto simp: find_index_None)

lemma tab_inv_append:
  assumes "tab_inv me ep t" and "find_index t m = None" and "length t < MAX_HOST_ENTRIES"
    and "entry_ok me ep e" and "mac e = m"
  shows "tab_inv me ep (t @ [e])"
  using assms new_mac_fresh [OF assms(2)] by (auto simp: tab_inv_def entry_ok_def)

lemma tab_inv_update:
  assumes "tab_inv me ep t" and "i < length t" and "mac e = mac (t ! i)" and "entry_ok me ep e"
  shows "tab_inv me ep (t[i := e])"
proof -
  have "map mac (t[i := e]) = map mac t"
    using assms(2,3) by (simp add: map_update list_update_same_conv)
  moreover have "list_all (entry_ok me ep) (t[i := e])"
    using assms set_update_subset_insert [of t i e] by (auto simp: tab_inv_def list_all_iff)
  ultimately show ?thesis
    using assms(1) by (simp add: tab_inv_def)
qed

lemma find_index_mac:
  assumes "tab_inv me ep t" and "find_index t m = Some i" and "length m = MAC_ADDR_LEN"
  shows "i < length t" and "mac (t ! i) = m"
proof -
  show i: "i < length t" using find_index_Some [OF assms(2)] by simp
  show "mac (t ! i) = m"
    using find_index_Some [OF assms(2)] tab_inv_entry [OF assms(1), of "t ! i"] i assms(3)
    by (simp add: mac_eq_full entry_ok_def)
qed

lemma host_inv_init: "host_inv (daim_host_state_init n e s)"
  by (simp add: host_inv_def tab_inv_def daim_host_state_init_def)

lemma host_inv_reset: "host_inv s \<Longrightarrow> host_inv (daim_host_state_reset s)"
  by (simp add: host_inv_def tab_inv_def daim_host_state_reset_def)

lemma host_inv_learn:
  assumes "host_inv s" and "length m = MAC_ADDR_LEN"
  shows "host_inv (snd (daim_host_learn_local now m dpid port s))"
proof -
  let ?r = "local_record s now m dpid port"
  have ok: "entry_ok (node_id s) (epoch s) ?r" and mc: "mac ?r = m"
    using assms(2) by (simp_all add: entry_ok_def local_record_def)
  show ?thesis
  proof (cases "find_index (table s) m")
    case None
    with assms ok mc tab_inv_append [of _ _ "table s" m ?r] show ?thesis
      by (auto simp: daim_host_learn_local_def Let_def host_inv_def)
  next
    case (Some i)
    with assms ok mc find_index_mac [OF _ Some] tab_inv_update [of _ _ "table s" i ?r] show ?thesis
      by (auto simp: daim_host_learn_local_def Let_def host_inv_def)
  qed
qed

lemma entry_ok_remote:
  "origin_node_id u \<noteq> 0 \<Longrightarrow> origin_node_id u \<noteq> me \<Longrightarrow> length (mac u) = MAC_ADDR_LEN \<Longrightarrow>
   entry_ok me ep (remote_record now u)"
  by (simp add: entry_ok_def remote_record_def)

lemma entry_ok_updated:
  "entry_ok me ep e \<Longrightarrow> origin_node_id e = origin_node_id u \<Longrightarrow> origin_node_id u \<noteq> me \<Longrightarrow>
   entry_ok me ep (updated_record now e u)"
  by (auto simp: entry_ok_def updated_record_def split: if_splits)

lemma tab_inv_apply:
  assumes inv: "tab_inv me ep t" and len: "length (mac u) = MAC_ADDR_LEN"
  shows "tab_inv me ep (snd (apply_table me now u t))"
proof (cases "origin_node_id u = 0 \<or> origin_node_id u = me")
  case True
  with inv show ?thesis by (auto simp: apply_table_def)
next
  case False
  show ?thesis
  proof (cases "find_index t (mac u)")
    case None
    with False inv len entry_ok_remote [of u me ep now] tab_inv_append [OF inv None]
    show ?thesis by (auto simp: apply_table_def remote_record_def)
  next
    case (Some i)
    let ?e = "t ! i"
    have "i < length t" and ok: "entry_ok me ep ?e"
      using find_index_mac [OF inv Some len] tab_inv_entry [OF inv, of ?e] by auto
    moreover have "mac (updated_record now ?e u) = mac ?e"
      by (simp add: updated_record_def)
    ultimately show ?thesis
      using False inv Some entry_ok_updated [OF ok, of u now] tab_inv_update [OF inv]
      by (auto simp: apply_table_def Let_def)
  qed
qed

lemma host_inv_apply:
  "host_inv s \<Longrightarrow> length (mac u) = MAC_ADDR_LEN \<Longrightarrow> host_inv (snd (daim_host_apply_remote now u s))"
  using tab_inv_apply [of "node_id s" "epoch s" "table s" u now]
  by (auto simp: daim_host_apply_remote_def apply_locked_def host_inv_def split: prod.splits)

subsection \<open>Effect on the map view\<close>

text \<open>
  One MAC address seen through the operations is a register: a received update claims it when
  it is free, replaces its content when it comes from the same origin with a newer version, and
  leaves it alone otherwise.
\<close>

definition reg_step :: "u64 \<Rightarrow> u64 \<Rightarrow> daim_host_location \<Rightarrow> daim_host_location option \<Rightarrow> daim_host_location option" where
  "reg_step me now u r =
     (if origin_node_id u = 0 \<or> origin_node_id u = me then r
      else case r of
        None \<Rightarrow> Some (remote_record now u)
      | Some e \<Rightarrow> if origin_node_id e = origin_node_id u \<and> loc_version e < loc_version u
                  then Some (updated_record now e u) else r)"

definition has_room :: "bytes \<Rightarrow> daim_host_location list \<Rightarrow> bool" where
  "has_room m t \<longleftrightarrow> find_index t m \<noteq> None \<or> length t < MAX_HOST_ENTRIES"

lemma table_lookup_apply:
  assumes "has_room (mac u) t"
  shows "table_lookup (snd (apply_table me now u t)) m =
    (if mac_eq (mac u) m then reg_step me now u (table_lookup t m) else table_lookup t m)"
proof (cases "find_index t (mac u)")
  case None
  with assms have room: "\<not> MAX_HOST_ENTRIES \<le> length t" by (simp add: has_room_def)
  have "table_lookup t m = None" if "mac_eq (mac u) m"
    using None find_index_cong [OF that, of t] by (simp add: table_lookup_def)
  with None room show ?thesis
    by (auto simp: apply_table_def reg_step_def table_lookup_append remote_record_def
        split: option.splits)
next
  case (Some i)
  let ?e = "t ! i"
  have e: "table_lookup t m = Some ?e" if "mac_eq (mac u) m"
    using Some find_index_cong [OF that, of t] by (simp add: table_lookup_def)
  have "mac_eq (mac (updated_record now ?e u)) (mac u)"
    using find_index_Some [OF Some] by (simp add: updated_record_def)
  from table_lookup_update [OF Some this] e show ?thesis
    using Some by (auto simp: apply_table_def reg_step_def Let_def is_newer_version loc_version_def)
qed

lemma table_lookup_apply_keeps:
  assumes "table_lookup t m = Some e"
  shows "table_lookup (snd (apply_table me now u t)) m =
    (if mac_eq (mac u) m then reg_step me now u (Some e) else Some e)"
proof (cases "has_room (mac u) t")
  case True
  then show ?thesis using assms by (simp add: table_lookup_apply)
next
  case False
  then have none: "find_index t (mac u) = None" and full: "MAX_HOST_ENTRIES \<le> length t"
    by (simp_all add: has_room_def)
  moreover have "\<not> mac_eq (mac u) m"
    using none assms find_index_cong [of "mac u" m t] by (auto simp: table_lookup_def)
  ultimately show ?thesis
    using assms by (simp add: apply_table_def)
qed

lemma apply_frame [simp]:
  "ready (snd (daim_host_apply_remote now u s)) = ready s"
  "node_id (snd (daim_host_apply_remote now u s)) = node_id s"
  "epoch (snd (daim_host_apply_remote now u s)) = epoch s"
  "next_local_sequence (snd (daim_host_apply_remote now u s)) = next_local_sequence s"
  by (auto simp: daim_host_apply_remote_def apply_locked_def split: prod.splits)

lemma table_apply:
  "ready s \<Longrightarrow> table (snd (daim_host_apply_remote now u s)) = snd (apply_table (node_id s) now u (table s))"
  by (auto simp: daim_host_apply_remote_def apply_locked_def split: prod.splits)

lemma import_is_apply: "daim_host_import_snapshot_entry = daim_host_apply_remote"
  by (intro ext) (simp add: daim_host_import_snapshot_entry_def daim_host_apply_remote_def)

lemma learn_frame [simp]:
  "ready (snd (daim_host_learn_local now m dpid port s)) = ready s"
  "node_id (snd (daim_host_learn_local now m dpid port s)) = node_id s"
  "epoch (snd (daim_host_learn_local now m dpid port s)) = epoch s"
  by (auto simp: daim_host_learn_local_def Let_def split: option.splits)

text \<open>A local learn replaces whatever the table held for the MAC, remote claims included.\<close>

lemma lookup_learn:
  assumes "ready s" and "has_room m (table s)"
  shows "fst (daim_host_learn_local now m dpid port s) = next_local_sequence s"
    and "daim_host_lookup (snd (daim_host_learn_local now m dpid port s)) m' =
      (if mac_eq m m' then Some (local_record s now m dpid port) else daim_host_lookup s m')"
proof -
  let ?r = "local_record s now m dpid port"
  have mr: "mac_eq (mac ?r) m'' = mac_eq m m''" for m'' by (simp add: local_record_def)
  show "fst (daim_host_learn_local now m dpid port s) = next_local_sequence s"
    using assms by (auto simp: daim_host_learn_local_def Let_def has_room_def split: option.splits)
  show "daim_host_lookup (snd (daim_host_learn_local now m dpid port s)) m' =
      (if mac_eq m m' then Some ?r else daim_host_lookup s m')"
  proof (cases "find_index (table s) m")
    case None
    then have "table_lookup (table s) m' = None" if "mac_eq m m'"
      using find_index_cong [OF that, of "table s"] by (simp add: table_lookup_def)
    with None assms show ?thesis
      by (auto simp: daim_host_learn_local_def Let_def has_room_def daim_host_lookup_table
          table_lookup_append mr split: option.splits)
  next
    case (Some i)
    with assms table_lookup_update [OF Some, of ?r m'] show ?thesis
      by (simp add: daim_host_learn_local_def Let_def daim_host_lookup_table mr)
  qed
qed

subsection \<open>The interface of the table\<close>

text \<open>
  What the peer transport and the learning application rely on when they hand received claims
  to the table: which address an entry is about, who owns it, and that a claim can only move an
  entry of its own origin forward.
\<close>

locale location_store =
  fixes inv :: "'s \<Rightarrow> bool"
    and me :: "'s \<Rightarrow> u64"
    and lookup :: "'s \<Rightarrow> bytes \<Rightarrow> daim_host_location option"
    and apply_claim :: "u64 \<Rightarrow> daim_host_location \<Rightarrow> 's \<Rightarrow> daim_host_apply_result \<times> 's"
  assumes inv_apply: "inv s \<Longrightarrow> length (mac u) = MAC_ADDR_LEN \<Longrightarrow> inv (snd (apply_claim now u s))"
    and me_apply: "me (snd (apply_claim now u s)) = me s"
    and owner: "inv s \<Longrightarrow> lookup s m = Some e \<Longrightarrow> is_local e \<noteq> 0 \<longleftrightarrow> origin_node_id e = me s"
    and apply_moves: "inv s \<Longrightarrow> lookup s m = Some e \<Longrightarrow>
      lookup (snd (apply_claim now u s)) m = Some e \<or>
      (\<exists>e'. lookup (snd (apply_claim now u s)) m = Some e' \<and> origin_node_id u \<noteq> me s \<and>
        origin_node_id e = origin_node_id u \<and> origin_node_id e' = origin_node_id e \<and>
        is_local e' = is_local e \<and> loc_version e < loc_version e')"
begin

definition run_claims :: "(u64 \<times> daim_host_location) list \<Rightarrow> 's \<Rightarrow> 's" where
  "run_claims us s = fold (\<lambda>(now, u) s. snd (apply_claim now u s)) us s"

lemma run_claims_simps [simp]:
  "run_claims [] s = s"
  "run_claims ((now, u) # us) s = run_claims us (snd (apply_claim now u s))"
  by (simp_all add: run_claims_def)

lemma me_run [simp]: "me (run_claims us s) = me s"
  by (induction us arbitrary: s) (auto simp: me_apply)

lemma inv_run: "inv s \<Longrightarrow> \<forall>(now, u) \<in> set us. length (mac u) = MAC_ADDR_LEN \<Longrightarrow> inv (run_claims us s)"
  by (induction us arbitrary: s) (auto simp: inv_apply)

text \<open>No sequence of received claims touches an address this node owns.\<close>

lemma run_keeps_local:
  assumes "inv s" and "\<forall>(now, u) \<in> set us. length (mac u) = MAC_ADDR_LEN"
    and "lookup s m = Some e" and "is_local e \<noteq> 0"
  shows "lookup (run_claims us s) m = Some e"
  using assms(1,2,3)
proof (induction us arbitrary: s)
  case Nil
  then show ?case by simp
next
  case (Cons x us)
  obtain now u where x: "x = (now, u)" by (cases x)
  have "origin_node_id e = me s" using owner [OF Cons.prems(1,3)] assms(4) by simp
  with apply_moves [OF Cons.prems(1,3), of now u]
  have "lookup (snd (apply_claim now u s)) m = Some e" by auto
  with Cons.IH [of "snd (apply_claim now u s)"] Cons.prems x show ?case
    by (auto simp: inv_apply)
qed

text \<open>An entry never changes its origin, and its version never goes back.\<close>

lemma run_monotone:
  assumes "inv s" and "\<forall>(now, u) \<in> set us. length (mac u) = MAC_ADDR_LEN" and "lookup s m = Some e"
  shows "\<exists>e'. lookup (run_claims us s) m = Some e' \<and> origin_node_id e' = origin_node_id e \<and>
    is_local e' = is_local e \<and> loc_version e \<le> loc_version e'"
  using assms
proof (induction us arbitrary: s e)
  case Nil
  then show ?case by simp
next
  case (Cons x us)
  obtain now u where x: "x = (now, u)" by (cases x)
  let ?s = "snd (apply_claim now u s)"
  from apply_moves [OF Cons.prems(1,3), of now u] obtain e1 where
    e1: "lookup ?s m = Some e1" "origin_node_id e1 = origin_node_id e" "is_local e1 = is_local e"
      "loc_version e \<le> loc_version e1"
    by (auto intro: less_imp_le)
  with Cons.IH [of ?s e1] Cons.prems x show ?case
    by (fastforce simp: inv_apply intro: order_trans)
qed

end

lemma reg_step_cases:
  "reg_step me now u (Some e) = Some e \<or>
   (reg_step me now u (Some e) = Some (updated_record now e u) \<and> origin_node_id u \<noteq> me \<and>
    origin_node_id e = origin_node_id u \<and> loc_version e < loc_version u)"
  by (auto simp: reg_step_def)

lemma updated_record_simps [simp]:
  "mac (updated_record now e u) = mac e"
  "origin_node_id (updated_record now e u) = origin_node_id e"
  "is_local (updated_record now e u) = is_local e"
  "loc_version (updated_record now e u) = loc_version u"
  by (simp_all add: updated_record_def loc_version_def)

lemma remote_record_simps [simp]:
  "mac (remote_record now u) = take MAC_ADDR_LEN (mac u)"
  "origin_node_id (remote_record now u) = origin_node_id u"
  "is_local (remote_record now u) = 0"
  "loc_version (remote_record now u) = loc_version u"
  by (simp_all add: remote_record_def loc_version_def)

interpretation hosts: location_store
  "\<lambda>s. ready s \<and> host_inv s" node_id daim_host_lookup daim_host_apply_remote
proof (unfold_locales, goal_cases)
  case (1 s u now)
  then show ?case by (simp add: host_inv_apply)
next
  case (2 now u s)
  show ?case by simp
next
  case (3 s m e)
  then have "entry_ok (node_id s) (epoch s) e"
    by (auto simp: daim_host_lookup_table host_inv_def dest!: table_lookup_mac intro: tab_inv_entry)
  then show ?case by (auto simp: entry_ok_def split: if_splits)
next
  case (4 s m e now u)
  then show ?case
    using table_lookup_apply_keeps [of "table s" m e "node_id s" now u] reg_step_cases [of "node_id s" now u e]
    by (auto simp: daim_host_lookup_table table_apply)
qed

end
