(* ===== verification/Host_Convergence.thy ===== *)
theory Host_Convergence
  imports Host_Laws
begin

text \<open>
  The content of a node's table after any sequence of received updates, in closed form: each
  address belongs to the first origin that claimed it, at the newest version that origin sent.
  Order independence and idempotence of one owner's updates follow, and so does the divergence
  of two nodes that see conflicting claims in different orders.
\<close>

subsection \<open>Sequences of received updates\<close>

fun apply_updates :: "(u64 \<times> daim_host_location) list \<Rightarrow> host_state
    \<Rightarrow> daim_host_apply_result list \<times> host_state" where
  "apply_updates [] s = ([], s)"
| "apply_updates ((now, u) # us) s =
     (case daim_host_apply_remote now u s of
        (r, s1) \<Rightarrow> (case apply_updates us s1 of (rs, s2) \<Rightarrow> (r # rs, s2)))"

lemma apply_updates_simps:
  "snd (apply_updates ((now, u) # us) s) = snd (apply_updates us (snd (daim_host_apply_remote now u s)))"
  "fst (apply_updates ((now, u) # us) s) =
     fst (daim_host_apply_remote now u s) # fst (apply_updates us (snd (daim_host_apply_remote now u s)))"
  by (simp_all split: prod.splits)

lemma snd_apply_updates: "snd (apply_updates us s) = hosts.run_claims us s"
proof (induction us arbitrary: s)
  case (Cons x us)
  then show ?case by (cases x) (simp add: apply_updates_simps del: apply_updates.simps)
qed simp

lemma length_apply_updates: "length (fst (apply_updates us s)) = length us"
proof (induction us arbitrary: s)
  case (Cons x us)
  then show ?case by (cases x) (simp add: apply_updates_simps del: apply_updates.simps)
qed simp

subsection \<open>The winning claim\<close>

text \<open>The newest of a list of updates, the earliest among equals.\<close>

fun newest :: "daim_host_location \<Rightarrow> daim_host_location list \<Rightarrow> daim_host_location" where
  "newest b [] = b"
| "newest b (u # us) = newest (if loc_version b < loc_version u then u else b) us"

definition claims_for :: "u64 \<Rightarrow> bytes \<Rightarrow> daim_host_location list \<Rightarrow> daim_host_location list" where
  "claims_for me m us = filter (\<lambda>u. mac_eq (mac u) m \<and> origin_node_id u \<noteq> 0 \<and> origin_node_id u \<noteq> me) us"

definition winning_claim :: "u64 \<Rightarrow> bytes \<Rightarrow> daim_host_location list \<Rightarrow> daim_host_location option" where
  "winning_claim me m us =
     (case claims_for me m us of
        [] \<Rightarrow> None
      | c # cs \<Rightarrow> Some (newest c (filter (\<lambda>u. origin_node_id u = origin_node_id c) cs)))"

text \<open>What a record says apart from when this node stored it.\<close>

definition claim_of :: "daim_host_location \<Rightarrow> daim_host_location" where
  "claim_of e = e\<lparr>applied_at_ns := 0\<rparr>"

lemma newest_in: "newest b us \<in> insert b (set us)"
proof (induction us arbitrary: b)
  case (Cons u us)
  then show ?case using Cons [of "if loc_version b < loc_version u then u else b"] by auto
qed simp

lemma newest_max: "u \<in> insert b (set us) \<Longrightarrow> loc_version u \<le> loc_version (newest b us)"
proof (induction us arbitrary: b u)
  case Nil
  then show ?case by simp
next
  case (Cons x us)
  let ?b = "if loc_version b < loc_version x then x else b"
  have "loc_version b \<le> loc_version ?b" "loc_version x \<le> loc_version ?b" by auto
  with Cons.IH [of ?b ?b] Cons.IH [of u ?b] Cons.prems show ?case
    by (auto intro: order_trans)
qed

subsection \<open>The register of one address\<close>

definition reg_run :: "u64 \<Rightarrow> bytes \<Rightarrow> (u64 \<times> daim_host_location) list \<Rightarrow>
    daim_host_location option \<Rightarrow> daim_host_location option" where
  "reg_run me m us r = fold (\<lambda>(now, u) r. if mac_eq (mac u) m then reg_step me now u r else r) us r"

lemma reg_run_simps [simp]:
  "reg_run me m [] r = r"
  "reg_run me m ((now, u) # us) r =
     reg_run me m us (if mac_eq (mac u) m then reg_step me now u r else r)"
  by (simp_all add: reg_run_def)

lemma length_apply_table: "length (snd (apply_table me now u t)) \<le> Suc (length t)"
  by (auto simp: apply_table_def Let_def split: option.splits)

lemma lookup_apply_updates:
  "ready s \<Longrightarrow> length (table s) + length us \<le> MAX_HOST_ENTRIES \<Longrightarrow>
   daim_host_lookup (snd (apply_updates us s)) m = reg_run (node_id s) m us (daim_host_lookup s m)"
proof (induction us arbitrary: s)
  case Nil
  then show ?case by simp
next
  case (Cons x us)
  obtain now u where x: "x = (now, u)" by (cases x)
  let ?s = "snd (daim_host_apply_remote now u s)"
  have "length (table ?s) \<le> Suc (length (table s))"
    using Cons.prems(1) length_apply_table by (simp add: table_apply)
  moreover have "has_room (mac u) (table s)"
    using Cons.prems(2) by (simp add: has_room_def)
  ultimately show ?case
    using Cons.IH [of ?s] Cons.prems x
    by (simp add: apply_updates_simps daim_host_lookup_table table_apply table_lookup_apply
        del: apply_updates.simps)
qed

lemma claim_of_remote [simp]: "claim_of (remote_record now u) = remote_record 0 u"
  by (simp add: claim_of_def remote_record_def)

lemma claim_of_updated:
  "claim_of e = remote_record 0 b \<Longrightarrow> mac_eq (mac b) m \<Longrightarrow> mac_eq (mac u) m \<Longrightarrow>
   origin_node_id b = origin_node_id u \<Longrightarrow> claim_of (updated_record now e u) = remote_record 0 u"
  by (cases e) (auto simp: claim_of_def remote_record_def updated_record_def mac_eq_def)

lemma claim_of_fields:
  "claim_of e = remote_record 0 b \<Longrightarrow>
   origin_node_id e = origin_node_id b \<and> loc_version e = loc_version b"
  by (cases e) (auto simp: claim_of_def remote_record_def loc_version_def)

text \<open>Once claimed, the register follows the newest version of its owner.\<close>

lemma reg_run_claimed:
  assumes "claim_of e = remote_record 0 b" and "mac_eq (mac b) m"
    and "origin_node_id b \<noteq> 0" and "origin_node_id b \<noteq> me"
  shows "map_option claim_of (reg_run me m us (Some e)) =
    Some (remote_record 0 (newest b (filter (\<lambda>u. origin_node_id u = origin_node_id b)
      (claims_for me m (map snd us)))))"
  using assms
proof (induction us arbitrary: e b)
  case Nil
  then show ?case by (simp add: claims_for_def)
next
  case (Cons x us)
  obtain now u where x: "x = (now, u)" by (cases x)
  note f = claim_of_fields [OF Cons.prems(1)]
  show ?case
  proof (cases "mac_eq (mac u) m \<and> origin_node_id u = origin_node_id b")
    case True
    then show ?thesis
      using Cons.IH [of e b] Cons.IH [of "updated_record now e u" u]
        claim_of_updated [OF Cons.prems(1,2), of u now] Cons.prems x f
      by (auto simp: reg_step_def claims_for_def)
  next
    case False
    then show ?thesis
      using Cons.IH [of e b] Cons.prems x f by (auto simp: reg_step_def claims_for_def)
  qed
qed

lemma reg_run_free:
  "map_option claim_of (reg_run me m us None) =
     map_option (remote_record 0) (winning_claim me m (map snd us))"
proof (induction us)
  case Nil
  then show ?case by (simp add: winning_claim_def claims_for_def)
next
  case (Cons x us)
  obtain now u where x: "x = (now, u)" by (cases x)
  show ?case
  proof (cases "mac_eq (mac u) m \<and> origin_node_id u \<noteq> 0 \<and> origin_node_id u \<noteq> me")
    case True
    with reg_run_claimed [of "remote_record now u" u m me us] x show ?thesis
      by (simp add: reg_step_def winning_claim_def claims_for_def)
  next
    case False
    with Cons x show ?thesis
      by (auto simp: reg_step_def winning_claim_def claims_for_def)
  qed
qed

lemma init_lookup [simp]:
  "daim_host_lookup (daim_host_state_init n e s) m = None" "ready (daim_host_state_init n e s)"
  "node_id (daim_host_state_init n e s) = n" "table (daim_host_state_init n e s) = []"
  by (simp_all add: daim_host_lookup_def daim_host_state_init_def)

subsection \<open>Properties\<close>

text \<open>
  Property C1: after any sequence of received updates that fits the table, a node started
  from \<open>daim_host_state_init\<close> knows an address exactly when some valid remote origin claimed it;
  the entry belongs to the first such origin and is the newest version that origin sent, with
  every later claim of another origin, every stale and every duplicate update left out.
\<close>

theorem table_after_updates:
  assumes "length us \<le> MAX_HOST_ENTRIES"
  shows "map_option claim_of (daim_host_lookup (snd (apply_updates us (daim_host_state_init n e s))) m) =
         map_option (remote_record 0) (winning_claim n m (map snd us))"
  using assms by (simp add: lookup_apply_updates reg_run_free)

definition sample_claim :: "u64 \<Rightarrow> u64 \<Rightarrow> u64 \<Rightarrow> daim_host_location" where
  "sample_claim origin ep sq =
     \<lparr>mac = [2, 0, 0, 0, 0x99, 0x99], origin_node_id = origin, owner_dpid = 9, owner_port = 1,
      owner_epoch = ep, sequence = sq, is_local = 1, learned_at_ns = 5, applied_at_ns = 5\<rparr>"

theorem table_after_updates_witness:
  "map_option claim_of (daim_host_lookup (snd (apply_updates
      [(10, sample_claim 1 1 7), (11, sample_claim 4 9 9), (12, sample_claim 1 1 5), (13, sample_claim 1 2 1)]
      (daim_host_state_init 2 1 g_state0))) [2, 0, 0, 0, 0x99, 0x99]) =
   Some (remote_record 0 (sample_claim 1 2 1))"
  by (subst table_after_updates)
    (simp_all add: MAX_HOST_ENTRIES_def winning_claim_def claims_for_def sample_claim_def mac_eq_def
      loc_version_def less_version_def)

text \<open>
  Order and repetition do not matter for addresses with one owner: when all updates for an
  address come from one origin, and that origin never sends two different records under one
  version, the winner depends on the set of updates only.
\<close>

definition single_owner :: "daim_host_location set \<Rightarrow> bool" where
  "single_owner U \<longleftrightarrow>
     (\<forall>u \<in> U. \<forall>v \<in> U. mac_eq (mac u) (mac v) \<longrightarrow>
        origin_node_id u = origin_node_id v \<and>
        (loc_version u = loc_version v \<longrightarrow> remote_record 0 u = remote_record 0 v))"

lemma winning_claim_single_owner:
  assumes "single_owner (set us)"
  shows "case winning_claim me m us of
      None \<Rightarrow> claims_for me m us = []
    | Some w \<Rightarrow> w \<in> set (claims_for me m us) \<and>
        (\<forall>u \<in> set (claims_for me m us). loc_version u \<le> loc_version w)"
proof (cases "claims_for me m us")
  case Nil
  then show ?thesis by (simp add: winning_claim_def)
next
  case (Cons c cs)
  have mem: "u \<in> set us \<and> mac_eq (mac u) m" if "u \<in> set (claims_for me m us)" for u
    using that by (auto simp: claims_for_def)
  have "origin_node_id u = origin_node_id c" if "u \<in> set cs" for u
    using assms mem [of u] mem [of c] that Cons
    unfolding single_owner_def by (auto simp: mac_eq_def)
  then have "filter (\<lambda>u. origin_node_id u = origin_node_id c) cs = cs"
    by (simp add: filter_id_conv)
  with Cons newest_in [of c cs] newest_max [of _ c cs] show ?thesis
    by (auto simp: winning_claim_def)
qed

lemma winning_claim_set:
  assumes "single_owner (set us)" and "set us = set vs"
    and "\<forall>u \<in> set us. origin_node_id u \<noteq> a \<and> origin_node_id u \<noteq> b"
  shows "map_option (remote_record 0) (winning_claim a m us) = map_option (remote_record 0) (winning_claim b m vs)"
proof -
  have sets: "set (claims_for a m us) = set (claims_for b m vs)"
    using assms(2,3) by (auto simp: claims_for_def)
  have sv: "single_owner (set vs)" using assms(1,2) by simp
  note A = winning_claim_single_owner [OF assms(1), of a m]
  note B = winning_claim_single_owner [OF sv, of b m]
  show ?thesis
  proof (cases "winning_claim a m us")
    case None
    with A B sets show ?thesis by (auto split: option.splits)
  next
    case (Some w)
    with A sets have w: "w \<in> set (claims_for b m vs)" by simp
    with B obtain x where x: "winning_claim b m vs = Some x" by (auto split: option.splits)
    with A B Some sets w have "loc_version w = loc_version x"
      by (auto intro: antisym)
    moreover have "w \<in> set vs" "x \<in> set vs" "mac_eq (mac w) (mac x)"
      using w B x by (auto simp: claims_for_def mac_eq_def)
    ultimately have "remote_record 0 w = remote_record 0 x"
      using sv unfolding single_owner_def by blast
    with Some x show ?thesis by simp
  qed
qed

text \<open>
  Property C2: two nodes that received the same updates, in whatever order and with whatever
  repetitions, hold the same records, as long as each address has one owner that never reuses a
  version. This is what the gates mean by the nodes having converged.
\<close>

theorem nodes_converge:
  assumes "set (map snd us) = set (map snd vs)" and "single_owner (set (map snd us))"
    and "\<forall>u \<in> set (map snd us). origin_node_id u \<noteq> a \<and> origin_node_id u \<noteq> b"
    and "length us \<le> MAX_HOST_ENTRIES" and "length vs \<le> MAX_HOST_ENTRIES"
  shows "map_option claim_of (daim_host_lookup (snd (apply_updates us (daim_host_state_init a ea sa))) m) =
         map_option claim_of (daim_host_lookup (snd (apply_updates vs (daim_host_state_init b eb sb))) m)"
  using assms winning_claim_set [OF assms(2,1,3), of m]
  by (simp add: lookup_apply_updates reg_run_free)

theorem nodes_converge_witness:
  "map_option claim_of (daim_host_lookup (snd (apply_updates
      [(10, sample_claim 1 1 7), (11, sample_claim 1 2 1)] (daim_host_state_init 2 1 g_state0)))
      [2, 0, 0, 0, 0x99, 0x99]) =
   map_option claim_of (daim_host_lookup (snd (apply_updates
      [(20, sample_claim 1 2 1), (21, sample_claim 1 1 7), (22, sample_claim 1 2 1)]
      (daim_host_state_init 3 1 g_state0))) [2, 0, 0, 0, 0x99, 0x99])"
  by (rule nodes_converge)
    (auto simp: single_owner_def sample_claim_def loc_version_def MAX_HOST_ENTRIES_def)

lemma two_claims:
  assumes "mac_eq (mac c1) (mac c2)" and "origin_node_id c1 \<noteq> origin_node_id c2"
    and "origin_node_id c1 \<noteq> 0" and "origin_node_id c2 \<noteq> 0"
    and "origin_node_id c1 \<noteq> n" and "origin_node_id c2 \<noteq> n"
  shows "fst (apply_updates [(t1, c1), (t2, c2)] (daim_host_state_init n e s)) =
      [DAIM_HOST_APPLY_NEW, DAIM_HOST_APPLY_OWNERSHIP_CONFLICT] \<and>
    daim_host_lookup (snd (apply_updates [(t1, c1), (t2, c2)] (daim_host_state_init n e s))) (mac c1) =
      Some (remote_record t1 c1)"
  using assms
  by (auto simp: daim_host_apply_remote_def apply_locked_def apply_table_def daim_host_state_init_def
      MAX_HOST_ENTRIES_def daim_host_lookup_def)

text \<open>
  Property C4: conflicting claims are detected and not resolved. Whichever of two origins is
  heard first keeps the address and the other is reported as an ownership conflict, so two nodes
  that hear the claims in opposite orders end with different owners.
\<close>

theorem conflict_detected_not_resolved:
  assumes "mac_eq (mac c1) (mac c2)" and "origin_node_id c1 \<noteq> origin_node_id c2"
    and "origin_node_id c1 \<notin> {0, a, b}" and "origin_node_id c2 \<notin> {0, a, b}"
  shows "(case (apply_updates [(t1, c1), (t2, c2)] (daim_host_state_init a e s),
                apply_updates [(t3, c2), (t4, c1)] (daim_host_state_init b f u)) of
            ((ra, sa), (rb, sb)) \<Rightarrow>
              ra = [DAIM_HOST_APPLY_NEW, DAIM_HOST_APPLY_OWNERSHIP_CONFLICT] \<and> rb = ra \<and>
              daim_host_lookup sa (mac c1) = Some (remote_record t1 c1) \<and>
              daim_host_lookup sb (mac c1) = Some (remote_record t3 c2))"
proof -
  have "daim_host_lookup x (mac c2) = daim_host_lookup x (mac c1)" for x
    using find_index_cong [OF assms(1)] by (simp add: daim_host_lookup_def)
  with two_claims [of c1 c2 a t1 t2 e s] two_claims [of c2 c1 b t3 t4 f u] assms
  show ?thesis
    by (auto simp: mac_eq_sym simp del: apply_updates.simps split: prod.splits)
qed

theorem conflict_detected_not_resolved_witness:
  "daim_host_lookup (snd (apply_updates [(1, sample_claim 1 1 7), (2, sample_claim 4 1 3)]
      (daim_host_state_init 2 1 g_state0))) [2, 0, 0, 0, 0x99, 0x99] = Some (remote_record 1 (sample_claim 1 1 7)) \<and>
   daim_host_lookup (snd (apply_updates [(3, sample_claim 4 1 3), (4, sample_claim 1 1 7)]
      (daim_host_state_init 3 1 g_state0))) [2, 0, 0, 0, 0x99, 0x99] = Some (remote_record 3 (sample_claim 4 1 3))"
  using conflict_detected_not_resolved
    [where ?c1.0 = "sample_claim 1 1 7" and ?c2.0 = "sample_claim 4 1 3" and a = 2 and b = 3 and
      ?t1.0 = 1 and ?t2.0 = 2 and e = 1 and s = g_state0 and ?t3.0 = 3 and ?t4.0 = 4 and f = 1 and u = g_state0]
  by (simp add: sample_claim_def split: prod.splits del: apply_updates.simps)

text \<open>
  Property C3: no sequence of received updates changes or removes the entry of a host this node
  learned itself, and an entry learned from another node keeps its origin while its version only
  grows.
\<close>

theorem received_updates_keep_entries:
  assumes "ready s" and "host_inv s" and "\<forall>(now, u) \<in> set us. length (mac u) = MAC_ADDR_LEN"
    and "daim_host_lookup s m = Some e"
  shows "\<exists>e'. daim_host_lookup (snd (apply_updates us s)) m = Some e' \<and>
    (is_local e \<noteq> 0 \<longrightarrow> e' = e) \<and> is_local e' = is_local e \<and>
    origin_node_id e' = origin_node_id e \<and> loc_version e \<le> loc_version e'"
  using hosts.run_monotone [of s us m e] hosts.run_keeps_local [of s us m e] assms
  by (auto simp: snd_apply_updates)

theorem received_updates_keep_entries_witness:
  "\<exists>e'. daim_host_lookup (snd (apply_updates [(9, sample_claim 4 5 5)]
        (snd (daim_host_learn_local 3 [2, 0, 0, 0, 0x99, 0x99] 0 1 (daim_host_state_init 1 1 g_state0)))))
      [2, 0, 0, 0, 0x99, 0x99] = Some e' \<and> origin_node_id e' = 1"
proof -
  let ?m = "[2, 0, 0, 0, 0x99, 0x99] :: bytes"
  let ?s = "snd (daim_host_learn_local 3 ?m 0 1 (daim_host_state_init 1 1 g_state0))"
  have "host_inv ?s" by (rule host_inv_learn [OF host_inv_init]) (simp add: MAC_ADDR_LEN_def)
  moreover have "daim_host_lookup ?s ?m = Some (local_record (daim_host_state_init 1 1 g_state0) 3 ?m 0 1)"
    by (subst lookup_learn) (simp_all add: has_room_def MAX_HOST_ENTRIES_def)
  ultimately show ?thesis
    using received_updates_keep_entries [of ?s "[(9, sample_claim 4 5 5)]" ?m]
    by (auto simp: MAC_ADDR_LEN_def sample_claim_def local_record_def)
qed

text \<open>
  A local observation takes the address over silently. Whatever remote claim the
  table held is replaced by this node's own record, no ownership conflict is counted, and from
  then on every claim of the former owner is reported as a conflict here.
\<close>

theorem local_learn_takes_over:
  assumes "ready s" and "daim_host_lookup s m = Some e" and "origin_node_id u = origin_node_id e"
    and "origin_node_id e \<noteq> node_id s" and "origin_node_id e \<noteq> 0" and "mac_eq (mac u) m"
  shows "case daim_host_learn_local now m dpid port s of
      (seq, s1) \<Rightarrow> seq = next_local_sequence s \<and> stats s1 = stats s \<and>
        daim_host_lookup s1 m = Some (local_record s now m dpid port) \<and>
        fst (daim_host_apply_remote later u s1) = DAIM_HOST_APPLY_OWNERSHIP_CONFLICT"
proof -
  from assms obtain i where i: "find_index (table s) m = Some i" "i < length (table s)"
    using find_index_Some by (auto simp: daim_host_lookup_def)
  let ?t = "(table s)[i := local_record s now m dpid port]"
  have "mac_eq (mac (local_record s now m dpid port)) (mac (table s ! i))"
    using find_index_Some [OF i(1)] by (auto simp: local_record_def mac_eq_def)
  then have f: "find_index ?t m = Some i" "find_index ?t (mac u) = Some i"
    using i find_index_update_eq [OF i(2)] find_index_cong [OF assms(6)] by simp_all
  have "daim_host_learn_local now m dpid port s =
      (next_local_sequence s, s\<lparr>next_local_sequence := next_local_sequence s + 1, table := ?t\<rparr>)"
    using assms(1) i by (simp add: daim_host_learn_local_def Let_def)
  then show ?thesis
    using assms i f
    by (simp add: daim_host_lookup_def daim_host_apply_remote_def apply_locked_def apply_table_def
        local_record_def)
qed

theorem local_learn_takes_over_witness:
  "case daim_host_learn_local 20 [2, 0, 0, 0, 0x99, 0x99] 0 1
      (snd (daim_host_apply_remote 10 (sample_claim 1 1 7) (daim_host_state_init 4 1 g_state0))) of
    (seq, s1) \<Rightarrow> seq = 1 \<and> applied_conflict (stats s1) = 0 \<and>
      fst (daim_host_apply_remote 30 (sample_claim 1 1 8) s1) = DAIM_HOST_APPLY_OWNERSHIP_CONFLICT"
proof -
  let ?m = "[2, 0, 0, 0, 0x99, 0x99] :: bytes"
  let ?s0 = "daim_host_state_init 4 1 g_state0"
  let ?s = "snd (daim_host_apply_remote 10 (sample_claim 1 1 7) ?s0)"
  have l: "daim_host_lookup ?s ?m = Some (remote_record 10 (sample_claim 1 1 7))"
    by (simp add: daim_host_apply_remote_def apply_locked_def apply_table_def daim_host_state_init_def
        daim_host_lookup_def MAX_HOST_ENTRIES_def sample_claim_def remote_record_def mac_eq_def)
  have st: "next_local_sequence ?s = 1" "applied_conflict (stats ?s) = 0" "ready ?s" "node_id ?s = 4"
    by (simp_all add: daim_host_apply_remote_def apply_locked_def apply_table_def daim_host_state_init_def
        MAX_HOST_ENTRIES_def sample_claim_def zero_stats_def)
  from local_learn_takes_over [of ?s ?m _ "sample_claim 1 1 8" 20 0 1 30, OF st(3) l]
  show ?thesis using st by (auto simp: sample_claim_def split: prod.splits)
qed

text \<open>
  Every call of \<open>daim_host_apply_remote\<close> on an initialised table counts its result in exactly
  one of the six counters, so the counters add up to the number of calls.
\<close>

definition apply_count :: "daim_host_state_stats \<Rightarrow> u64" where
  "apply_count st = applied_new st + applied_updated st + applied_duplicate st +
     applied_stale_rejected st + applied_conflict st + applied_invalid st"

lemma apply_count_result [simp]: "apply_count (count_result r st) = apply_count st + 1"
  by (cases r) (simp_all add: apply_count_def)

lemma apply_count_step: "ready s \<Longrightarrow>
   apply_count (stats (snd (daim_host_apply_remote now u s))) = apply_count (stats s) + 1"
  by (simp add: daim_host_apply_remote_def apply_locked_def split: prod.splits)

lemma apply_count_updates:
  "ready s \<Longrightarrow> apply_count (stats (snd (apply_updates us s))) = apply_count (stats s) + of_nat (length us)"
proof (induction us arbitrary: s)
  case (Cons x us)
  then show ?case
    by (cases x) (simp add: apply_updates_simps apply_count_step del: apply_updates.simps)
qed simp

end
