(* ===== verification/Peer_Protocol.thy ===== *)
theory Peer_Protocol
  imports Host_State
begin

text \<open>
  The wire format of the peer protocol as the C library writes and reads it
  (\<open>implementation/src/daim_peer_protocol.c\<close>): big-endian fields written by explicit shifts,
  a 30-byte header, the fixed 59-byte host location, and the small payloads.

  A C write cursor (\<open>buf\<close>, \<open>*off\<close>) is a byte list that grows at its end, so an encoder
  is the concatenation of its \<open>put_*\<close> calls. A read cursor is the pair of the buffer and the
  offset; a getter returns the value and the advanced offset. The decoders check the length
  before the first read, so no read is out of range.
\<close>

subsection \<open>Integer fields\<close>

definition put_u8 :: "u8 \<Rightarrow> bytes" where
  "put_u8 v = [v]"

definition put_u16 :: "u16 \<Rightarrow> bytes" where
  "put_u16 v = [ucast (drop_bit 8 v), ucast (v AND 0xff)]"

definition put_u32 :: "u32 \<Rightarrow> bytes" where
  "put_u32 v = [ucast (drop_bit 24 v), ucast (drop_bit 16 v), ucast (drop_bit 8 v), ucast (v AND 0xff)]"

definition put_u64 :: "u64 \<Rightarrow> bytes" where
  "put_u64 v = map (\<lambda>shift. ucast (drop_bit shift v)) [56, 48, 40, 32, 24, 16, 8, 0]"

definition get_u8 :: "bytes \<Rightarrow> nat \<Rightarrow> u8 \<times> nat" where
  "get_u8 buf off = (buf ! off, off + 1)"

definition get_u16 :: "bytes \<Rightarrow> nat \<Rightarrow> u16 \<times> nat" where
  "get_u16 buf off = (push_bit 8 (ucast (buf ! off)) OR ucast (buf ! (off + 1)), off + 2)"

definition get_u32 :: "bytes \<Rightarrow> nat \<Rightarrow> u32 \<times> nat" where
  "get_u32 buf off =
     (push_bit 24 (ucast (buf ! off)) OR push_bit 16 (ucast (buf ! (off + 1))) OR
      push_bit 8 (ucast (buf ! (off + 2))) OR ucast (buf ! (off + 3)), off + 4)"

definition get_u64 :: "bytes \<Rightarrow> nat \<Rightarrow> u64 \<times> nat" where
  "get_u64 buf off =
     (foldl (\<lambda>v i. push_bit 8 v OR ucast (buf ! (off + i))) 0 [0, 1, 2, 3, 4, 5, 6, 7], off + 8)"

lemma length_puts [simp]:
  "length (put_u8 a) = 1" "length (put_u16 b) = 2" "length (put_u32 c) = 4" "length (put_u64 d) = 8"
  by (simp_all add: put_u8_def put_u16_def put_u32_def put_u64_def)

subsection \<open>Field codecs\<close>

text \<open>
  The contract of one fixed-width field: the writer emits \<open>width\<close> bytes, and the reader,
  started where the writer started, returns the value and stops where the writer stopped.
\<close>

locale field_codec =
  fixes put :: "'a \<Rightarrow> bytes"
    and get :: "bytes \<Rightarrow> nat \<Rightarrow> 'a \<times> nat"
    and width :: nat
  assumes put_length: "length (put v) = width"
    and get_put: "get (pre @ put v @ post) (length pre) = (v, length pre + width)"
begin

lemma get_at: "off = length pre \<Longrightarrow> get (pre @ put v @ post) off = (v, off + width)"
  using get_put by simp

lemma put_inject: "put v = put w \<longleftrightarrow> v = w"
  using get_put by (metis prod.inject)

end

text \<open>One step of a getter: shifting in the next byte of a word refines the value by eight bits.\<close>

lemma shift_in_byte:
  "push_bit 8 (drop_bit (s + 8) w) OR ucast (ucast (drop_bit s w) :: u8) = drop_bit s w"
  for w :: "'a::len word"
proof (rule bit_word_eqI)
  fix n assume "n < LENGTH('a)"
  then show "bit (push_bit 8 (drop_bit (s + 8) w) OR ucast (ucast (drop_bit s w) :: u8)) n =
      bit (drop_bit s w) n"
    by (cases "n < 8") (auto simp: bit_simps dest: bit_imp_le_length)
qed

lemma ucast_and_mask_byte: "ucast (v AND mask 8) = (ucast v :: u8)" for v :: "'a::len word"
  by (rule bit_word_eqI) (auto simp: bit_simps dest: bit_imp_le_length)

lemma low_byte_u16: "ucast (v AND 0xff) = (ucast v :: u8)" for v :: u16
  using ucast_and_mask_byte [of v] by (simp add: mask_eq_exp_minus_1)

lemma low_byte_u32: "ucast (v AND 0xff) = (ucast v :: u8)" for v :: u32
  using ucast_and_mask_byte [of v] by (simp add: mask_eq_exp_minus_1)

lemma get_u16_put: "get_u16 (pre @ put_u16 v @ post) (length pre) = (v, length pre + 2)"
  using shift_in_byte [of 8 v] shift_in_byte [of 0 v]
  by (simp add: get_u16_def put_u16_def low_byte_u16)

lemma get_u32_put: "get_u32 (pre @ put_u32 v @ post) (length pre) = (v, length pre + 4)"
proof -
  have nest: "push_bit 24 x OR push_bit 16 y OR push_bit 8 z OR t =
      push_bit 8 (push_bit 8 (push_bit 8 x OR y) OR z) OR t" for x y z t :: u32
    by (simp add: ac_simps)
  have "push_bit 24 (ucast (ucast (drop_bit 24 v) :: u8)) OR push_bit 16 (ucast (ucast (drop_bit 16 v) :: u8)) OR
      push_bit 8 (ucast (ucast (drop_bit 8 v) :: u8)) OR ucast (ucast v :: u8) = v"
    unfolding nest shift_in_byte [of 24 v, simplified] shift_in_byte [of 16 v, simplified]
      shift_in_byte [of 8 v, simplified] shift_in_byte [of 0 v, simplified] ..
  then show ?thesis by (simp add: get_u32_def put_u32_def low_byte_u32)
qed

lemma get_u64_put: "get_u64 (pre @ put_u64 v @ post) (length pre) = (v, length pre + 8)"
proof -
  have "foldl (\<lambda>a s. push_bit 8 a OR ucast (ucast (drop_bit s v) :: u8)) 0 [56, 48, 40, 32, 24, 16, 8, 0] = v"
    using shift_in_byte [of 56 v] shift_in_byte [of 48 v] shift_in_byte [of 40 v] shift_in_byte [of 32 v]
      shift_in_byte [of 24 v] shift_in_byte [of 16 v] shift_in_byte [of 8 v] shift_in_byte [of 0 v]
    by simp
  then show ?thesis by (simp add: get_u64_def put_u64_def)
qed

interpretation u8_field: field_codec put_u8 get_u8 1
  by unfold_locales (simp_all add: put_u8_def get_u8_def)

interpretation u16_field: field_codec put_u16 get_u16 2
  by unfold_locales (simp_all add: get_u16_put)

interpretation u32_field: field_codec put_u32 get_u32 4
  by unfold_locales (simp_all add: get_u32_put)

interpretation u64_field: field_codec put_u64 get_u64 8
  by unfold_locales (simp_all add: get_u64_put)

subsection \<open>Messages\<close>

definition DAIM_PEER_PROTOCOL_VERSION :: u8 where
  "DAIM_PEER_PROTOCOL_VERSION = 1"

definition DAIM_PEER_HEADER_SIZE :: nat where
  "DAIM_PEER_HEADER_SIZE = 30"

definition DAIM_PEER_HOST_LOCATION_WIRE_SIZE :: nat where
  "DAIM_PEER_HOST_LOCATION_WIRE_SIZE = 59"

definition DAIM_PEER_MAX_PAYLOAD_SIZE :: nat where
  "DAIM_PEER_MAX_PAYLOAD_SIZE = 4096"

datatype daim_peer_message_type =
    DAIM_PEER_MSG_HELLO
  | DAIM_PEER_MSG_HEARTBEAT
  | DAIM_PEER_MSG_HOST_LOCATION_UPDATE
  | DAIM_PEER_MSG_STATE_SNAPSHOT_REQUEST
  | DAIM_PEER_MSG_STATE_SNAPSHOT_BEGIN
  | DAIM_PEER_MSG_STATE_SNAPSHOT_ENTRY
  | DAIM_PEER_MSG_STATE_SNAPSHOT_END
  | DAIM_PEER_MSG_ACK
  | DAIM_PEER_MSG_ERROR

fun message_type_code :: "daim_peer_message_type \<Rightarrow> u8" where
  "message_type_code DAIM_PEER_MSG_HELLO = 1"
| "message_type_code DAIM_PEER_MSG_HEARTBEAT = 2"
| "message_type_code DAIM_PEER_MSG_HOST_LOCATION_UPDATE = 3"
| "message_type_code DAIM_PEER_MSG_STATE_SNAPSHOT_REQUEST = 4"
| "message_type_code DAIM_PEER_MSG_STATE_SNAPSHOT_BEGIN = 5"
| "message_type_code DAIM_PEER_MSG_STATE_SNAPSHOT_ENTRY = 6"
| "message_type_code DAIM_PEER_MSG_STATE_SNAPSHOT_END = 7"
| "message_type_code DAIM_PEER_MSG_ACK = 8"
| "message_type_code DAIM_PEER_MSG_ERROR = 9"

lemma message_type_code_inject [simp]: "message_type_code a = message_type_code b \<longleftrightarrow> a = b"
  by (cases a; cases b) simp_all

record daim_peer_header =
  protocol_version :: u8
  message_type :: u8
  hdr_origin_node_id :: u64
  message_id :: u64
  payload_length :: u32
  send_time_ns :: u64

definition daim_peer_encode_header :: "daim_peer_header \<Rightarrow> bytes" where
  "daim_peer_encode_header hdr =
     put_u8 (protocol_version hdr) @ put_u8 (message_type hdr) @ put_u64 (hdr_origin_node_id hdr) @
     put_u64 (message_id hdr) @ put_u32 (payload_length hdr) @ put_u64 (send_time_ns hdr)"

text \<open>The decoder's negative return codes are the left values.\<close>

definition daim_peer_decode_header :: "bytes \<Rightarrow> int + daim_peer_header" where
  "daim_peer_decode_header buf =
     (if length buf < DAIM_PEER_HEADER_SIZE then Inl (- 1)
      else case get_u8 buf 0 of (ver, off) \<Rightarrow>
        if ver \<noteq> DAIM_PEER_PROTOCOL_VERSION then Inl (- 1)
        else case get_u8 buf off of (mtype, off) \<Rightarrow>
          case get_u64 buf off of (origin, off) \<Rightarrow>
          case get_u64 buf off of (mid, off) \<Rightarrow>
          case get_u32 buf off of (plen, off) \<Rightarrow>
          case get_u64 buf off of (sent, off) \<Rightarrow>
            if unat plen > DAIM_PEER_MAX_PAYLOAD_SIZE then Inl (- 2)
            else Inr \<lparr>protocol_version = ver, message_type = mtype, hdr_origin_node_id = origin,
                      message_id = mid, payload_length = plen, send_time_ns = sent\<rparr>)"

definition daim_peer_encode_host_location :: "daim_host_location \<Rightarrow> bytes" where
  "daim_peer_encode_host_location loc =
     take MAC_ADDR_LEN (mac loc) @ put_u64 (origin_node_id loc) @ put_u64 (owner_dpid loc) @
     put_u32 (owner_port loc) @ put_u64 (owner_epoch loc) @ put_u64 (sequence loc) @
     put_u8 (is_local loc) @ put_u64 (learned_at_ns loc) @ put_u64 (applied_at_ns loc)"

definition daim_peer_decode_host_location :: "bytes \<Rightarrow> int + daim_host_location" where
  "daim_peer_decode_host_location buf =
     (if length buf \<noteq> DAIM_PEER_HOST_LOCATION_WIRE_SIZE then Inl (- 1)
      else case get_u64 buf MAC_ADDR_LEN of (origin, off) \<Rightarrow>
        case get_u64 buf off of (dpid, off) \<Rightarrow>
        case get_u32 buf off of (port, off) \<Rightarrow>
        case get_u64 buf off of (ep, off) \<Rightarrow>
        case get_u64 buf off of (sq, off) \<Rightarrow>
        case get_u8 buf off of (loc, off) \<Rightarrow>
        case get_u64 buf off of (learned, off) \<Rightarrow>
        case get_u64 buf off of (applied, off) \<Rightarrow>
          Inr \<lparr>mac = take MAC_ADDR_LEN buf, origin_node_id = origin, owner_dpid = dpid, owner_port = port,
               owner_epoch = ep, sequence = sq, is_local = loc, learned_at_ns = learned,
               applied_at_ns = applied\<rparr>)"

definition daim_peer_encode_hello :: "u64 \<Rightarrow> bytes" where
  "daim_peer_encode_hello ep = put_u64 ep"

definition daim_peer_decode_hello :: "bytes \<Rightarrow> int + u64" where
  "daim_peer_decode_hello buf = (if length buf \<noteq> 8 then Inl (- 1) else Inr (fst (get_u64 buf 0)))"

definition daim_peer_encode_ack :: "u64 \<Rightarrow> bytes" where
  "daim_peer_encode_ack mid = put_u64 mid"

definition daim_peer_decode_ack :: "bytes \<Rightarrow> int + u64" where
  "daim_peer_decode_ack buf = (if length buf \<noteq> 8 then Inl (- 1) else Inr (fst (get_u64 buf 0)))"

definition daim_peer_encode_snapshot_begin :: "u32 \<Rightarrow> bytes" where
  "daim_peer_encode_snapshot_begin n = put_u32 n"

definition daim_peer_decode_snapshot_begin :: "bytes \<Rightarrow> int + u32" where
  "daim_peer_decode_snapshot_begin buf = (if length buf \<noteq> 4 then Inl (- 1) else Inr (fst (get_u32 buf 0)))"

subsection \<open>Message codecs\<close>

text \<open>
  The contract of a whole message body: on well-formed values the encoding has the fixed size
  and decodes to the value. What a peer sends is therefore determined by, and determines, the
  bytes on the wire.
\<close>

locale message_codec =
  fixes encode :: "'a \<Rightarrow> bytes"
    and decode :: "bytes \<Rightarrow> int + 'a"
    and size_of :: nat
    and wf :: "'a \<Rightarrow> bool"
  assumes encode_length: "wf v \<Longrightarrow> length (encode v) = size_of"
    and decode_encode: "wf v \<Longrightarrow> decode (encode v) = Inr v"
begin

lemma encode_inject: "wf v \<Longrightarrow> wf w \<Longrightarrow> encode v = encode w \<longleftrightarrow> v = w"
  by (metis decode_encode sum.inject(2))

lemma decode_prefix: "wf v \<Longrightarrow> decode (take size_of (encode v @ rest)) = Inr v"
  using encode_length by (simp add: decode_encode)

end

definition header_wf :: "daim_peer_header \<Rightarrow> bool" where
  "header_wf h \<longleftrightarrow> protocol_version h = DAIM_PEER_PROTOCOL_VERSION \<and>
     unat (payload_length h) \<le> DAIM_PEER_MAX_PAYLOAD_SIZE"

definition location_wf :: "daim_host_location \<Rightarrow> bool" where
  "location_wf l \<longleftrightarrow> length (mac l) = MAC_ADDR_LEN"

lemma length_encode_header [simp]: "length (daim_peer_encode_header h) = DAIM_PEER_HEADER_SIZE"
  by (simp add: daim_peer_encode_header_def DAIM_PEER_HEADER_SIZE_def)

lemma header_roundtrip:
  assumes "header_wf h"
  shows "daim_peer_decode_header (daim_peer_encode_header h @ rest) = Inr h"
proof -
  let ?a = "put_u8 (protocol_version h)" and ?b = "put_u8 (message_type h)"
  let ?c = "put_u64 (hdr_origin_node_id h)" and ?d = "put_u64 (message_id h)"
  let ?e = "put_u32 (payload_length h)" and ?f = "put_u64 (send_time_ns h)"
  let ?buf = "?a @ ?b @ ?c @ ?d @ ?e @ ?f @ rest"
  have g: "get_u8 ?buf 0 = (protocol_version h, 1)" "get_u8 ?buf 1 = (message_type h, 2)"
    "get_u64 ?buf 2 = (hdr_origin_node_id h, 10)" "get_u64 ?buf 10 = (message_id h, 18)"
    "get_u32 ?buf 18 = (payload_length h, 22)" "get_u64 ?buf 22 = (send_time_ns h, 30)"
    using u8_field.get_at [of 0 "[]" "protocol_version h" "?b @ ?c @ ?d @ ?e @ ?f @ rest"]
      u8_field.get_at [of 1 "?a" "message_type h" "?c @ ?d @ ?e @ ?f @ rest"]
      u64_field.get_at [of 2 "?a @ ?b" "hdr_origin_node_id h" "?d @ ?e @ ?f @ rest"]
      u64_field.get_at [of 10 "?a @ ?b @ ?c" "message_id h" "?e @ ?f @ rest"]
      u32_field.get_at [of 18 "?a @ ?b @ ?c @ ?d" "payload_length h" "?f @ rest"]
      u64_field.get_at [of 22 "?a @ ?b @ ?c @ ?d @ ?e" "send_time_ns h" rest]
    by simp_all
  have "daim_peer_decode_header ?buf = Inr h"
    using assms unfolding daim_peer_decode_header_def g prod.case
    by (simp add: DAIM_PEER_HEADER_SIZE_def header_wf_def)
  then show ?thesis by (simp add: daim_peer_encode_header_def)
qed

lemma location_roundtrip:
  assumes "location_wf l"
  shows "daim_peer_decode_host_location (daim_peer_encode_host_location l) = Inr l"
proof -
  let ?m = "mac l"
  let ?a = "put_u64 (origin_node_id l)" and ?b = "put_u64 (owner_dpid l)" and ?c = "put_u32 (owner_port l)"
  let ?d = "put_u64 (owner_epoch l)" and ?e = "put_u64 (sequence l)" and ?f = "put_u8 (is_local l)"
  let ?g = "put_u64 (learned_at_ns l)" and ?h = "put_u64 (applied_at_ns l)"
  let ?buf = "?m @ ?a @ ?b @ ?c @ ?d @ ?e @ ?f @ ?g @ ?h"
  from assms have m: "length ?m = 6" by (simp add: location_wf_def MAC_ADDR_LEN_def)
  have g: "get_u64 ?buf 6 = (origin_node_id l, 14)" "get_u64 ?buf 14 = (owner_dpid l, 22)"
    "get_u32 ?buf 22 = (owner_port l, 26)" "get_u64 ?buf 26 = (owner_epoch l, 34)"
    "get_u64 ?buf 34 = (sequence l, 42)" "get_u8 ?buf 42 = (is_local l, 43)"
    "get_u64 ?buf 43 = (learned_at_ns l, 51)" "get_u64 ?buf 51 = (applied_at_ns l, 59)"
    using u64_field.get_put [of ?m "origin_node_id l" "?b @ ?c @ ?d @ ?e @ ?f @ ?g @ ?h"]
      u64_field.get_put [of "?m @ ?a" "owner_dpid l" "?c @ ?d @ ?e @ ?f @ ?g @ ?h"]
      u32_field.get_put [of "?m @ ?a @ ?b" "owner_port l" "?d @ ?e @ ?f @ ?g @ ?h"]
      u64_field.get_put [of "?m @ ?a @ ?b @ ?c" "owner_epoch l" "?e @ ?f @ ?g @ ?h"]
      u64_field.get_put [of "?m @ ?a @ ?b @ ?c @ ?d" "sequence l" "?f @ ?g @ ?h"]
      u8_field.get_put [of "?m @ ?a @ ?b @ ?c @ ?d @ ?e" "is_local l" "?g @ ?h"]
      u64_field.get_put [of "?m @ ?a @ ?b @ ?c @ ?d @ ?e @ ?f" "learned_at_ns l" ?h]
      u64_field.get_put [of "?m @ ?a @ ?b @ ?c @ ?d @ ?e @ ?f @ ?g" "applied_at_ns l" "[]"] m
    by simp_all
  have "daim_peer_decode_host_location ?buf = Inr l"
    using m unfolding daim_peer_decode_host_location_def MAC_ADDR_LEN_def g prod.case
    by (simp add: DAIM_PEER_HOST_LOCATION_WIRE_SIZE_def)
  then show ?thesis
    using m by (simp add: daim_peer_encode_host_location_def MAC_ADDR_LEN_def)
qed

interpretation header_codec: message_codec
  daim_peer_encode_header daim_peer_decode_header DAIM_PEER_HEADER_SIZE header_wf
  using header_roundtrip [where rest = "[]"] by unfold_locales simp_all

interpretation location_codec: message_codec daim_peer_encode_host_location
  daim_peer_decode_host_location DAIM_PEER_HOST_LOCATION_WIRE_SIZE location_wf
proof (unfold_locales, goal_cases)
  case (1 l)
  then show ?case
    by (simp add: daim_peer_encode_host_location_def location_wf_def
        DAIM_PEER_HOST_LOCATION_WIRE_SIZE_def MAC_ADDR_LEN_def)
next
  case (2 l)
  then show ?case by (rule location_roundtrip)
qed

interpretation hello_codec: message_codec daim_peer_encode_hello daim_peer_decode_hello 8 "\<lambda>_. True"
  using u64_field.get_put [of "[]" _ "[]"]
  by unfold_locales (simp_all add: daim_peer_encode_hello_def daim_peer_decode_hello_def)

interpretation ack_codec: message_codec daim_peer_encode_ack daim_peer_decode_ack 8 "\<lambda>_. True"
  using u64_field.get_put [of "[]" _ "[]"]
  by unfold_locales (simp_all add: daim_peer_encode_ack_def daim_peer_decode_ack_def)

interpretation snapshot_begin_codec: message_codec daim_peer_encode_snapshot_begin
  daim_peer_decode_snapshot_begin 4 "\<lambda>_. True"
  using u32_field.get_put [of "[]" _ "[]"]
  by unfold_locales
    (simp_all add: daim_peer_encode_snapshot_begin_def daim_peer_decode_snapshot_begin_def)

subsection \<open>Error messages\<close>

text \<open>
  The one payload of variable length. The text argument of the encoder is a C string, so it holds
  no zero byte, or a null pointer; \<open>None\<close> is the returned length 0. The decoder writes a
  zero-terminated text of at most \<open>cap\<close> bytes; the result here is the text before the zero.
\<close>

definition DAIM_PEER_MAX_ERROR_TEXT :: nat where
  "DAIM_PEER_MAX_ERROR_TEXT = 128"

definition daim_peer_encode_error :: "nat \<Rightarrow> u16 \<Rightarrow> bytes option \<Rightarrow> bytes option" where
  "daim_peer_encode_error cap code msg =
     (let text = (case msg of None \<Rightarrow> [] | Some t \<Rightarrow> t)
      in if length text > DAIM_PEER_MAX_ERROR_TEXT then None
         else if cap < 4 + length text then None
         else Some (put_u16 code @ put_u16 (of_nat (length text)) @ text))"

definition daim_peer_decode_error :: "bytes \<Rightarrow> nat \<Rightarrow> int + (u16 \<times> bytes)" where
  "daim_peer_decode_error buf cap =
     (if length buf < 4 \<or> cap = 0 then Inl (- 1)
      else case get_u16 buf 0 of (code, off) \<Rightarrow>
        case get_u16 buf off of (text_len, off) \<Rightarrow>
          if length buf < 4 + unat text_len then Inl (- 1)
          else let copy_len = (if unat text_len < cap - 1 then unat text_len else cap - 1)
               in Inr (code, take copy_len (drop off buf)))"

lemma error_roundtrip:
  assumes "daim_peer_encode_error cap code msg = Some bs" and "0 < out_cap"
  shows "daim_peer_decode_error (bs @ rest) out_cap =
    Inr (code, take (out_cap - 1) (case msg of None \<Rightarrow> [] | Some t \<Rightarrow> t))"
proof -
  let ?t = "case msg of None \<Rightarrow> [] | Some t \<Rightarrow> t"
  from assms(1) have bs: "bs = put_u16 code @ put_u16 (of_nat (length ?t)) @ ?t" "length ?t \<le> 128"
    by (auto simp: daim_peer_encode_error_def Let_def DAIM_PEER_MAX_ERROR_TEXT_def split: if_splits)
  from bs(2) have n: "unat (of_nat (length ?t) :: u16) = length ?t"
    by (simp add: unat_of_nat take_bit_eq_mod)
  have "get_u16 (bs @ rest) 0 = (code, 2)" "get_u16 (bs @ rest) 2 = (of_nat (length ?t), 4)"
    using u16_field.get_at [of 0 "[]" code "put_u16 (of_nat (length ?t)) @ ?t @ rest"]
      u16_field.get_at [of 2 "put_u16 code" "of_nat (length ?t)" "?t @ rest"] by (simp_all add: bs)
  moreover have "length bs = 4 + length ?t" "drop 4 (bs @ rest) = ?t @ rest"
    by (simp_all add: bs)
  ultimately show ?thesis
    using assms(2) n by (auto simp: daim_peer_decode_error_def Let_def min_def)
qed

end
