(* ===== verification/Struct_Pack.thy ===== *)
theory Struct_Pack
  imports Peer_Protocol
begin

text \<open>
  Python's \<open>struct\<close> module as the network tools use it: big-endian formats (\<open>>\<close>) of the integer
  codes \<open>B\<close>, \<open>H\<close>, \<open>I\<close> and \<open>Q\<close>. Python integers are unbounded, so packing a value that does not
  fit its field raises \<open>struct.error\<close>, and so does a wrong number of values or a buffer of the
  wrong size. The lemmas relate a packed field to the bytes the C library's \<open>put_*\<close> writes.
\<close>

subsection \<open>Big-endian integers\<close>

fun be_bytes :: "nat \<Rightarrow> int \<Rightarrow> bytes" where
  "be_bytes 0 v = []"
| "be_bytes (Suc n) v = be_bytes n (v div 256) @ [word_of_int v]"

definition be_int :: "bytes \<Rightarrow> int" where
  "be_int bs = foldl (\<lambda>a b. a * 256 + uint b) 0 bs"

lemma length_be_bytes [simp]: "length (be_bytes n v) = n"
  by (induction n arbitrary: v) auto

lemma be_int_snoc [simp]: "be_int (bs @ [b]) = be_int bs * 256 + uint b"
  by (simp add: be_int_def)

lemma be_int_Nil [simp]: "be_int [] = 0"
  by (simp add: be_int_def)

lemma be_int_be_bytes: "0 \<le> v \<Longrightarrow> v < 256 ^ n \<Longrightarrow> be_int (be_bytes n v) = v"
proof (induction n arbitrary: v)
  case (Suc n)
  have "be_int (be_bytes n (v div 256)) = v div 256"
    using Suc.prems by (intro Suc.IH) (auto simp: pos_imp_zdiv_nonneg_iff div_less_iff_less_mult)
  then show ?case by (simp add: unsigned_of_int take_bit_eq_mod)
qed simp

lemma be_int_range: "0 \<le> be_int bs \<and> be_int bs < 256 ^ length bs"
proof (induction bs rule: rev_induct)
  case (snoc b bs)
  have b: "uint b < 256" "0 \<le> uint b" using uint_lt2p [of b] by simp_all
  have "be_int bs + 1 \<le> 256 ^ length bs" using snoc.IH by simp
  then have "be_int bs * 256 + 256 \<le> 256 ^ length bs * 256" by simp
  with snoc.IH b show ?case by simp
qed simp

lemma be_bytes_be_int: "be_bytes (length bs) (be_int bs) = bs"
proof (induction bs rule: rev_induct)
  case (snoc b bs)
  have b: "uint b < 256" "0 \<le> uint b" using uint_lt2p [of b] by simp_all
  then have "(be_int bs * 256 + uint b) div 256 = be_int bs" by simp
  moreover have "word_of_int (be_int bs * 256 + uint b) = (word_of_int (uint b) :: u8)"
    unfolding word_of_int_eq_iff by (simp add: take_bit_eq_mod)
  ultimately show ?case using snoc.IH by (simp del: of_int_add of_int_mult)
qed simp

text \<open>The bytes of the C writers are the big-endian bytes of the value.\<close>

lemma ucast_drop_bit_int:
  "s + 8 \<le> LENGTH('a) \<Longrightarrow> ucast (drop_bit s (word_of_int v :: 'a::len word)) = (word_of_int (v div 2 ^ s) :: u8)"
  by (rule bit_word_eqI) (auto simp: bit_simps simp flip: drop_bit_eq_div)

lemma put_u8_int: "put_u8 (word_of_int v) = be_bytes 1 v"
  by (simp add: put_u8_def)

lemma be_bytes_shift: "map (\<lambda>i. word_of_int (v div 256 ^ i)) (rev [0..<n]) = be_bytes n v"
proof (induction n arbitrary: v)
  case (Suc n)
  have "rev [0..<Suc n] = map Suc (rev [0..<n]) @ [0]"
    by (simp add: upt_rec [of 0 "Suc n"] map_Suc_upt rev_map [symmetric] del: upt_Suc)
  then show ?case
    using Suc.IH [of "v div 256", symmetric]
    by (simp add: o_def div_mult2_eq zdiv_zmult2_eq del: upt_Suc)
qed simp

lemma put_u32_int: "put_u32 (word_of_int v) = be_bytes 4 v"
  unfolding put_u32_def be_bytes_shift [of v 4, symmetric] low_byte_u32
  using ucast_drop_bit_int [of 0 v, where 'a = 32]
  by (simp add: ucast_drop_bit_int upt_rec)

lemma put_u64_int: "put_u64 (word_of_int v) = be_bytes 8 v"
  unfolding put_u64_def be_bytes_shift [of v 8, symmetric]
  using ucast_drop_bit_int [of 0 v, where 'a = 64]
  by (simp add: ucast_drop_bit_int upt_rec)

lemma put_uint:
  "put_u8 b = be_bytes 1 (uint b)" "put_u32 w = be_bytes 4 (uint w)" "put_u64 d = be_bytes 8 (uint d)"
  using put_u8_int [of "uint b"] put_u32_int [of "uint w"] put_u64_int [of "uint d"] by simp_all

subsection \<open>Formats\<close>

definition code_width :: "char \<Rightarrow> nat option" where
  "code_width c =
     (if c = CHR ''B'' then Some 1 else if c = CHR ''H'' then Some 2
      else if c = CHR ''I'' then Some 4 else if c = CHR ''Q'' then Some 8 else None)"

text \<open>The field widths of a big-endian format; any other format is an error.\<close>

definition fmt_widths :: "string \<Rightarrow> nat list res" where
  "fmt_widths fmt =
     (case fmt of [] \<Rightarrow> Inl StructError
      | c # codes \<Rightarrow>
          if c \<noteq> CHR ''>'' then Inl StructError
          else (case those (map code_width codes) of None \<Rightarrow> Inl StructError | Some ws \<Rightarrow> Inr ws))"

fun pack_fields :: "nat list \<Rightarrow> int list \<Rightarrow> bytes res" where
  "pack_fields [] [] = Inr []"
| "pack_fields (w # ws) (v # vs) =
     (if v < 0 \<or> 256 ^ w \<le> v then Inl StructError
      else res_bind (pack_fields ws vs) (\<lambda>bs. Inr (be_bytes w v @ bs)))"
| "pack_fields _ _ = Inl StructError"

fun unpack_fields :: "nat list \<Rightarrow> bytes \<Rightarrow> int list" where
  "unpack_fields [] bs = []"
| "unpack_fields (w # ws) bs = be_int (take w bs) # unpack_fields ws (drop w bs)"

definition struct_pack :: "string \<Rightarrow> int list \<Rightarrow> bytes res" where
  "struct_pack fmt vs = res_bind (fmt_widths fmt) (\<lambda>ws. pack_fields ws vs)"

definition struct_unpack :: "string \<Rightarrow> bytes \<Rightarrow> int list res" where
  "struct_unpack fmt bs =
     res_bind (fmt_widths fmt) (\<lambda>ws.
       if length bs = sum_list ws then Inr (unpack_fields ws bs) else Inl StructError)"

lemma fmt_widths_simps [simp]:
  "fmt_widths [] = Inl StructError"
  "fmt_widths (CHR ''>'' # codes) =
     (case those (map code_width codes) of None \<Rightarrow> Inl StructError | Some ws \<Rightarrow> Inr ws)"
  by (simp_all add: fmt_widths_def)

lemma code_width_simps [simp]:
  "code_width CHR ''B'' = Some 1" "code_width CHR ''H'' = Some 2"
  "code_width CHR ''I'' = Some 4" "code_width CHR ''Q'' = Some 8"
  by (simp_all add: code_width_def)

definition fits :: "nat \<Rightarrow> int \<Rightarrow> bool" where
  "fits w v \<longleftrightarrow> 0 \<le> v \<and> v < 256 ^ w"

lemma fits_uint [simp]:
  "fits 1 (uint b)" "fits 4 (uint w)" "fits 8 (uint d)"
  for b :: u8 and w :: u32 and d :: u64
  using uint_lt2p [of b] uint_lt2p [of w] uint_lt2p [of d] by (simp_all add: fits_def)

lemma fits_uint_byte [simp]: "fits (Suc 0) (uint b)" for b :: u8
  using fits_uint(1) [of b] by simp

lemma uint_word_of_fits:
  "fits (Suc 0) v \<Longrightarrow> uint (word_of_int v :: u8) = v"
  "fits 1 v \<Longrightarrow> uint (word_of_int v :: u8) = v"
  "fits 4 v \<Longrightarrow> uint (word_of_int v :: u32) = v"
  "fits 8 v \<Longrightarrow> uint (word_of_int v :: u64) = v"
  by (simp_all add: fits_def unsigned_of_int take_bit_eq_mod)

lemma pack_fields_Inr:
  "pack_fields ws vs = Inr bs \<longleftrightarrow> list_all2 fits ws vs \<and> bs = concat (map2 be_bytes ws vs)"
  by (induction ws vs arbitrary: bs rule: pack_fields.induct)
    (auto simp: fits_def res_bind_Inr_conv)

lemma pack_fields_Inl: "\<not> list_all2 fits ws vs \<Longrightarrow> pack_fields ws vs = Inl StructError"
  by (induction ws vs rule: pack_fields.induct) (auto simp: fits_def)

lemma length_packed: "list_all2 fits ws vs \<Longrightarrow> length (concat (map2 be_bytes ws vs)) = sum_list ws"
  by (induction rule: list_all2_induct) auto

lemma unpack_packed: "list_all2 fits ws vs \<Longrightarrow> unpack_fields ws (concat (map2 be_bytes ws vs)) = vs"
  by (induction rule: list_all2_induct) (auto simp: fits_def be_int_be_bytes)

lemma struct_pack_fits:
  "fmt_widths fmt = Inr ws \<Longrightarrow> struct_pack fmt vs =
     (if list_all2 fits ws vs then Inr (concat (map2 be_bytes ws vs)) else Inl StructError)"
  by (simp add: struct_pack_def pack_fields_Inr pack_fields_Inl)

lemma struct_unpack_packed:
  "fmt_widths fmt = Inr ws \<Longrightarrow> list_all2 fits ws vs \<Longrightarrow>
   struct_unpack fmt (concat (map2 be_bytes ws vs)) = Inr vs"
  by (simp add: struct_unpack_def length_packed unpack_packed)

lemma pack_unpack:
  "length bs = sum_list ws \<Longrightarrow> pack_fields ws (unpack_fields ws bs) = Inr bs"
proof (induction ws arbitrary: bs)
  case (Cons w ws)
  then have w: "length (take w bs) = w" by simp
  have "0 \<le> be_int (take w bs)" "be_int (take w bs) < 256 ^ w"
    using be_int_range [of "take w bs"] w by simp_all
  moreover have "be_bytes w (be_int (take w bs)) = take w bs"
    using be_bytes_be_int [of "take w bs"] w by simp
  moreover have "pack_fields ws (unpack_fields ws (drop w bs)) = Inr (drop w bs)"
    using Cons by simp
  ultimately show ?case by simp
qed simp

end
