(* ===== verification/Py_Values.thy ===== *)
theory Py_Values
  imports Prelude
begin

text \<open>
  The parts of Python's built-in string and number handling that the scripts use: decimal
  and hexadecimal formatting, \<open>int(s, base)\<close>, \<open>str.split\<close> and \<open>str.join\<close> with a
  one-character separator. Python integers are unbounded and are modelled as \<open>int\<close>; strings
  are ASCII.
\<close>

subsection \<open>Digits\<close>

definition digit_char :: "nat \<Rightarrow> char" where
  "digit_char d = (if d < 10 then char_of (48 + d) else char_of (87 + d))"

lemma digit_char_table:
  "digit_char 0 = CHR ''0''" "digit_char (Suc 0) = CHR ''1''" "digit_char 1 = CHR ''1''"
  "digit_char 2 = CHR ''2''" "digit_char 3 = CHR ''3''" "digit_char 4 = CHR ''4''"
  "digit_char 5 = CHR ''5''" "digit_char 6 = CHR ''6''" "digit_char 7 = CHR ''7''"
  "digit_char 8 = CHR ''8''" "digit_char 9 = CHR ''9''" "digit_char 10 = CHR ''a''"
  "digit_char 11 = CHR ''b''" "digit_char 12 = CHR ''c''" "digit_char 13 = CHR ''d''"
  "digit_char 14 = CHR ''e''" "digit_char 15 = CHR ''f''"
  by code_simp+

definition char_digit :: "char \<Rightarrow> nat option" where
  "char_digit c =
     (let k = (of_char c :: nat) in
      if 48 \<le> k \<and> k \<le> 57 then Some (k - 48)
      else if 97 \<le> k \<and> k \<le> 122 then Some (k - 87)
      else if 65 \<le> k \<and> k \<le> 90 then Some (k - 55)
      else None)"

fun digits_of :: "nat \<Rightarrow> nat \<Rightarrow> nat list" where
  "digits_of b n = (if b < 2 \<or> n < b then [n] else digits_of b (n div b) @ [n mod b])"

declare digits_of.simps [simp del]

definition digits_val :: "nat \<Rightarrow> nat list \<Rightarrow> nat" where
  "digits_val b ds = foldl (\<lambda>a d. a * b + d) 0 ds"

definition nat_str :: "nat \<Rightarrow> nat \<Rightarrow> string" where
  "nat_str b n = map digit_char (digits_of b n)"

text \<open>\<open>str(i)\<close> of an int.\<close>

definition py_str :: "int \<Rightarrow> string" where
  "py_str i = (if i < 0 then CHR ''-'' # nat_str 10 (nat (- i)) else nat_str 10 (nat i))"

text \<open>\<open>"%0wx" % n\<close> for a non-negative \<open>n\<close>: hexadecimal, zero-padded to width \<open>w\<close>.\<close>

definition hex_pad :: "nat \<Rightarrow> nat \<Rightarrow> string" where
  "hex_pad w n = (let s = nat_str 16 n in replicate (w - length s) (CHR ''0'') @ s)"

subsection \<open>Splitting and joining\<close>

text \<open>\<open>s.split(c)\<close>: always at least one part.\<close>

fun py_split :: "char \<Rightarrow> string \<Rightarrow> string list" where
  "py_split c [] = [[]]"
| "py_split c (x # s) =
     (if x = c then [] # py_split c s
      else (case py_split c s of p # ps \<Rightarrow> (x # p) # ps | [] \<Rightarrow> [[x]]))"

fun py_join :: "char \<Rightarrow> string list \<Rightarrow> string" where
  "py_join c [] = []"
| "py_join c [s] = s"
| "py_join c (s # t # ts) = s @ c # py_join c (t # ts)"

subsection \<open>int(s, base)\<close>

definition py_space :: "char \<Rightarrow> bool" where
  "py_space c \<longleftrightarrow>
     (let k = (of_char c :: nat) in k = 32 \<or> (9 \<le> k \<and> k \<le> 13) \<or> (28 \<le> k \<and> k \<le> 31) \<or> k = 0x85 \<or> k = 0xa0)"

definition py_strip :: "string \<Rightarrow> string" where
  "py_strip s = rev (dropWhile py_space (rev (dropWhile py_space s)))"

definition digits_of_group :: "nat \<Rightarrow> string \<Rightarrow> nat list option" where
  "digits_of_group b g =
     (if g = [] then None
      else those (map (\<lambda>c. case char_digit c of
                             Some d \<Rightarrow> if d < b then Some d else None
                           | None \<Rightarrow> None) g))"

text \<open>
  The digits of an integer literal: groups separated by single underscores, none empty. For
  base 16 a leading \<open>0x\<close> or \<open>0X\<close> is dropped, and one underscore may follow it.
\<close>

definition py_digits :: "nat \<Rightarrow> string \<Rightarrow> nat res" where
  "py_digits b s =
     (let s' = (if b = 16 \<and> (take 2 s = ''0x'' \<or> take 2 s = ''0X'')
                then (case drop 2 s of c # r \<Rightarrow> if c = CHR ''_'' then r else c # r | [] \<Rightarrow> [])
                else s)
      in case those (map (digits_of_group b) (py_split (CHR ''_'') s')) of
           None \<Rightarrow> Inl ValueError
         | Some gs \<Rightarrow> Inr (digits_val b (concat gs)))"

definition py_int :: "nat \<Rightarrow> string \<Rightarrow> int res" where
  "py_int b s =
     (case py_strip s of
        [] \<Rightarrow> Inl ValueError
      | c # r \<Rightarrow>
          if c = CHR ''-'' then res_bind (py_digits b r) (\<lambda>n. Inr (- int n))
          else if c = CHR ''+'' then res_bind (py_digits b r) (\<lambda>n. Inr (int n))
          else res_bind (py_digits b (c # r)) (\<lambda>n. Inr (int n)))"

subsection \<open>Round trips\<close>

lemma char_digit_digit_char [simp]: "d < 36 \<Longrightarrow> char_digit (digit_char d) = Some d"
  by (auto simp: char_digit_def digit_char_def Let_def)

lemma digit_char_range:
  "d < 36 \<Longrightarrow> (48 \<le> (of_char (digit_char d) :: nat) \<and> (of_char (digit_char d) :: nat) \<le> 57) \<or>
    (97 \<le> (of_char (digit_char d) :: nat) \<and> (of_char (digit_char d) :: nat) \<le> 122)"
  by (auto simp: digit_char_def)

lemma digits_of_bound: "2 \<le> b \<Longrightarrow> d \<in> set (digits_of b n) \<Longrightarrow> d < b"
proof (induction b n rule: digits_of.induct)
  case (1 b n)
  show ?case
  proof (cases "n < b")
    case True
    with "1.prems" show ?thesis by (simp add: digits_of.simps [of b n])
  next
    case False
    with "1.prems" have "d \<in> set (digits_of b (n div b)) \<or> d = n mod b"
      by (auto simp: digits_of.simps [of b n])
    with "1.IH" "1.prems" False show ?thesis by auto
  qed
qed

lemma digits_of_nonempty [simp]: "digits_of b n \<noteq> []"
  by (subst digits_of.simps) simp

lemma digits_val_snoc [simp]: "digits_val b (ds @ [d]) = digits_val b ds * b + d"
  by (simp add: digits_val_def)

lemma digits_val_digits_of [simp]: "2 \<le> b \<Longrightarrow> digits_val b (digits_of b n) = n"
proof (induction b n rule: digits_of.induct)
  case (1 b n)
  show ?case
  proof (cases "n < b")
    case True
    then show ?thesis by (subst digits_of.simps) (simp add: digits_val_def)
  next
    case False
    with "1.prems" have "digits_of b n = digits_of b (n div b) @ [n mod b]"
      by (subst digits_of.simps) simp
    with "1.IH" "1.prems" False show ?thesis by simp
  qed
qed

lemma nat_str_nonempty [simp]: "nat_str b n \<noteq> []"
  by (simp add: nat_str_def)

lemma nat_str_chars:
  assumes "2 \<le> b" and "b \<le> 36" and "c \<in> set (nat_str b n)"
  shows "(48 \<le> (of_char c :: nat) \<and> (of_char c :: nat) \<le> 57) \<or>
         (97 \<le> (of_char c :: nat) \<and> (of_char c :: nat) \<le> 122)"
proof -
  from assms(3) obtain d where "c = digit_char d" and "d \<in> set (digits_of b n)"
    by (auto simp: nat_str_def)
  with assms(1,2) show ?thesis
    using digits_of_bound [of b d n] digit_char_range [of d] by auto
qed

lemma py_split_nonempty [simp]: "py_split c s \<noteq> []"
  by (induction s) (auto split: list.splits)

lemma py_split_none: "c \<notin> set s \<Longrightarrow> py_split c s = [s]"
  by (induction s) auto

lemma py_split_append: "c \<notin> set s \<Longrightarrow> py_split c (s @ c # t) = s # py_split c t"
  by (induction s) auto

lemma py_split_join:
  "xs \<noteq> [] \<Longrightarrow> (\<And>x. x \<in> set xs \<Longrightarrow> c \<notin> set x) \<Longrightarrow> py_split c (py_join c xs) = xs"
proof (induction c xs rule: py_join.induct)
  case (1 c)
  then show ?case by simp
next
  case (2 c s)
  then show ?case by (simp add: py_split_none)
next
  case (3 c s t ts)
  then show ?case by (simp add: py_split_append)
qed

lemma those_map_Some: "(\<And>x. x \<in> set xs \<Longrightarrow> f x = Some (g x)) \<Longrightarrow> those (map f xs) = Some (map g xs)"
  by (induction xs) auto

lemma digits_of_group_nat_str:
  assumes "2 \<le> b" and "b \<le> 36"
  shows "digits_of_group b (nat_str b n) = Some (digits_of b n)"
proof -
  have "those (map (\<lambda>c. case char_digit c of Some d \<Rightarrow> if d < b then Some d else None | None \<Rightarrow> None)
          (map digit_char (digits_of b n))) = Some (map id (digits_of b n))"
    unfolding map_map
  proof (rule those_map_Some)
    fix d assume "d \<in> set (digits_of b n)"
    with assms digits_of_bound [of b d n] have "d < b" and "d < 36" by auto
    then show "((\<lambda>c. case char_digit c of Some d \<Rightarrow> if d < b then Some d else None | None \<Rightarrow> None) \<circ>
        digit_char) d = Some (id d)" by simp
  qed
  then show ?thesis
    by (simp add: digits_of_group_def nat_str_def)
qed

lemma nat_str_not_special:
  assumes "2 \<le> b" and "b \<le> 36"
  shows "CHR ''_'' \<notin> set (nat_str b n)" and "CHR '':'' \<notin> set (nat_str b n)"
    and "CHR '','' \<notin> set (nat_str b n)" and "CHR ''-'' \<notin> set (nat_str b n)"
    and "CHR ''+'' \<notin> set (nat_str b n)" and "CHR ''.'' \<notin> set (nat_str b n)"
  using nat_str_chars [OF assms, of "CHR ''_''" n] nat_str_chars [OF assms, of "CHR '':''" n]
    nat_str_chars [OF assms, of "CHR '',''" n] nat_str_chars [OF assms, of "CHR ''-''" n]
    nat_str_chars [OF assms, of "CHR ''+''" n] nat_str_chars [OF assms, of "CHR ''.''" n]
  by auto

lemma nat_str_not_space:
  assumes "2 \<le> b" and "b \<le> 36" and "c \<in> set (nat_str b n)"
  shows "\<not> py_space c"
  using nat_str_chars [OF assms] by (auto simp: py_space_def Let_def)

lemma dropWhile_none: "(\<And>x. x \<in> set xs \<Longrightarrow> \<not> P x) \<Longrightarrow> dropWhile P xs = xs"
  by (cases xs) auto

lemma py_strip_id:
  assumes "\<And>c. c \<in> set s \<Longrightarrow> \<not> py_space c"
  shows "py_strip s = s"
  using assms dropWhile_none [of s py_space] dropWhile_none [of "rev s" py_space]
  by (simp add: py_strip_def)

lemma py_digits_decimal: "py_digits 10 (nat_str 10 n) = Inr n"
  by (simp add: py_digits_def py_split_none nat_str_not_special digits_of_group_nat_str)

theorem py_int_py_str: "py_int 10 (py_str i) = Inr i"
proof (cases "i < 0")
  case True
  have "py_strip (CHR ''-'' # nat_str 10 (nat (- i))) = CHR ''-'' # nat_str 10 (nat (- i))"
    by (rule py_strip_id) (auto simp: py_space_def dest: nat_str_not_space [rotated -1])
  with True show ?thesis
    by (simp add: py_int_def py_str_def py_digits_decimal)
next
  case False
  have "py_strip (nat_str 10 (nat i)) = nat_str 10 (nat i)"
    by (rule py_strip_id) (auto dest: nat_str_not_space [rotated -1])
  moreover obtain c r where cr: "nat_str 10 (nat i) = c # r"
    by (cases "nat_str 10 (nat i)") auto
  moreover have "c \<noteq> CHR ''-''" "c \<noteq> CHR ''+''"
    using nat_str_not_special(4,5) [of 10 "nat i"] cr by auto
  moreover have "py_digits 10 (c # r) = Inr (nat i)"
    using py_digits_decimal [of "nat i"] cr by simp
  ultimately show ?thesis
    using False by (simp add: py_int_def py_str_def)
qed

lemma py_str_not_special:
  "CHR '':'' \<notin> set (py_str i)" "CHR '','' \<notin> set (py_str i)"
  by (auto simp: py_str_def nat_str_not_special)

subsection \<open>Sizes and hexadecimal bytes\<close>

lemma length_digits_of: "2 \<le> b \<Longrightarrow> n < b ^ k \<Longrightarrow> 0 < k \<Longrightarrow> length (digits_of b n) \<le> k"
proof (induction b n arbitrary: k rule: digits_of.induct)
  case (1 b n)
  show ?case
  proof (cases "n < b")
    case True
    with "1.prems" show ?thesis by (simp add: digits_of.simps [of b n])
  next
    case False
    have k: "1 < k"
    proof (rule ccontr)
      assume "\<not> 1 < k"
      then have "k = 1" using "1.prems"(3) by simp
      with False "1.prems"(2) show False by simp
    qed
    then have "b ^ k = b ^ (k - 1) * b" by (metis "1.prems"(3) power_minus_mult)
    then have "n div b < b ^ (k - 1)"
      using "1.prems" by (simp add: less_mult_imp_div_less)
    then have "length (digits_of b (n div b)) \<le> k - 1"
      using "1.IH" [of "k - 1"] "1.prems" False k by simp
    moreover have "digits_of b n = digits_of b (n div b) @ [n mod b]"
      using "1.prems" False by (subst digits_of.simps) simp
    ultimately show ?thesis using k by simp
  qed
qed

lemma length_nat_str: "2 \<le> b \<Longrightarrow> n < b ^ k \<Longrightarrow> 0 < k \<Longrightarrow> length (nat_str b n) \<le> k"
  by (simp add: nat_str_def length_digits_of)

lemma length_hex_pad: "0 < w \<Longrightarrow> n < 16 ^ w \<Longrightarrow> length (hex_pad w n) = w"
  using length_nat_str [of 16 n w] by (simp add: hex_pad_def Let_def)

lemma hex_pad_chars:
  assumes "c \<in> set (hex_pad w n)"
  shows "(48 \<le> (of_char c :: nat) \<and> (of_char c :: nat) \<le> 57) \<or>
         (97 \<le> (of_char c :: nat) \<and> (of_char c :: nat) \<le> 122)"
  using assms nat_str_chars [of 16 c n] by (auto simp: hex_pad_def Let_def split: if_splits)

lemma those_append: "those (xs @ ys) =
   (case those xs of None \<Rightarrow> None | Some as \<Rightarrow> (case those ys of None \<Rightarrow> None | Some bs \<Rightarrow> Some (as @ bs)))"
  by (induction xs) (auto split: option.splits)

lemma those_replicate_Some [simp]: "those (replicate k (Some x)) = Some (replicate k x)"
  by (induction k) simp_all

lemma char_digit_zero [simp]: "char_digit CHR ''0'' = Some 0"
  by (simp add: char_digit_def)

lemma digits_of_group_hex_pad:
  "digits_of_group 16 (hex_pad w n) = Some (replicate (w - length (nat_str 16 n)) 0 @ digits_of 16 n)"
proof -
  have "those (map (\<lambda>c. case char_digit c of Some d \<Rightarrow> if d < 16 then Some d else None | None \<Rightarrow> None)
      (nat_str 16 n)) = Some (digits_of 16 n)"
    using digits_of_group_nat_str [of 16 n] by (simp add: digits_of_group_def)
  then show ?thesis by (simp add: digits_of_group_def hex_pad_def Let_def those_append)
qed

lemma digits_val_leading_zeros [simp]: "digits_val b (replicate k 0 @ ds) = digits_val b ds"
  by (induction k) (simp_all add: digits_val_def)

lemma hex_pad_not_special:
  "CHR ''_'' \<notin> set (hex_pad w n)" "CHR '':'' \<notin> set (hex_pad w n)"
  "CHR ''-'' \<notin> set (hex_pad w n)" "CHR ''+'' \<notin> set (hex_pad w n)"
  using hex_pad_chars [of _ w n] by fastforce+

lemma hex_pad_no_x: "CHR ''x'' \<notin> set (hex_pad w n)" "CHR ''X'' \<notin> set (hex_pad w n)"
proof -
  show "CHR ''x'' \<notin> set (hex_pad w n)"
  proof
    assume "CHR ''x'' \<in> set (hex_pad w n)"
    then have "CHR ''x'' \<in> set (nat_str 16 n)"
      by (auto simp: hex_pad_def Let_def split: if_splits)
    then obtain d where d: "CHR ''x'' = digit_char d" "d < 16"
      using digits_of_bound [of 16 _ n] by (auto simp: nat_str_def)
    then have "char_digit CHR ''x'' = Some d" by simp
    with d(2) show False by (simp add: char_digit_def)
  qed
  show "CHR ''X'' \<notin> set (hex_pad w n)"
    using hex_pad_chars [of "CHR ''X''" w n] by auto
qed

lemma py_digits_hex_pad: "py_digits 16 (hex_pad w n) = Inr n"
proof -
  have "set (take 2 (hex_pad w n)) \<subseteq> set (hex_pad w n)" by (rule set_take_subset)
  then have "take 2 (hex_pad w n) \<noteq> ''0x''" "take 2 (hex_pad w n) \<noteq> ''0X''"
    using hex_pad_no_x [of w n] by auto
  then show ?thesis
    by (simp add: py_digits_def py_split_none hex_pad_not_special digits_of_group_hex_pad)
qed

lemma hex_pad_nonempty [simp]: "hex_pad w n \<noteq> []"
  by (simp add: hex_pad_def Let_def)

lemma py_int_hex_pad: "py_int 16 (hex_pad w n) = Inr (int n)"
proof -
  have "py_strip (hex_pad w n) = hex_pad w n"
    by (rule py_strip_id) (auto simp: py_space_def Let_def dest: hex_pad_chars)
  moreover obtain c r where cr: "hex_pad w n = c # r"
    by (cases "hex_pad w n") auto
  moreover have "c \<noteq> CHR ''-''" "c \<noteq> CHR ''+''"
    using hex_pad_not_special(3,4) [of w n] cr by auto
  moreover have "py_digits 16 (c # r) = Inr n"
    using py_digits_hex_pad [of w n] cr by simp
  ultimately show ?thesis by (simp add: py_int_def)
qed

subsection \<open>Digits in a text\<close>

definition is_digit :: "char \<Rightarrow> bool" where
  "is_digit c \<longleftrightarrow> 48 \<le> (of_char c :: nat) \<and> (of_char c :: nat) \<le> 57"

definition digits_nat :: "string \<Rightarrow> nat" where
  "digits_nat s = digits_val 10 (map (\<lambda>c. of_char c - 48) s)"

lemma digit_char_code: "d < 10 \<Longrightarrow> (of_char (digit_char d) :: nat) = 48 + d"
  by (simp add: digit_char_def take_bit_nat_eq_self)

lemma digit_run: "takeWhile is_digit (nat_str 10 n @ rest) = nat_str 10 n @ takeWhile is_digit rest"
proof -
  have "is_digit c" if mem: "c \<in> set (nat_str 10 n)" for c
  proof -
    obtain d where "c = digit_char d" "d \<in> set (digits_of 10 n)" using mem unfolding nat_str_def set_map by blast
    then show ?thesis using digits_of_bound [of 10 d n] by (simp add: digit_char_code is_digit_def)
  qed
  then show ?thesis by (subst takeWhile_append2) auto
qed

lemma digits_nat_str: "digits_nat (nat_str 10 n) = n"
proof -
  have "map (\<lambda>c. of_char c - 48) (nat_str 10 n) = map id (digits_of 10 n)"
    unfolding nat_str_def map_map using digits_of_bound [of 10 _ n] by (intro map_cong) (auto simp: digit_char_code)
  then show ?thesis by (simp add: digits_nat_def)
qed

end
