(* ===== verification/Synthetic_Peer.thy ===== *)
theory Synthetic_Peer
  imports Struct_Pack Py_Values
begin

text \<open>
  The Python peer of the distributed gate (\<open>network/daim_synthetic_peer.py\<close>): an independent
  implementation of the wire protocol that dials a running node and scripts a controlled
  sequence of messages. All of the file is modelled.

  A connected socket is a pair of byte streams. The receive side is a list of TCP segments, the
  cut points of which the sender does not control: \<open>recv(k)\<close> returns at most \<open>k\<close> bytes of the
  first one and leaves the rest. When no segment is left the peer has closed the connection
  (\<open>recv\<close> returns no bytes) or has gone silent (\<open>recv\<close> raises at the socket timeout). The send
  side is the list of \<open>sendall\<close> calls. The readings of \<open>time.monotonic_ns()\<close> are a parameter,
  indexed by the id of the message they stamp.
\<close>

subsection \<open>Constants\<close>

definition PROTOCOL_VERSION :: int where "PROTOCOL_VERSION = 1"
definition HEADER_SIZE :: nat where "HEADER_SIZE = 30"
definition HOST_LOCATION_WIRE_SIZE :: nat where "HOST_LOCATION_WIRE_SIZE = 59"

definition MSG_HELLO :: int where "MSG_HELLO = 1"
definition MSG_HEARTBEAT :: int where "MSG_HEARTBEAT = 2"
definition MSG_HOST_LOCATION_UPDATE :: int where "MSG_HOST_LOCATION_UPDATE = 3"
definition MSG_STATE_SNAPSHOT_REQUEST :: int where "MSG_STATE_SNAPSHOT_REQUEST = 4"
definition MSG_STATE_SNAPSHOT_BEGIN :: int where "MSG_STATE_SNAPSHOT_BEGIN = 5"
definition MSG_STATE_SNAPSHOT_ENTRY :: int where "MSG_STATE_SNAPSHOT_ENTRY = 6"
definition MSG_STATE_SNAPSHOT_END :: int where "MSG_STATE_SNAPSHOT_END = 7"
definition MSG_ACK :: int where "MSG_ACK = 8"
definition MSG_ERROR :: int where "MSG_ERROR = 9"

definition HEADER_FMT :: string where "HEADER_FMT = ''>BBQQIQ''"
definition LOC_TAIL_FMT :: string where "LOC_TAIL_FMT = ''>QQIQQBQQ''"

lemmas msg_codes = MSG_HELLO_def MSG_HEARTBEAT_def MSG_HOST_LOCATION_UPDATE_def
  MSG_STATE_SNAPSHOT_REQUEST_def MSG_STATE_SNAPSHOT_BEGIN_def MSG_STATE_SNAPSHOT_ENTRY_def
  MSG_STATE_SNAPSHOT_END_def MSG_ACK_def MSG_ERROR_def

lemma fmts [simp]:
  "fmt_widths HEADER_FMT = Inr [1, 1, 8, 8, 4, 8]"
  "fmt_widths LOC_TAIL_FMT = Inr [8, 8, 4, 8, 8, 1, 8, 8]"
  by (simp_all add: HEADER_FMT_def LOC_TAIL_FMT_def)

subsection \<open>Host locations\<close>

definition encode_host_location ::
    "bytes \<Rightarrow> int \<Rightarrow> int \<Rightarrow> int \<Rightarrow> int \<Rightarrow> int \<Rightarrow> bool \<Rightarrow> int \<Rightarrow> int \<Rightarrow> bytes res" where
  "encode_host_location mac_bytes origin dpid port ep sq is_loc learned applied =
     (if length mac_bytes \<noteq> 6 then Inl AssertionError
      else res_bind (struct_pack LOC_TAIL_FMT
          [origin, dpid, port, ep, sq, if is_loc then 1 else 0, learned, applied])
        (\<lambda>tail. Inr (mac_bytes @ tail)))"

record py_location =
  pl_mac :: string
  pl_origin_node_id :: int
  pl_owner_dpid :: int
  pl_owner_port :: int
  pl_owner_epoch :: int
  pl_sequence :: int
  pl_is_local :: bool
  pl_learned_at_ns :: int
  pl_applied_at_ns :: int

definition mac_text :: "bytes \<Rightarrow> string" where
  "mac_text bs = py_join (CHR '':'') (map (\<lambda>b. hex_pad 2 (unat b)) bs)"

definition decode_host_location :: "bytes \<Rightarrow> py_location res" where
  "decode_host_location payload =
     res_bind (struct_unpack LOC_TAIL_FMT (drop 6 (take HOST_LOCATION_WIRE_SIZE payload)))
       (\<lambda>vs. Inr \<lparr>pl_mac = mac_text (take 6 payload), pl_origin_node_id = vs ! 0,
          pl_owner_dpid = vs ! 1, pl_owner_port = vs ! 2, pl_owner_epoch = vs ! 3,
          pl_sequence = vs ! 4, pl_is_local = (vs ! 5 \<noteq> 0), pl_learned_at_ns = vs ! 6,
          pl_applied_at_ns = vs ! 7\<rparr>)"

subsection \<open>The socket\<close>

datatype stream_end = PeerClosed | PeerSilent

record socket =
  sk_rx :: "bytes list"
  sk_rx_end :: stream_end
  sk_tx :: "bytes list"

definition sock_recv :: "nat \<Rightarrow> (socket, bytes) act" where
  "sock_recv k sk =
     (case sk_rx sk of
        [] \<Rightarrow> (case sk_rx_end sk of PeerClosed \<Rightarrow> (Inr [], sk) | PeerSilent \<Rightarrow> (Inl TimeoutError, sk))
      | c # cs \<Rightarrow> (Inr (take k c), sk\<lparr>sk_rx := (if length c \<le> k then cs else drop k c # cs)\<rparr>))"

definition sock_sendall :: "bytes \<Rightarrow> (socket, unit) act" where
  "sock_sendall bs = act_modify (\<lambda>sk. sk\<lparr>sk_tx := sk_tx sk @ [bs]\<rparr>)"

subsection \<open>The peer\<close>

record synthetic_peer =
  sp_node_id :: int
  sp_owner_epoch :: int
  sp_sock :: "socket option"
  sp_next_message_id :: int

definition SyntheticPeer_init :: "int \<Rightarrow> int \<Rightarrow> synthetic_peer" where
  "SyntheticPeer_init nid ep =
     \<lparr>sp_node_id = nid, sp_owner_epoch = ep, sp_sock = None, sp_next_message_id = 1\<rparr>"

text \<open>A socket call; on a closed peer \<open>self.sock\<close> is \<open>None\<close> and has no such attribute.\<close>

definition on_sock :: "(socket, 'a) act \<Rightarrow> (synthetic_peer, 'a) act" where
  "on_sock m p =
     (case sp_sock p of None \<Rightarrow> (Inl AttributeError, p)
      | Some sk \<Rightarrow> (case m sk of (r, sk') \<Rightarrow> (r, p\<lparr>sp_sock := Some sk'\<rparr>)))"

definition peer_connect :: "socket res \<Rightarrow> (synthetic_peer, unit) act" where
  "peer_connect created p =
     (case created of Inl e \<Rightarrow> (Inl e, p) | Inr sk \<Rightarrow> (Inr (), p\<lparr>sp_sock := Some sk\<rparr>))"

definition build_frame :: "(int \<Rightarrow> int) \<Rightarrow> int \<Rightarrow> bytes \<Rightarrow> int \<Rightarrow> (synthetic_peer, bytes) act" where
  "build_frame clock mtype payload version p =
     (let mid = sp_next_message_id p;
          p' = p\<lparr>sp_next_message_id := mid + 1\<rparr>
      in (res_bind (struct_pack HEADER_FMT
            [version, mtype, sp_node_id p, mid, int (length payload), clock mid])
           (\<lambda>header. Inr (header @ payload)), p'))"

text \<open>\<open>self.sock.sendall\<close> is evaluated before its argument.\<close>

definition peer_send :: "(int \<Rightarrow> int) \<Rightarrow> int \<Rightarrow> bytes \<Rightarrow> (synthetic_peer, unit) act" where
  "peer_send clock mtype payload p =
     (if sp_sock p = None then (Inl AttributeError, p)
      else act_bind (build_frame clock mtype payload PROTOCOL_VERSION)
             (\<lambda>frame. on_sock (sock_sendall frame)) p)"

text \<open>
  The write loop of \<open>_send_fragmented\<close>. It does not end when a fragment size is zero for ever, so
  it is a partial function: \<open>None\<close> is a loop that never returns. The result holds the pieces
  passed to \<open>sendall\<close>, or the exception of an empty size tuple, raised at the first iteration.
\<close>

partial_function (option) fragments :: "nat list \<Rightarrow> bytes \<Rightarrow> nat \<Rightarrow> nat \<Rightarrow> bytes list res option" where
  "fragments sizes frame offset index =
     (if offset < length frame
      then if sizes = [] then Some (Inl ZeroDivisionError)
           else let size = sizes ! (index mod length sizes)
                in Option.bind (fragments sizes frame (offset + size) (index + 1))
                     (\<lambda>r. Some (res_bind r (\<lambda>ps. Inr (take size (drop offset frame) # ps))))
      else Some (Inr []))"

definition default_fragment_sizes :: "nat list" where
  "default_fragment_sizes = [1, 2, 3, 5, 8]"

definition peer_send_fragmented ::
    "(int \<Rightarrow> int) \<Rightarrow> int \<Rightarrow> bytes \<Rightarrow> nat list \<Rightarrow> synthetic_peer \<Rightarrow> (unit res \<times> synthetic_peer) option" where
  "peer_send_fragmented clock mtype payload sizes p =
     (case build_frame clock mtype payload PROTOCOL_VERSION p of
        (Inl e, p') \<Rightarrow> Some (Inl e, p')
      | (Inr frame, p') \<Rightarrow>
          if sizes \<noteq> [] \<and> sp_sock p' = None then Some (Inl AttributeError, p')
          else map_option (\<lambda>r. case r of Inl e \<Rightarrow> (Inl e, p')
              | Inr ps \<Rightarrow> on_sock (act_modify (\<lambda>sk. sk\<lparr>sk_tx := sk_tx sk @ ps\<rparr>)) p')
            (fragments sizes frame 0 0))"

subsection \<open>Receiving\<close>

function recv_exact :: "nat \<Rightarrow> bytes \<Rightarrow> (socket, bytes) act" where
  "recv_exact n buf sk =
     (if length buf < n
      then (case sock_recv (n - length buf) sk of
              (Inl e, sk') \<Rightarrow> (Inl e, sk')
            | (Inr chunk, sk') \<Rightarrow>
                if chunk = [] then (Inl ConnectionError, sk') else recv_exact n (buf @ chunk) sk')
      else (Inr buf, sk))"
  by pat_completeness auto
termination
  by (relation "measure (\<lambda>(n, buf, sk). n - length buf)") (auto simp: neq_Nil_conv)

declare recv_exact.simps [simp del]

definition peer_recv_exact :: "nat \<Rightarrow> (synthetic_peer, bytes) act" where
  "peer_recv_exact n p = (if n = 0 then (Inr [], p) else on_sock (recv_exact n []) p)"

record py_message =
  pm_message_type :: int
  pm_origin_node_id :: int
  pm_message_id :: int
  pm_send_time_ns :: int
  pm_payload :: bytes

definition peer_recv_message :: "(synthetic_peer, py_message) act" where
  "peer_recv_message =
     act_bind (peer_recv_exact HEADER_SIZE) (\<lambda>header.
     act_bind (act_lift (struct_unpack HEADER_FMT header)) (\<lambda>vs.
       if vs ! 0 \<noteq> PROTOCOL_VERSION then act_raise AssertionError
       else act_bind (if vs ! 4 \<noteq> 0 then peer_recv_exact (nat (vs ! 4)) else act_return []) (\<lambda>payload.
         act_return \<lparr>pm_message_type = vs ! 1, pm_origin_node_id = vs ! 2, pm_message_id = vs ! 3,
                     pm_send_time_ns = vs ! 5, pm_payload = payload\<rparr>)))"

text \<open>The bytes of the stream that are still to be read; every message received consumes some.\<close>

definition unread :: "synthetic_peer \<Rightarrow> bytes" where
  "unread p = (case sp_sock p of None \<Rightarrow> [] | Some sk \<Rightarrow> concat (sk_rx sk))"

lemma sock_recv_unread:
  "sock_recv k sk = (Inr chunk, sk') \<Longrightarrow> concat (sk_rx sk) = chunk @ concat (sk_rx sk')"
  by (auto simp: sock_recv_def split: list.splits if_splits stream_end.splits)

lemma recv_exact_unread:
  "recv_exact n buf sk = (Inr bs, sk') \<Longrightarrow>
     buf @ concat (sk_rx sk) = bs @ concat (sk_rx sk') \<and> n \<le> length bs"
proof (induction n buf sk rule: recv_exact.induct)
  case (1 n buf sk)
  show ?case
  proof (cases "length buf < n")
    case True
    with "1.prems" obtain chunk sk1 where step: "sock_recv (n - length buf) sk = (Inr chunk, sk1)"
        "chunk \<noteq> []" "recv_exact n (buf @ chunk) sk1 = (Inr bs, sk')"
      by (subst (asm) recv_exact.simps) (auto split: prod.splits sum.splits if_splits)
    from "1.IH" [OF True step(1) [symmetric] refl step(2) step(3)] sock_recv_unread [OF step(1)] show ?thesis
      by simp
  next
    case False
    with "1.prems" show ?thesis by (subst (asm) recv_exact.simps) simp
  qed
qed

lemma peer_recv_exact_unread:
  "peer_recv_exact n p = (Inr bs, p') \<Longrightarrow> unread p = bs @ unread p' \<and> n \<le> length bs"
  by (auto simp: peer_recv_exact_def on_sock_def unread_def dest: recv_exact_unread
      split: if_splits option.splits prod.splits)

lemma peer_recv_message_unread:
  "peer_recv_message p = (Inr msg, p') \<Longrightarrow> length (unread p') < length (unread p)"
  by (auto simp: peer_recv_message_def act_bind_Inr HEADER_SIZE_def act_raise_def act_return_def act_lift_def
      dest!: peer_recv_exact_unread split: if_splits)

lemma unread_send [simp]: "unread (snd (peer_send clock mtype payload p)) = unread p"
  by (auto simp: peer_send_def act_bind_def build_frame_def on_sock_def sock_sendall_def unread_def
      Let_def split: prod.splits sum.splits option.splits)

lemma peer_send_unread: "peer_send clock mtype payload p = (r, p') \<Longrightarrow> unread p' = unread p"
  using unread_send [of clock mtype payload p] by simp

subsection \<open>The handshake\<close>

function drain_loop :: "(int \<Rightarrow> int) \<Rightarrow> nat \<Rightarrow> bool \<Rightarrow> bool \<Rightarrow> (synthetic_peer, nat) act" where
  "drain_loop clock count own served p =
     (if own \<and> served then (Inr count, p)
      else case peer_recv_message p of
        (Inl e, p') \<Rightarrow> (Inl e, p')
      | (Inr msg, p') \<Rightarrow>
          if pm_message_type msg = MSG_STATE_SNAPSHOT_REQUEST
          then (case peer_send clock MSG_STATE_SNAPSHOT_END [] p' of
                  (Inl e, p'') \<Rightarrow> (Inl e, p'')
                | (Inr _, p'') \<Rightarrow> drain_loop clock count own True p'')
          else if pm_message_type msg = MSG_STATE_SNAPSHOT_ENTRY
          then drain_loop clock (count + 1) own served p'
          else if pm_message_type msg = MSG_STATE_SNAPSHOT_END
          then drain_loop clock count True served p'
          else drain_loop clock count own served p')"
  by pat_completeness auto
termination
  by (relation "measure (\<lambda>(clock, count, own, served, p). length (unread p))")
    (auto dest!: peer_recv_message_unread [OF sym] peer_send_unread [OF sym])

declare drain_loop.simps [simp del]

definition handshake_and_drain_snapshot :: "(int \<Rightarrow> int) \<Rightarrow> (synthetic_peer, nat) act" where
  "handshake_and_drain_snapshot clock p =
     act_bind (act_lift (struct_pack ''>Q'' [sp_owner_epoch p])) (\<lambda>hello_payload.
     act_bind (peer_send clock MSG_HELLO hello_payload) (\<lambda>_.
     act_bind peer_recv_message (\<lambda>hello.
       if pm_message_type hello \<noteq> MSG_HELLO then act_raise AssertionError
       else act_bind (peer_send clock MSG_STATE_SNAPSHOT_REQUEST []) (\<lambda>_.
         drain_loop clock 0 False False)))) p"

definition send_host_location_update ::
    "(int \<Rightarrow> int) \<Rightarrow> int \<Rightarrow> bytes \<Rightarrow> int \<Rightarrow> int \<Rightarrow> int \<Rightarrow> int \<Rightarrow> int \<Rightarrow> bool \<Rightarrow> int option
     \<Rightarrow> (synthetic_peer, unit) act" where
  "send_host_location_update clock now mac_bytes origin dpid port ep sq is_loc learned =
     act_bind (act_lift (encode_host_location mac_bytes origin dpid port ep sq is_loc
         (case learned of None \<Rightarrow> now | Some t \<Rightarrow> t) 0))
       (\<lambda>payload. peer_send clock MSG_HOST_LOCATION_UPDATE payload)"

definition send_host_location_update_fragmented ::
    "(int \<Rightarrow> int) \<Rightarrow> int \<Rightarrow> bytes \<Rightarrow> int \<Rightarrow> int \<Rightarrow> int \<Rightarrow> int \<Rightarrow> int \<Rightarrow> bool \<Rightarrow> int option
     \<Rightarrow> synthetic_peer \<Rightarrow> (unit res \<times> synthetic_peer) option" where
  "send_host_location_update_fragmented clock now mac_bytes origin dpid port ep sq is_loc learned p =
     (case encode_host_location mac_bytes origin dpid port ep sq is_loc
         (case learned of None \<Rightarrow> now | Some t \<Rightarrow> t) 0 of
        Inl e \<Rightarrow> Some (Inl e, p)
      | Inr payload \<Rightarrow>
          peer_send_fragmented clock MSG_HOST_LOCATION_UPDATE payload default_fragment_sizes p)"

definition peer_close :: "synthetic_peer \<Rightarrow> synthetic_peer" where
  "peer_close p = p\<lparr>sp_sock := None\<rparr>"

end
