(* ===== verification/Wire_Agreement.thy ===== *)
theory Wire_Agreement
  imports Synthetic_Peer
begin

text \<open>
  The two implementations of the wire protocol agree: the frames of the Python peer are the
  bytes the C encoders write, each side reads back what the other wrote, however TCP cuts the
  stream, and the handshake of the Python peer ends exactly when both snapshots are done.
\<close>

subsection \<open>Packed headers and locations\<close>

lemma encode_header_packed:
  "daim_peer_encode_header h = concat (map2 be_bytes [1, 1, 8, 8, 4, 8]
     [uint (protocol_version h), uint (message_type h), uint (hdr_origin_node_id h),
      uint (message_id h), uint (payload_length h), uint (send_time_ns h)])"
  by (simp add: daim_peer_encode_header_def put_uint)

lemma unpack_header:
  "struct_unpack HEADER_FMT (daim_peer_encode_header h) =
     Inr [uint (protocol_version h), uint (message_type h), uint (hdr_origin_node_id h),
          uint (message_id h), uint (payload_length h), uint (send_time_ns h)]"
  unfolding encode_header_packed by (rule struct_unpack_packed) simp_all

lemma encode_location_packed:
  assumes "length (mac l) = 6"
  shows "daim_peer_encode_host_location l = mac l @ concat (map2 be_bytes [8, 8, 4, 8, 8, 1, 8, 8]
     [uint (origin_node_id l), uint (owner_dpid l), uint (owner_port l), uint (owner_epoch l),
      uint (sequence l), uint (is_local l), uint (learned_at_ns l), uint (applied_at_ns l)])"
  using assms by (simp add: daim_peer_encode_host_location_def put_uint MAC_ADDR_LEN_def)

text \<open>The C header of a frame the Python peer builds.\<close>

definition frame_header :: "int \<Rightarrow> int \<Rightarrow> int \<Rightarrow> int \<Rightarrow> int \<Rightarrow> int \<Rightarrow> daim_peer_header" where
  "frame_header version mtype origin mid plen sent =
     \<lparr>protocol_version = word_of_int version, message_type = word_of_int mtype,
      hdr_origin_node_id = word_of_int origin, message_id = word_of_int mid,
      payload_length = word_of_int plen, send_time_ns = word_of_int sent\<rparr>"

definition header_fits :: "int \<Rightarrow> int \<Rightarrow> int \<Rightarrow> int \<Rightarrow> int \<Rightarrow> int \<Rightarrow> bool" where
  "header_fits version mtype origin mid plen sent \<longleftrightarrow>
     fits 1 version \<and> fits 1 mtype \<and> fits 8 origin \<and> fits 8 mid \<and> fits 4 plen \<and> fits 8 sent"

lemma pack_header:
  "struct_pack HEADER_FMT [version, mtype, origin, mid, plen, sent] =
     (if header_fits version mtype origin mid plen sent
      then Inr (daim_peer_encode_header (frame_header version mtype origin mid plen sent))
      else Inl StructError)"
  by (simp add: struct_pack_fits header_fits_def encode_header_packed frame_header_def
      uint_word_of_fits del: word_of_int_eq_iff)

text \<open>
  Property C5. Every frame the Python peer builds is the byte string the C encoder writes for the
  same header, followed by the payload; if a header value does not fit its field, building the
  frame raises \<open>struct.error\<close>. The message id is used up in both cases.
\<close>

theorem python_frame_is_C_frame:
  "build_frame clock mtype payload version p =
     (if header_fits version mtype (sp_node_id p) (sp_next_message_id p) (int (length payload))
           (clock (sp_next_message_id p))
      then Inr (daim_peer_encode_header
             (frame_header version mtype (sp_node_id p) (sp_next_message_id p) (int (length payload))
               (clock (sp_next_message_id p))) @ payload)
      else Inl StructError,
      p\<lparr>sp_next_message_id := sp_next_message_id p + 1\<rparr>)"
  by (simp add: build_frame_def pack_header Let_def)

definition location_fits :: "int \<Rightarrow> int \<Rightarrow> int \<Rightarrow> int \<Rightarrow> int \<Rightarrow> int \<Rightarrow> int \<Rightarrow> bool" where
  "location_fits origin dpid port ep sq learned applied \<longleftrightarrow>
     fits 8 origin \<and> fits 8 dpid \<and> fits 4 port \<and> fits 8 ep \<and> fits 8 sq \<and> fits 8 learned \<and> fits 8 applied"

definition location_words ::
    "bytes \<Rightarrow> int \<Rightarrow> int \<Rightarrow> int \<Rightarrow> int \<Rightarrow> int \<Rightarrow> bool \<Rightarrow> int \<Rightarrow> int \<Rightarrow> daim_host_location" where
  "location_words m origin dpid port ep sq is_loc learned applied =
     \<lparr>mac = m, origin_node_id = word_of_int origin, owner_dpid = word_of_int dpid,
      owner_port = word_of_int port, owner_epoch = word_of_int ep, sequence = word_of_int sq,
      is_local = (if is_loc then 1 else 0), learned_at_ns = word_of_int learned,
      applied_at_ns = word_of_int applied\<rparr>"

lemma python_location_bytes:
  "encode_host_location m origin dpid port ep sq is_loc learned applied =
     (if length m \<noteq> 6 then Inl AssertionError
      else if location_fits origin dpid port ep sq learned applied
      then Inr (daim_peer_encode_host_location (location_words m origin dpid port ep sq is_loc learned applied))
      else Inl StructError)"
  by (cases is_loc) (simp_all add: encode_host_location_def struct_pack_fits encode_location_packed
      location_words_def location_fits_def uint_word_of_fits fits_def [of "Suc 0" 1]
      fits_def [of "Suc 0" 0] del: word_of_int_eq_iff)

text \<open>
  What the C decoder makes of a host location the Python peer encoded: the location
  with the same field values, whatever they are, provided the encoder accepts them. A MAC address
  that is not six bytes long fails the assertion, and a value out of range raises
  \<open>struct.error\<close>; nothing is silently truncated.
\<close>

theorem python_location_read_by_C:
  "case encode_host_location m origin dpid port ep sq is_loc learned applied of
     Inl e \<Rightarrow> e = (if length m \<noteq> 6 then AssertionError else StructError) \<and>
              \<not> (length m = 6 \<and> location_fits origin dpid port ep sq learned applied)
   | Inr bs \<Rightarrow> \<exists>l. daim_peer_decode_host_location bs = Inr l \<and> mac l = m \<and>
       uint (origin_node_id l) = origin \<and> uint (owner_dpid l) = dpid \<and> uint (owner_port l) = port \<and>
       uint (owner_epoch l) = ep \<and> uint (sequence l) = sq \<and> is_local l = (if is_loc then 1 else 0) \<and>
       uint (learned_at_ns l) = learned \<and> uint (applied_at_ns l) = applied"
  by (simp add: python_location_bytes location_roundtrip location_wf_def MAC_ADDR_LEN_def
      location_words_def location_fits_def uint_word_of_fits del: word_of_int_eq_iff)

lemma unpack_location:
  assumes "length (mac l) = 6"
  shows "decode_host_location (daim_peer_encode_host_location l @ rest) =
    Inr \<lparr>pl_mac = mac_text (mac l), pl_origin_node_id = uint (origin_node_id l),
         pl_owner_dpid = uint (owner_dpid l), pl_owner_port = uint (owner_port l),
         pl_owner_epoch = uint (owner_epoch l), pl_sequence = uint (sequence l),
         pl_is_local = (is_local l \<noteq> 0), pl_learned_at_ns = uint (learned_at_ns l),
         pl_applied_at_ns = uint (applied_at_ns l)\<rparr>"
proof -
  let ?ws = "[8, 8, 4, 8, 8, 1, 8, 8]"
  let ?vs = "[uint (origin_node_id l), uint (owner_dpid l), uint (owner_port l), uint (owner_epoch l),
      uint (sequence l), uint (is_local l), uint (learned_at_ns l), uint (applied_at_ns l)]"
  let ?bs = "concat (map2 be_bytes ?ws ?vs)"
  have len: "length ?bs = 53" by simp
  have "struct_unpack LOC_TAIL_FMT ?bs = Inr ?vs" by (rule struct_unpack_packed) simp_all
  moreover have "drop 6 (take HOST_LOCATION_WIRE_SIZE (daim_peer_encode_host_location l @ rest)) =
      concat (map2 be_bytes ?ws ?vs)"
    unfolding encode_location_packed [OF assms] HOST_LOCATION_WIRE_SIZE_def using assms len
    by (simp del: map2_map_map concat.simps zip_Cons_Cons list.map)
  moreover have "take 6 (daim_peer_encode_host_location l @ rest) = mac l"
    using assms by (simp add: encode_location_packed)
  ultimately show ?thesis
    by (simp add: decode_host_location_def uint_0_iff)
qed

text \<open>
  The Python peer reads back what the C encoder wrote: for a location with a six-byte
  MAC address, decoding its wire form gives the same values as Python integers, the MAC as
  colon-separated hexadecimal; bytes after the 59 of the location are ignored.
\<close>

theorem C_location_read_by_python:
  assumes "length (mac l) = 6"
  shows "decode_host_location (daim_peer_encode_host_location l @ rest) =
    Inr \<lparr>pl_mac = mac_text (mac l), pl_origin_node_id = uint (origin_node_id l),
         pl_owner_dpid = uint (owner_dpid l), pl_owner_port = uint (owner_port l),
         pl_owner_epoch = uint (owner_epoch l), pl_sequence = uint (sequence l),
         pl_is_local = (is_local l \<noteq> 0), pl_learned_at_ns = uint (learned_at_ns l),
         pl_applied_at_ns = uint (applied_at_ns l)\<rparr>"
  using assms by (rule unpack_location)

theorem C_location_read_by_python_witness:
  "map_sum id pl_mac (decode_host_location (daim_peer_encode_host_location
     \<lparr>mac = [2, 0, 0, 0, 0, 0xAB], origin_node_id = 4, owner_dpid = 4, owner_port = 2, owner_epoch = 7,
      sequence = 1, is_local = 0, learned_at_ns = 9, applied_at_ns = 0\<rparr> @ [1, 2])) =
   Inr ''02:00:00:00:00:ab''"
  by (subst C_location_read_by_python)
    (simp_all add: mac_text_def hex_pad_def nat_str_def digits_of.simps digit_char_table)

subsection \<open>Independence of the TCP segmentation\<close>

definition segmented :: "socket \<Rightarrow> bytes \<Rightarrow> bool" where
  "segmented sk bs \<longleftrightarrow> [] \<notin> set (sk_rx sk) \<and> concat (sk_rx sk) = bs"

lemma sock_recv_segmented:
  assumes "segmented sk bs" and "0 < k" and "bs \<noteq> []"
  obtains chunk sk' where "sock_recv k sk = (Inr chunk, sk')" "chunk \<noteq> []" "length chunk \<le> k"
    "bs = chunk @ drop (length chunk) bs" "segmented sk' (drop (length chunk) bs)"
    "sk_tx sk' = sk_tx sk" "sk_rx_end sk' = sk_rx_end sk"
proof -
  from assms obtain c cs where rx: "sk_rx sk = c # cs" "c \<noteq> []" "[] \<notin> set cs" "bs = c @ concat cs"
    by (cases "sk_rx sk") (auto simp: segmented_def)
  show thesis
    by (rule that [of "take k c" "sk\<lparr>sk_rx := (if length c \<le> k then cs else drop k c # cs)\<rparr>"])
      (use rx assms in \<open>auto simp: sock_recv_def segmented_def min_def\<close>)
qed

lemma recv_exact_segmented:
  assumes "segmented sk bs" and "n \<le> length buf + length bs" and "length buf \<le> n"
  shows "\<exists>sk'. recv_exact n buf sk = (Inr (buf @ take (n - length buf) bs), sk') \<and>
    segmented sk' (drop (n - length buf) bs) \<and> sk_tx sk' = sk_tx sk \<and> sk_rx_end sk' = sk_rx_end sk"
  using assms
proof (induction n buf sk arbitrary: bs rule: recv_exact.induct)
  case (1 n buf sk)
  show ?case
  proof (cases "length buf < n")
    case True
    with "1.prems" have ne: "bs \<noteq> []" and pos: "0 < n - length buf" by auto
    from sock_recv_segmented [OF "1.prems"(1) pos ne] obtain chunk sk1 where
      c: "sock_recv (n - length buf) sk = (Inr chunk, sk1)" "chunk \<noteq> []" "length chunk \<le> n - length buf"
        "bs = chunk @ drop (length chunk) bs" "segmented sk1 (drop (length chunk) bs)"
        "sk_tx sk1 = sk_tx sk" "sk_rx_end sk1 = sk_rx_end sk" .
    have take_chunk: "chunk @ take (n - length buf - length chunk) (drop (length chunk) bs) =
        take (n - length buf) bs"
      using c(3,4) by (metis append_take_drop_id length_append take_append take_all)
    from "1.IH" [OF True c(1) [symmetric] refl c(2) c(5)] c "1.prems" take_chunk show ?thesis
      by (subst recv_exact.simps) (simp add: True)
  next
    case False
    with "1.prems" show ?thesis by (subst recv_exact.simps) simp
  qed
qed

lemma peer_recv_exact_segmented:
  assumes "sp_sock p = Some sk" and "segmented sk bs" and "n \<le> length bs"
  shows "\<exists>sk'. peer_recv_exact n p = (Inr (take n bs), p\<lparr>sp_sock := Some sk'\<rparr>) \<and>
    segmented sk' (drop n bs) \<and> sk_tx sk' = sk_tx sk \<and> sk_rx_end sk' = sk_rx_end sk"
proof (cases "n = 0")
  case True
  with assms show ?thesis by (intro exI [of _ sk]) (simp add: peer_recv_exact_def)
next
  case False
  with assms recv_exact_segmented [OF assms(2), of n "[]"] show ?thesis
    by (auto simp: peer_recv_exact_def on_sock_def)
qed

text \<open>A frame of the C transport: its header and its payload.\<close>

type_synonym c_frame = "daim_peer_header \<times> bytes"

definition frame_bytes :: "c_frame \<Rightarrow> bytes" where
  "frame_bytes f = daim_peer_encode_header (fst f) @ snd f"

definition frame_ok :: "c_frame \<Rightarrow> bool" where
  "frame_ok f \<longleftrightarrow> protocol_version (fst f) = DAIM_PEER_PROTOCOL_VERSION \<and>
     unat (payload_length (fst f)) = length (snd f)"

definition frame_message :: "c_frame \<Rightarrow> py_message" where
  "frame_message f = \<lparr>pm_message_type = uint (message_type (fst f)),
     pm_origin_node_id = uint (hdr_origin_node_id (fst f)), pm_message_id = uint (message_id (fst f)),
     pm_send_time_ns = uint (send_time_ns (fst f)), pm_payload = snd f\<rparr>"

lemma recv_message_frame:
  assumes "sp_sock p = Some sk" and "segmented sk (frame_bytes f @ rest)" and "frame_ok f"
  shows "\<exists>sk'. peer_recv_message p = (Inr (frame_message f), p\<lparr>sp_sock := Some sk'\<rparr>) \<and>
    segmented sk' rest \<and> sk_tx sk' = sk_tx sk \<and> sk_rx_end sk' = sk_rx_end sk"
proof -
  obtain h pl where f: "f = (h, pl)" by (cases f)
  have len: "length (daim_peer_encode_header h) = 30" by (simp add: DAIM_PEER_HEADER_SIZE_def)
  obtain sk1 where s1: "peer_recv_exact 30 p = (Inr (daim_peer_encode_header h), p\<lparr>sp_sock := Some sk1\<rparr>)"
      "segmented sk1 (pl @ rest)" "sk_tx sk1 = sk_tx sk" "sk_rx_end sk1 = sk_rx_end sk"
    using peer_recv_exact_segmented [OF assms(1,2), of 30] len by (auto simp: f frame_bytes_def)
  have plen: "nat (uint (payload_length h)) = length pl"
    using assms(3) by (simp add: f frame_ok_def)
  obtain sk2 where s2: "peer_recv_exact (length pl) (p\<lparr>sp_sock := Some sk1\<rparr>) = (Inr pl, p\<lparr>sp_sock := Some sk2\<rparr>)"
      "segmented sk2 rest" "sk_tx sk2 = sk_tx sk1" "sk_rx_end sk2 = sk_rx_end sk1"
    using peer_recv_exact_segmented [of "p\<lparr>sp_sock := Some sk1\<rparr>" sk1, OF _ s1(2), of "length pl"] by auto
  have zero: "uint (payload_length h) = 0 \<longleftrightarrow> pl = []"
  proof -
    have "uint (payload_length h) = int (length pl)"
      using plen uint_ge_0 [of "payload_length h"] by linarith
    then show ?thesis by simp
  qed
  have ver: "uint (protocol_version h) = PROTOCOL_VERSION"
    using assms(3) by (simp add: f frame_ok_def DAIM_PEER_PROTOCOL_VERSION_def PROTOCOL_VERSION_def)
  have pay: "(if uint (payload_length h) \<noteq> 0 then peer_recv_exact (nat (uint (payload_length h)))
      else act_return []) (p\<lparr>sp_sock := Some sk1\<rparr>) = (Inr pl, p\<lparr>sp_sock := Some (if uint (payload_length h) = 0 then sk1 else sk2)\<rparr>)"
    using s2 plen zero by (cases "pl = []") auto
  show ?thesis
    using s1 s2 plen zero
    by (intro exI [of _ "if uint (payload_length h) = 0 then sk1 else sk2"])
      (auto simp: peer_recv_message_def act_bind_def HEADER_SIZE_def s1(1) act_lift_def unpack_header ver pay
        act_return_def f frame_message_def)
qed

subsection \<open>Fragmented sends\<close>

lemma fragments_total:
  assumes "sizes \<noteq> []" and "\<forall>k \<in> set sizes. 0 < k"
  shows "\<exists>ps. fragments sizes frame off idx = Some (Inr ps) \<and> concat ps = drop off frame \<and> [] \<notin> set ps"
proof (induction "length frame - off" arbitrary: off idx rule: less_induct)
  case less
  show ?case
  proof (cases "off < length frame")
    case True
    let ?k = "sizes ! (idx mod length sizes)"
    have k: "0 < ?k" using assms by simp
    with True obtain ps where ps: "fragments sizes frame (off + ?k) (idx + 1) = Some (Inr ps)"
        "concat ps = drop (off + ?k) frame" "[] \<notin> set ps"
      using less [of "off + ?k" "idx + 1"] by (metis diff_less_mono2 less_add_same_cancel1)
    have "take ?k (drop off frame) @ drop (off + ?k) frame = drop off frame"
      by (metis append_take_drop_id drop_drop add.commute)
    with ps k True assms show ?thesis
      by (subst fragments.simps) (simp add: Let_def)
  next
    case False
    then show ?thesis by (subst fragments.simps) simp
  qed
qed

lemma fragments_stuck:
  assumes "off < length frame"
  shows "fragments [0] frame off idx = None"
proof -
  have "sizes = [0] \<longrightarrow> \<not> off < length frame" if "fragments sizes frame off idx = Some r"
    for sizes frame off idx r
  proof (rule fragments.raw_induct [OF _ that])
    fix f :: "nat list \<Rightarrow> bytes \<Rightarrow> nat \<Rightarrow> nat \<Rightarrow> bytes list res option" and sizes frame off idx r
    assume IH: "\<And>sizes frame off idx r. f sizes frame off idx = Some r \<Longrightarrow>
        sizes = [0] \<longrightarrow> \<not> off < length frame"
      and step: "(if off < length frame
         then if sizes = [] then Some (Inl ZeroDivisionError)
           else let size = sizes ! (idx mod length sizes)
                in Option.bind (f sizes frame (off + size) (idx + 1))
                     (\<lambda>r. Some (res_bind r (\<lambda>ps. Inr (take size (drop off frame) # ps))))
         else Some (Inr [])) = Some r"
    show "sizes = [0] \<longrightarrow> \<not> off < length frame"
      using step IH [of "[0]" frame off "idx + 1"] by (auto simp: bind_eq_Some_conv)
  qed
  with assms show ?thesis by (cases "fragments [0] frame off idx") auto
qed

text \<open>
  Property C6. Splitting a frame into small TCP writes does not change the stream: for positive
  fragment sizes the write loop ends, no write is empty, and the writes together are exactly the
  frame that an unfragmented send of the same message writes at once.
\<close>

theorem fragmented_send_same_stream:
  assumes "sizes \<noteq> []" and "\<forall>k \<in> set sizes. 0 < k" and "sp_sock p = Some sk"
    and "build_frame clock mtype payload PROTOCOL_VERSION p = (Inr frame, p')"
  shows "peer_send clock mtype payload p =
      (Inr (), p'\<lparr>sp_sock := Some (sk\<lparr>sk_tx := sk_tx sk @ [frame]\<rparr>)\<rparr>) \<and>
    (\<exists>ps. peer_send_fragmented clock mtype payload sizes p =
        Some (Inr (), p'\<lparr>sp_sock := Some (sk\<lparr>sk_tx := sk_tx sk @ ps\<rparr>)\<rparr>) \<and>
      concat ps = frame \<and> [] \<notin> set ps)"
proof -
  obtain ps where ps: "fragments sizes frame 0 0 = Some (Inr ps)" "concat ps = frame" "[] \<notin> set ps"
    using fragments_total [OF assms(1,2), of frame 0 0] by auto
  have "sp_sock p' = Some sk"
    using assms(3,4) by (auto simp: build_frame_def Let_def)
  with ps assms show ?thesis
    by (auto simp: peer_send_def peer_send_fragmented_def act_bind_def on_sock_def sock_sendall_def
        act_modify_def)
qed

definition sample_peer :: "bytes list \<Rightarrow> synthetic_peer" where
  "sample_peer rx = (SyntheticPeer_init 9 1)
     \<lparr>sp_sock := Some \<lparr>sk_rx = rx, sk_rx_end = PeerClosed, sk_tx = []\<rparr>\<rparr>"

theorem fragmented_send_same_stream_witness:
  "\<exists>q. peer_send_fragmented (\<lambda>_. 0) 8 [] default_fragment_sizes (sample_peer []) = Some (Inr (), q)"
proof -
  have "build_frame (\<lambda>_. 0) 8 [] PROTOCOL_VERSION (sample_peer []) =
      (Inr (daim_peer_encode_header (frame_header 1 8 9 1 0 0)),
       (sample_peer [])\<lparr>sp_next_message_id := 2\<rparr>)"
    by (simp add: build_frame_def pack_header header_fits_def fits_def sample_peer_def
        SyntheticPeer_init_def PROTOCOL_VERSION_def)
  from fragmented_send_same_stream [OF _ _ _ this, of default_fragment_sizes]
  show ?thesis by (fastforce simp: default_fragment_sizes_def sample_peer_def)
qed

subsection \<open>The handshake\<close>

lemma peer_send_ok:
  assumes "sp_sock p = Some sk"
    and "header_fits 1 mtype (sp_node_id p) (sp_next_message_id p) (int (length payload))
      (clock (sp_next_message_id p))"
  shows "peer_send clock mtype payload p = (Inr (), p
    \<lparr>sp_next_message_id := sp_next_message_id p + 1,
     sp_sock := Some (sk\<lparr>sk_tx := sk_tx sk @ [daim_peer_encode_header
       (frame_header 1 mtype (sp_node_id p) (sp_next_message_id p) (int (length payload))
         (clock (sp_next_message_id p))) @ payload]\<rparr>)\<rparr>)"
  using assms
  by (simp add: peer_send_def act_bind_def build_frame_def pack_header on_sock_def sock_sendall_def
      PROTOCOL_VERSION_def Let_def)

text \<open>The message types of the frames written so far: byte 1 of each header.\<close>

definition sent_types :: "socket \<Rightarrow> u8 list" where
  "sent_types sk = map (\<lambda>f. f ! 1) (sk_tx sk)"

lemma header_type_byte [simp]: "(daim_peer_encode_header h @ payload) ! Suc 0 = message_type h"
  by (simp add: daim_peer_encode_header_def put_u8_def)

text \<open>
  A sequence of message types ends the wait of the handshake: both the end of the peer's snapshot
  (7) and its snapshot request (4) have arrived, and not before the last message.
\<close>

fun finishes :: "bool \<Rightarrow> bool \<Rightarrow> u8 list \<Rightarrow> bool" where
  "finishes own served [] \<longleftrightarrow> own \<and> served"
| "finishes own served (t # ts) \<longleftrightarrow> \<not> (own \<and> served) \<and> finishes (own \<or> t = 7) (served \<or> t = 4) ts"

definition frame_type :: "c_frame \<Rightarrow> u8" where
  "frame_type f = message_type (fst f)"

definition peer_in_range :: "(int \<Rightarrow> int) \<Rightarrow> nat \<Rightarrow> synthetic_peer \<Rightarrow> bool" where
  "peer_in_range clock n p \<longleftrightarrow> fits 8 (sp_node_id p) \<and> fits 8 (sp_owner_epoch p) \<and>
     0 \<le> sp_next_message_id p \<and> sp_next_message_id p + int n < 256 ^ 8 \<and> (\<forall>i. fits 8 (clock i))"

lemma peer_in_range_header:
  "peer_in_range clock (Suc n) p \<Longrightarrow> fits 1 mtype \<Longrightarrow> plen < 256 ^ 4 \<Longrightarrow>
   header_fits 1 mtype (sp_node_id p) (sp_next_message_id p) (int plen) (clock (sp_next_message_id p))"
  by (auto simp: peer_in_range_def header_fits_def fits_def)

lemma peer_send_in_range:
  assumes "sp_sock p = Some sk" and "peer_in_range clock (Suc n) p"
    and "fits 1 mtype" and "length payload < 256 ^ 4"
  shows "\<exists>fr. peer_send clock mtype payload p = (Inr (), p\<lparr>sp_next_message_id := sp_next_message_id p + 1,
      sp_sock := Some (sk\<lparr>sk_tx := sk_tx sk @ [fr]\<rparr>)\<rparr>) \<and> fr ! Suc 0 = word_of_int mtype"
proof -
  have h: "header_fits 1 mtype (sp_node_id p) (sp_next_message_id p) (int (length payload))
      (clock (sp_next_message_id p))"
    by (rule peer_in_range_header [OF assms(2-4)])
  show ?thesis
    using peer_send_ok [where payload = payload and mtype = mtype and clock = clock, OF assms(1) h]
    by (auto simp: frame_header_def)
qed

lemma small_type: "(\<And>k. uint (w :: u8) = k \<longleftrightarrow> w = word_of_int k \<and> fits 1 k)"
  by (auto simp: uint_word_of_fits)

lemma msg_type_byte [simp]:
  "uint w = MSG_STATE_SNAPSHOT_REQUEST \<longleftrightarrow> w = 4" "uint w = MSG_STATE_SNAPSHOT_ENTRY \<longleftrightarrow> w = 6"
  "uint w = MSG_STATE_SNAPSHOT_END \<longleftrightarrow> w = 7" "uint w = MSG_HELLO \<longleftrightarrow> w = 1" for w :: u8
  unfolding small_type by (auto simp: msg_codes fits_def)

lemma frame_message_type:
  "pm_message_type (frame_message f) = MSG_STATE_SNAPSHOT_REQUEST \<longleftrightarrow> frame_type f = 4"
  "pm_message_type (frame_message f) = MSG_STATE_SNAPSHOT_ENTRY \<longleftrightarrow> frame_type f = 6"
  "pm_message_type (frame_message f) = MSG_STATE_SNAPSHOT_END \<longleftrightarrow> frame_type f = 7"
  "pm_message_type (frame_message f) = MSG_HELLO \<longleftrightarrow> frame_type f = 1"
  by (simp_all add: frame_message_def frame_type_def)

lemma drain_loop_frames:
  assumes "finishes own served (map frame_type fs)" and "\<forall>f \<in> set fs. frame_ok f"
    and "sp_sock p = Some sk" and "segmented sk (concat (map frame_bytes fs) @ rest)"
    and "peer_in_range clock (length fs) p"
  shows "\<exists>sk'. drain_loop clock count own served p =
      (Inr (count + count_list (map frame_type fs) 6),
       p\<lparr>sp_next_message_id := sp_next_message_id p + int (count_list (map frame_type fs) 4),
         sp_sock := Some sk'\<rparr>) \<and>
    segmented sk' rest \<and>
    sent_types sk' = sent_types sk @ replicate (count_list (map frame_type fs) 4) 7"
  using assms
proof (induction fs arbitrary: own served count p sk)
  case Nil
  then show ?case by (subst drain_loop.simps) (auto intro!: exI [of _ sk])
next
  case (Cons f fs)
  from Cons.prems(1) have go: "\<not> (own \<and> served)" by simp
  obtain sk1 where r: "peer_recv_message p = (Inr (frame_message f), p\<lparr>sp_sock := Some sk1\<rparr>)"
      "segmented sk1 (concat (map frame_bytes fs) @ rest)" "sk_tx sk1 = sk_tx sk"
    using recv_message_frame [OF Cons.prems(3), of f "concat (map frame_bytes fs) @ rest"] Cons.prems by auto
  have ne: "(4::u8) \<noteq> 7" "(4::u8) \<noteq> 6" "(6::u8) \<noteq> 7" "(7::u8) \<noteq> 6" "(7::u8) \<noteq> 4" "(6::u8) \<noteq> 4"
    by simp_all
  note step = drain_loop.simps [of clock count own served p] go r(1) frame_message_type ne
  show ?case
  proof (cases "frame_type f = 4")
    case True
    let ?p1 = "p\<lparr>sp_sock := Some sk1\<rparr>"
    have "peer_in_range clock (Suc (length fs)) ?p1" using Cons.prems(5) by (simp add: peer_in_range_def)
    from peer_send_in_range [OF _ this, of sk1 MSG_STATE_SNAPSHOT_END "[]"] obtain fr where
      snd: "peer_send clock MSG_STATE_SNAPSHOT_END [] ?p1 = (Inr (), p
          \<lparr>sp_next_message_id := sp_next_message_id p + 1, sp_sock := Some (sk1\<lparr>sk_tx := sk_tx sk1 @ [fr]\<rparr>)\<rparr>)"
        "fr ! Suc 0 = 7"
      by (auto simp: MSG_STATE_SNAPSHOT_END_def fits_def)
    let ?p2 = "p\<lparr>sp_next_message_id := sp_next_message_id p + 1, sp_sock := Some (sk1\<lparr>sk_tx := sk_tx sk1 @ [fr]\<rparr>)\<rparr>"
    have "peer_in_range clock (length fs) ?p2" using Cons.prems(5) by (simp add: peer_in_range_def)
    from Cons.IH [OF _ _ _ _ this, of own True "sk1\<lparr>sk_tx := sk_tx sk1 @ [fr]\<rparr>" count] Cons.prems r True snd
    show ?thesis
      by (auto simp: step sent_types_def segmented_def add.assoc)
  next
    case False
    let ?p1 = "p\<lparr>sp_sock := Some sk1\<rparr>"
    have "peer_in_range clock (length fs) ?p1" using Cons.prems(5) by (simp add: peer_in_range_def)
    note IH = Cons.IH [OF _ _ _ r(2) this]
    show ?thesis
      using IH [of own served "count + 1"] IH [of True served count] IH [of own served count] Cons.prems r False
      by (auto simp: step sent_types_def)
  qed
qed

text \<open>
  Property C7. The handshake of the Python peer against any C node: when the bytes on the socket
  are, under any TCP segmentation, a HELLO frame followed by frames of which the last one
  completes the pair "snapshot request served" and "own snapshot ended", whatever other messages
  come in between, the call returns the number of snapshot entries among them, has read exactly
  these frames, and has written HELLO, its own request, and one empty snapshot per request.
\<close>

theorem handshake_drains_snapshot:
  assumes "finishes False False (map frame_type fs)" and "frame_type hello = 1"
    and "\<forall>f \<in> set (hello # fs). frame_ok f"
    and "sp_sock p = Some sk" and "segmented sk (concat (map frame_bytes (hello # fs)) @ rest)"
    and "peer_in_range clock (length fs + 2) p"
  shows "\<exists>sk'. handshake_and_drain_snapshot clock p =
      (Inr (count_list (map frame_type fs) 6),
       p\<lparr>sp_next_message_id := sp_next_message_id p + 2 + int (count_list (map frame_type fs) 4),
         sp_sock := Some sk'\<rparr>) \<and>
    segmented sk' rest \<and>
    sent_types sk' = sent_types sk @ [1, 4] @ replicate (count_list (map frame_type fs) 4) 7"
proof -
  have epoch: "struct_pack ''>Q'' [sp_owner_epoch p] = Inr (be_bytes 8 (sp_owner_epoch p))"
    using assms(6) by (simp add: struct_pack_fits [where ws = "[8]"] peer_in_range_def)
  have r0: "peer_in_range clock (Suc (length fs + 1)) p"
    using assms(6) by simp
  from peer_send_in_range [OF assms(4) r0, of MSG_HELLO "be_bytes 8 (sp_owner_epoch p)"] obtain fr where
    s1: "peer_send clock MSG_HELLO (be_bytes 8 (sp_owner_epoch p)) p =
        (Inr (), p\<lparr>sp_next_message_id := sp_next_message_id p + 1, sp_sock := Some (sk\<lparr>sk_tx := sk_tx sk @ [fr]\<rparr>)\<rparr>)"
      "fr ! Suc 0 = 1"
    by (auto simp: MSG_HELLO_def fits_def)
  let ?sk1 = "sk\<lparr>sk_tx := sk_tx sk @ [fr]\<rparr>"
  let ?p1 = "p\<lparr>sp_next_message_id := sp_next_message_id p + 1, sp_sock := Some ?sk1\<rparr>"
  have "segmented ?sk1 (frame_bytes hello @ (concat (map frame_bytes fs) @ rest))"
    using assms(5) by (simp add: segmented_def)
  from recv_message_frame [of ?p1, OF _ this] assms(3) obtain sk2 where
    s2: "peer_recv_message ?p1 = (Inr (frame_message hello), ?p1\<lparr>sp_sock := Some sk2\<rparr>)"
      "segmented sk2 (concat (map frame_bytes fs) @ rest)" "sk_tx sk2 = sk_tx ?sk1"
    by auto
  let ?p2 = "?p1\<lparr>sp_sock := Some sk2\<rparr>"
  have "peer_in_range clock (Suc (length fs)) ?p2"
    using assms(6) by (simp add: peer_in_range_def)
  from peer_send_in_range [OF _ this, of sk2 MSG_STATE_SNAPSHOT_REQUEST "[]"] obtain fr' where
    s3: "peer_send clock MSG_STATE_SNAPSHOT_REQUEST [] ?p2 =
        (Inr (), ?p2\<lparr>sp_next_message_id := sp_next_message_id p + 1 + 1, sp_sock := Some (sk2\<lparr>sk_tx := sk_tx sk2 @ [fr']\<rparr>)\<rparr>)"
      "fr' ! Suc 0 = 4"
    by (auto simp: MSG_STATE_SNAPSHOT_REQUEST_def fits_def)
  let ?sk3 = "sk2\<lparr>sk_tx := sk_tx sk2 @ [fr']\<rparr>"
  let ?p3 = "?p2\<lparr>sp_next_message_id := sp_next_message_id p + 1 + 1, sp_sock := Some ?sk3\<rparr>"
  have "peer_in_range clock (length fs) ?p3" and "segmented ?sk3 (concat (map frame_bytes fs) @ rest)"
    using assms(6) s2(2) by (simp_all add: peer_in_range_def segmented_def)
  from drain_loop_frames [OF assms(1) _ _ this(2,1), of 0] assms(3) s1 s2 s3 assms(2)
  show ?thesis
    by (auto simp: handshake_and_drain_snapshot_def act_bind_def epoch act_lift_def
        frame_message_type(4) sent_types_def add.assoc)
qed

definition sample_frame :: "u8 \<Rightarrow> c_frame" where
  "sample_frame t = (\<lparr>protocol_version = 1, message_type = t, hdr_origin_node_id = 2, message_id = 1,
     payload_length = 0, send_time_ns = 0\<rparr>, [])"

text \<open>A stream whose end, request and two entries interleave, delivered one byte at a time.\<close>

definition sample_stream :: "bytes list" where
  "sample_stream = map (\<lambda>b. [b]) (concat (map (\<lambda>t. frame_bytes (sample_frame t)) [1, 6, 7, 6, 4]))"

lemma concat_singletons [simp]: "concat (map (\<lambda>b. [b]) xs) = xs"
  by (induction xs) simp_all

theorem handshake_drains_snapshot_witness:
  "fst (handshake_and_drain_snapshot (\<lambda>_. 0) (sample_peer sample_stream)) = Inr 2"
proof -
  let ?fs = "map sample_frame [6, 7, 6, 4]"
  have ne: "(6::u8) \<noteq> 7" "(6::u8) \<noteq> 4" "(7::u8) \<noteq> 4" "(4::u8) \<noteq> 7" "(7::u8) \<noteq> 6" "(4::u8) \<noteq> 6"
    by simp_all
  have ts: "map frame_type ?fs = [6, 7, 6, 4]" "frame_type (sample_frame 1) = 1"
    by (simp_all add: sample_frame_def frame_type_def)
  have fin: "finishes False False (map frame_type ?fs)"
    unfolding ts by (simp add: ne)
  have ok: "\<forall>f \<in> set (sample_frame 1 # ?fs). frame_ok f"
    by (simp add: sample_frame_def frame_ok_def DAIM_PEER_PROTOCOL_VERSION_def)
  have seg: "segmented \<lparr>sk_rx = sample_stream, sk_rx_end = PeerClosed, sk_tx = []\<rparr>
      (concat (map frame_bytes (sample_frame 1 # ?fs)) @ [])"
    unfolding sample_stream_def segmented_def by (auto simp del: map_append)
  have range: "peer_in_range (\<lambda>_. 0) (length ?fs + 2) (sample_peer sample_stream)"
    by (simp add: peer_in_range_def fits_def sample_peer_def SyntheticPeer_init_def)
  have sock: "sp_sock (sample_peer sample_stream) =
      Some \<lparr>sk_rx = sample_stream, sk_rx_end = PeerClosed, sk_tx = []\<rparr>"
    by (simp add: sample_peer_def)
  from handshake_drains_snapshot [OF fin ts(2) ok sock seg range] show ?thesis
    unfolding ts by (auto simp: ne)
qed

end
