(* ===== verification/Peer_Transport.thy ===== *)
theory Peer_Transport
  imports Host_Convergence Wire_Agreement
begin

text \<open>
  The message processing of the peer transport (\<open>implementation/src/daim_peer_transport.c\<close>) on one
  connection: framed sends and receives, the symmetric snapshot exchange with its bounded queue
  of deferred updates, and the steady-state handler. Receives wait for all bytes of a message
  (\<open>MSG_WAITALL\<close>), so the socket is the byte stream that is still to come, and its end is the end of
  the connection. Readings of \<open>monotonic_ns()\<close> are a parameter, one per reading. Threads, sockets
  and the reconnection timer are outside this model: one connection's thread runs alone on the
  node's state.
\<close>

subsection \<open>State\<close>

definition MAX_DEFERRED_UPDATES :: nat where "MAX_DEFERRED_UPDATES = 16"

record transport_stats =
  active_connections :: u64
  configured_peers :: u64
  reconnect_attempts :: u64
  messages_sent :: u64
  bytes_sent :: u64
  messages_received :: u64
  bytes_received :: u64
  snapshot_entries_sent :: u64
  snapshot_entries_received :: u64
  deferred_updates_replayed :: u64
  deferred_updates_overflow_forced_reconnects :: u64

definition zero_transport_stats :: transport_stats where
  "zero_transport_stats = \<lparr>active_connections = 0, configured_peers = 0, reconnect_attempts = 0, messages_sent = 0, bytes_sent = 0, messages_received = 0, bytes_received = 0,
     snapshot_entries_sent = 0, snapshot_entries_received = 0, deferred_updates_replayed = 0,
     deferred_updates_overflow_forced_reconnects = 0\<rparr>"

text \<open>
  What the thread of one connection works on: the node's host table, the transport's message
  counter, the connection's flags and peer, the frames written to its socket, whether the socket
  still takes writes, and the callbacks made so far. \<open>ls_ticks\<close> counts the clock readings.
\<close>

record link_state =
  ls_hosts :: host_state
  ls_node_id :: u64
  ls_next_message_id :: u64
  ls_active :: bool
  ls_ready :: bool
  ls_peer_node_id :: u64
  ls_writable :: bool
  ls_out :: "bytes list"
  ls_applied :: "(u64 \<times> daim_host_location \<times> daim_host_apply_result) list"
  ls_lifecycle :: "(string \<times> u64 \<times> u64) list"
  ls_stats :: transport_stats
  ls_ticks :: nat

type_synonym clock = "nat \<Rightarrow> u64"

definition upd_stats :: "(transport_stats \<Rightarrow> transport_stats) \<Rightarrow> link_state \<Rightarrow> link_state" where
  "upd_stats f s = s\<lparr>ls_stats := f (ls_stats s)\<rparr>"

definition fire_lifecycle :: "string \<Rightarrow> u64 \<Rightarrow> u64 \<Rightarrow> link_state \<Rightarrow> link_state" where
  "fire_lifecycle event peer detail s = s\<lparr>ls_lifecycle := ls_lifecycle s @ [(event, peer, detail)]\<rparr>"

subsection \<open>Framed messages\<close>

definition send_framed :: "clock \<Rightarrow> u8 \<Rightarrow> bytes \<Rightarrow> link_state \<Rightarrow> int \<times> link_state" where
  "send_framed clock mtype payload s =
     (if length payload > DAIM_PEER_MAX_PAYLOAD_SIZE then (- 1, s)
      else if \<not> ls_active s then (- 1, s)
      else
        let mid = ls_next_message_id s + 1;
            hdr = \<lparr>protocol_version = DAIM_PEER_PROTOCOL_VERSION, message_type = mtype,
                   hdr_origin_node_id = ls_node_id s, message_id = mid,
                   payload_length = of_nat (length payload), send_time_ns = clock (ls_ticks s)\<rparr>;
            buf = daim_peer_encode_header hdr @ payload;
            s1 = s\<lparr>ls_next_message_id := mid, ls_ticks := ls_ticks s + 1\<rparr>
        in if \<not> ls_writable s then (- 1, s1)
           else (0, upd_stats (\<lambda>st. st\<lparr>messages_sent := messages_sent st + 1,
                                        bytes_sent := bytes_sent st + of_nat (length buf)\<rparr>)
                    (s1\<lparr>ls_out := ls_out s1 @ [buf]\<rparr>)))"

definition recv_framed :: "bytes \<Rightarrow> (daim_peer_header \<times> bytes \<times> bytes) option" where
  "recv_framed stream =
     (if length stream < DAIM_PEER_HEADER_SIZE then None
      else case daim_peer_decode_header (take DAIM_PEER_HEADER_SIZE stream) of
        Inl _ \<Rightarrow> None
      | Inr hdr \<Rightarrow>
          let rest = drop DAIM_PEER_HEADER_SIZE stream; n = unat (payload_length hdr)
          in if n > DAIM_PEER_MAX_PAYLOAD_SIZE then None
             else if length rest < n then None
             else Some (hdr, take n rest, drop n rest))"

lemma recv_framed_shorter: "recv_framed stream = Some (hdr, payload, rest) \<Longrightarrow> length rest < length stream"
  by (auto simp: recv_framed_def DAIM_PEER_HEADER_SIZE_def Let_def split: if_splits sum.splits)

definition count_received :: "daim_peer_header \<Rightarrow> link_state \<Rightarrow> link_state" where
  "count_received hdr = upd_stats (\<lambda>st. st\<lparr>messages_received := messages_received st + 1,
     bytes_received := bytes_received st + 30 + ucast (payload_length hdr)\<rparr>)"

subsection \<open>Snapshots\<close>

fun snapshot_emit_all :: "clock \<Rightarrow> daim_host_location list \<Rightarrow> link_state \<Rightarrow> bool \<times> link_state" where
  "snapshot_emit_all clock [] s = (True, s)"
| "snapshot_emit_all clock (e # es) s =
     (case send_framed clock (message_type_code DAIM_PEER_MSG_STATE_SNAPSHOT_ENTRY)
             (daim_peer_encode_host_location e) s of
        (rc, s') \<Rightarrow>
          if rc \<noteq> 0 then (False, s')
          else snapshot_emit_all clock es
                 (upd_stats (\<lambda>st. st\<lparr>snapshot_entries_sent := snapshot_entries_sent st + 1\<rparr>) s'))"

definition serve_snapshot_request :: "clock \<Rightarrow> link_state \<Rightarrow> int \<times> link_state" where
  "serve_snapshot_request clock s =
     (case daim_host_export_snapshot (ls_hosts s) of
        None \<Rightarrow> (- 1, s)
      | Some entries \<Rightarrow>
          (case snapshot_emit_all clock entries s of
             (ok, s') \<Rightarrow> if \<not> ok then (- 1, s')
               else send_framed clock (message_type_code DAIM_PEER_MSG_STATE_SNAPSHOT_END) [] s'))"

text \<open>
  Handing a decoded location to the table and to the callback. The table operation reads the
  clock before the callback's stamp does.
\<close>

definition apply_and_report ::
    "clock \<Rightarrow> (u64 \<Rightarrow> daim_host_location \<Rightarrow> host_state \<Rightarrow> daim_host_apply_result \<times> host_state)
     \<Rightarrow> u64 \<Rightarrow> daim_host_location \<Rightarrow> link_state \<Rightarrow> link_state" where
  "apply_and_report clock table_op from loc s =
     (case table_op (clock (ls_ticks s)) loc (ls_hosts s) of
        (result, h) \<Rightarrow>
          s\<lparr>ls_hosts := h, ls_ticks := ls_ticks s + 2,
            ls_applied := ls_applied s @ [(from, loc\<lparr>applied_at_ns := clock (ls_ticks s + 1)\<rparr>, result)]\<rparr>)"

definition replay_deferred :: "clock \<Rightarrow> (u64 \<times> daim_host_location) list \<Rightarrow> link_state \<Rightarrow> link_state" where
  "replay_deferred clock deferred s =
     fold (\<lambda>(origin, loc) s.
       upd_stats (\<lambda>st. st\<lparr>deferred_updates_replayed := deferred_updates_replayed st + 1\<rparr>)
         (apply_and_report clock daim_host_apply_remote origin loc s)) deferred s"

text \<open>
  The receive loop of \<open>exchange_snapshots\<close>, from the queue of deferred updates and the number of
  applied entries so far. The result is the returned count or -1, and the rest of the stream.
\<close>

function exchange_loop ::
    "clock \<Rightarrow> bytes \<Rightarrow> (u64 \<times> daim_host_location) list \<Rightarrow> int \<Rightarrow> link_state \<Rightarrow> int \<times> link_state \<times> bytes" where
  "exchange_loop clock stream deferred applied s =
     (case recv_framed stream of
        None \<Rightarrow> (- 1, s, [])
      | Some (hdr, payload, rest) \<Rightarrow>
          let s = count_received hdr s
          in if message_type hdr = message_type_code DAIM_PEER_MSG_STATE_SNAPSHOT_REQUEST
             then (case serve_snapshot_request clock s of
                     (rc, s) \<Rightarrow>
                       if rc \<noteq> 0 then (- 1, s, rest)
                       else exchange_loop clock rest deferred applied
                              (fire_lifecycle ''snapshot_sent'' (ls_peer_node_id s) 0 s))
             else if message_type hdr = message_type_code DAIM_PEER_MSG_STATE_SNAPSHOT_ENTRY
             then (case daim_peer_decode_host_location payload of
                     Inl _ \<Rightarrow> exchange_loop clock rest deferred applied s
                   | Inr loc \<Rightarrow>
                       exchange_loop clock rest deferred (applied + 1)
                         (upd_stats (\<lambda>st. st\<lparr>snapshot_entries_received := snapshot_entries_received st + 1\<rparr>)
                           (apply_and_report clock daim_host_import_snapshot_entry (hdr_origin_node_id hdr) loc s)))
             else if message_type hdr = message_type_code DAIM_PEER_MSG_STATE_SNAPSHOT_END
             then (applied, replay_deferred clock deferred s, rest)
             else if message_type hdr = message_type_code DAIM_PEER_MSG_HOST_LOCATION_UPDATE
             then (case daim_peer_decode_host_location payload of
                     Inl _ \<Rightarrow> exchange_loop clock rest deferred applied s
                   | Inr loc \<Rightarrow>
                       if length deferred < MAX_DEFERRED_UPDATES
                       then exchange_loop clock rest (deferred @ [(hdr_origin_node_id hdr, loc)]) applied s
                       else (- 1, upd_stats (\<lambda>st. st\<lparr>deferred_updates_overflow_forced_reconnects :=
                               deferred_updates_overflow_forced_reconnects st + 1\<rparr>) s, rest))
             else exchange_loop clock rest deferred applied s)"
  by pat_completeness auto
termination
  by (relation "measure (\<lambda>(clock, stream, deferred, applied, s). length stream)")
    (auto dest: recv_framed_shorter)

declare exchange_loop.simps [simp del]

definition exchange_snapshots :: "clock \<Rightarrow> bytes \<Rightarrow> link_state \<Rightarrow> int \<times> link_state \<times> bytes" where
  "exchange_snapshots clock stream s =
     (case send_framed clock (message_type_code DAIM_PEER_MSG_STATE_SNAPSHOT_REQUEST) [] s of
        (rc, s') \<Rightarrow> if rc \<noteq> 0 then (- 1, s', stream) else exchange_loop clock stream [] 0 s')"

subsection \<open>Steady state\<close>

definition handle_message :: "clock \<Rightarrow> daim_peer_header \<Rightarrow> bytes \<Rightarrow> link_state \<Rightarrow> link_state" where
  "handle_message clock hdr payload s =
     (if message_type hdr = message_type_code DAIM_PEER_MSG_HOST_LOCATION_UPDATE
      then (case daim_peer_decode_host_location payload of
              Inl _ \<Rightarrow> s
            | Inr loc \<Rightarrow> apply_and_report clock daim_host_apply_remote (hdr_origin_node_id hdr) loc s)
      else if message_type hdr = message_type_code DAIM_PEER_MSG_STATE_SNAPSHOT_REQUEST
      then snd (serve_snapshot_request clock s)
      else s)"

function steady_loop :: "clock \<Rightarrow> bytes \<Rightarrow> link_state \<Rightarrow> link_state" where
  "steady_loop clock stream s =
     (case recv_framed stream of
        None \<Rightarrow> s
      | Some (hdr, payload, rest) \<Rightarrow>
          steady_loop clock rest (handle_message clock hdr payload (count_received hdr s)))"
  by pat_completeness auto
termination
  by (relation "measure (\<lambda>(clock, stream, s). length stream)") (auto dest: recv_framed_shorter)

declare steady_loop.simps [simp del]

text \<open>
  The lifetime of one connection up to its drop, on the bytes that arrive during it. The
  \<open>disconnected\<close> event carries the captured \<open>errno\<close> in the code, which is left 0 here; a steady state
  that the transport itself stops (reason 0) is not modelled.
\<close>

definition close_link :: "u64 \<Rightarrow> link_state \<Rightarrow> link_state" where
  "close_link reason s =
     (let s1 = fire_lifecycle ''disconnect_reason'' (ls_peer_node_id s) reason s
      in (fire_lifecycle ''disconnected'' (ls_peer_node_id s1) 0 s1)\<lparr>ls_active := False, ls_ready := False\<rparr>)"

definition run_connection :: "clock \<Rightarrow> u64 \<Rightarrow> bool \<Rightarrow> bytes \<Rightarrow> link_state \<Rightarrow> link_state" where
  "run_connection clock owner_ep outbound stream s0 =
     (let s = s0\<lparr>ls_active := True, ls_ready := False, ls_peer_node_id := 0\<rparr>
      in case send_framed clock (message_type_code DAIM_PEER_MSG_HELLO) (daim_peer_encode_hello owner_ep) s of
        (rc, s1) \<Rightarrow>
          if rc \<noteq> 0 then close_link 1 s1
          else case recv_framed stream of
            None \<Rightarrow> close_link 2 s1
          | Some (hdr, payload, rest) \<Rightarrow>
              if message_type hdr \<noteq> message_type_code DAIM_PEER_MSG_HELLO then close_link 2 s1
              else
                let s2 = fire_lifecycle ''connected'' (hdr_origin_node_id hdr) (if outbound then 1 else 0)
                           (s1\<lparr>ls_peer_node_id := hdr_origin_node_id hdr\<rparr>)
                in case exchange_snapshots clock rest s2 of
                  (applied, s3, rest') \<Rightarrow>
                    if applied < 0 then close_link 3 s3
                    else close_link 4 (steady_loop clock rest'
                           ((fire_lifecycle ''snapshot_received'' (ls_peer_node_id s3) (word_of_int applied) s3)
                              \<lparr>ls_ready := True\<rparr>)))"

subsection \<open>Reconnection backoff\<close>

definition BACKOFF_BASE_MS :: int where "BACKOFF_BASE_MS = 100"
definition BACKOFF_CAP_MS :: int where "BACKOFF_CAP_MS = 5000"

definition next_backoff :: "int \<Rightarrow> int" where
  "next_backoff ms = (let d = ms * 2 in if d > BACKOFF_CAP_MS then BACKOFF_CAP_MS else d)"

end
