(* ===== verification/Transport_Laws.thy ===== *)
theory Transport_Laws
  imports Peer_Transport
begin

text \<open>
  What the snapshot exchange guarantees: every entry of the peer's snapshot and every update that
  arrives during the exchange is applied, entries first, and a served snapshot carries the whole
  table over. The steady state applies updates one by one.
\<close>

subsection \<open>Sending and receiving frames\<close>

definition link_up :: "link_state \<Rightarrow> bool" where
  "link_up s \<longleftrightarrow> ls_active s \<and> ls_writable s \<and> ready (ls_hosts s)"

definition same_link :: "link_state \<Rightarrow> link_state \<Rightarrow> bool" where
  "same_link s s' \<longleftrightarrow> ls_active s' = ls_active s \<and> ls_writable s' = ls_writable s \<and>
     ls_node_id s' = ls_node_id s \<and> ls_hosts s' = ls_hosts s \<and> ls_applied s' = ls_applied s"

lemma same_link_trans: "same_link s s' \<Longrightarrow> same_link s' s'' \<Longrightarrow> same_link s s''"
  by (simp add: same_link_def)

lemma same_link_up: "same_link s s' \<Longrightarrow> link_up s' = link_up s"
  by (simp add: same_link_def link_up_def)

lemma same_link_updates [simp]:
  "same_link s s" "same_link s (upd_stats f s)" "same_link s (fire_lifecycle e n d s)"
  "same_link s (count_received hdr s)"
  by (simp_all add: same_link_def upd_stats_def fire_lifecycle_def count_received_def)

definition small_frame :: "c_frame \<Rightarrow> bool" where
  "small_frame f \<longleftrightarrow> frame_ok f \<and> length (snd f) \<le> DAIM_PEER_MAX_PAYLOAD_SIZE"

lemma send_framed_ok:
  assumes "ls_active s" and "ls_writable s" and "length payload \<le> DAIM_PEER_MAX_PAYLOAD_SIZE"
  shows "\<exists>hdr s'. send_framed clock mtype payload s = (0, s') \<and> same_link s s' \<and>
    ls_out s' = ls_out s @ [frame_bytes (hdr, payload)] \<and> small_frame (hdr, payload) \<and>
    message_type hdr = mtype \<and> hdr_origin_node_id hdr = ls_node_id s"
proof -
  have "unat (of_nat (length payload) :: u32) = length payload"
    using assms(3) by (simp add: unat_of_nat take_bit_eq_mod DAIM_PEER_MAX_PAYLOAD_SIZE_def)
  then show ?thesis
    using assms
    by (intro exI [of _ "\<lparr>protocol_version = DAIM_PEER_PROTOCOL_VERSION, message_type = mtype,
          hdr_origin_node_id = ls_node_id s, message_id = ls_next_message_id s + 1,
          payload_length = of_nat (length payload), send_time_ns = clock (ls_ticks s)\<rparr>"])
      (simp add: send_framed_def Let_def frame_bytes_def small_frame_def frame_ok_def same_link_def upd_stats_def)
qed

lemma recv_framed_frame:
  assumes "small_frame f"
  shows "recv_framed (frame_bytes f @ rest) = Some (fst f, snd f, rest)"
proof -
  obtain h pl where f: "f = (h, pl)" by (cases f)
  have "header_wf h" using assms by (simp add: f small_frame_def frame_ok_def header_wf_def)
  then have "daim_peer_decode_header (daim_peer_encode_header h) = Inr h"
    using header_roundtrip [of h "[]"] by simp
  then show ?thesis
    using assms by (simp add: recv_framed_def frame_bytes_def f small_frame_def frame_ok_def Let_def)
qed

lemma snapshot_emit_all_ok:
  assumes "ls_active s" and "ls_writable s" and "\<forall>e \<in> set es. location_wf e"
  shows "\<exists>fs s'. snapshot_emit_all clock es s = (True, s') \<and> same_link s s' \<and>
    ls_out s' = ls_out s @ map frame_bytes fs \<and> map snd fs = map daim_peer_encode_host_location es \<and>
    (\<forall>f \<in> set fs. small_frame f \<and> frame_type f = 6 \<and> hdr_origin_node_id (fst f) = ls_node_id s)"
  using assms
proof (induction es arbitrary: s)
  case Nil
  then show ?case by (intro exI [of _ "[]"]) simp
next
  case (Cons e es)
  have "length (daim_peer_encode_host_location e) = DAIM_PEER_HOST_LOCATION_WIRE_SIZE"
    using Cons.prems by (simp add: location_codec.encode_length)
  then obtain hdr s1 where s1: "send_framed clock 6 (daim_peer_encode_host_location e) s = (0, s1)" "same_link s s1"
      "ls_out s1 = ls_out s @ [frame_bytes (hdr, daim_peer_encode_host_location e)]"
      "small_frame (hdr, daim_peer_encode_host_location e)" "message_type hdr = 6" "hdr_origin_node_id hdr = ls_node_id s"
    using send_framed_ok [OF Cons.prems(1,2), of "daim_peer_encode_host_location e" clock 6]
    by (auto simp: DAIM_PEER_HOST_LOCATION_WIRE_SIZE_def DAIM_PEER_MAX_PAYLOAD_SIZE_def)
  let ?s2 = "upd_stats (\<lambda>st. st\<lparr>snapshot_entries_sent := snapshot_entries_sent st + 1\<rparr>) s1"
  have s2: "same_link s ?s2" "ls_out ?s2 = ls_out s1"
    using s1(2) by (simp_all add: same_link_def upd_stats_def)
  then obtain fs s' where ih: "snapshot_emit_all clock es ?s2 = (True, s')" "same_link ?s2 s'"
      "ls_out s' = ls_out ?s2 @ map frame_bytes fs" "map snd fs = map daim_peer_encode_host_location es"
      "\<forall>f \<in> set fs. small_frame f \<and> frame_type f = 6 \<and> hdr_origin_node_id (fst f) = ls_node_id ?s2"
    using Cons.IH [of ?s2] Cons.prems by (auto simp: same_link_def)
  then show ?case
    using s1 s2 same_link_trans [OF s2(1) ih(2)]
    by (intro exI [of _ "(hdr, daim_peer_encode_host_location e) # fs"] exI [of _ s'])
      (auto simp: frame_type_def same_link_def)
qed

definition wf_table :: "host_state \<Rightarrow> bool" where
  "wf_table h \<longleftrightarrow> (\<forall>e \<in> set (table h). location_wf e)"

lemma serve_snapshot_ok:
  assumes "link_up s" and "wf_table (ls_hosts s)"
  shows "\<exists>fs s'. serve_snapshot_request clock s = (0, s') \<and> same_link s s' \<and>
    ls_out s' = ls_out s @ map frame_bytes fs \<and>
    map snd fs = map daim_peer_encode_host_location (table (ls_hosts s)) @ [[]] \<and>
    map frame_type fs = replicate (length (table (ls_hosts s))) 6 @ [7] \<and>
    (\<forall>f \<in> set fs. small_frame f \<and> hdr_origin_node_id (fst f) = ls_node_id s)"
proof -
  have up: "ls_active s" "ls_writable s" "ready (ls_hosts s)" using assms(1) by (simp_all add: link_up_def)
  obtain fs s1 where e: "snapshot_emit_all clock (table (ls_hosts s)) s = (True, s1)" "same_link s s1"
      "ls_out s1 = ls_out s @ map frame_bytes fs"
      "map snd fs = map daim_peer_encode_host_location (table (ls_hosts s))"
      "\<forall>f \<in> set fs. small_frame f \<and> frame_type f = 6 \<and> hdr_origin_node_id (fst f) = ls_node_id s"
    using snapshot_emit_all_ok [OF up(1,2), of "table (ls_hosts s)" clock] assms(2) by (auto simp: wf_table_def)
  obtain hdr s' where s': "send_framed clock 7 [] s1 = (0, s')" "same_link s1 s'"
      "ls_out s' = ls_out s1 @ [frame_bytes (hdr, [])]" "small_frame (hdr, [])" "message_type hdr = 7"
      "hdr_origin_node_id hdr = ls_node_id s1"
    using send_framed_ok [of s1 "[]" clock 7] up e(2) by (auto simp: same_link_def)
  have "length fs = length (table (ls_hosts s))"
    using arg_cong [OF e(4), of length] by simp
  moreover have "map frame_type fs = replicate (length fs) 6"
    using e(5) by (intro replicate_eqI [symmetric, THEN sym]) (auto simp: in_set_conv_nth)
  ultimately show ?thesis
    using e s' up same_link_trans [OF e(2) s'(2)]
    by (intro exI [of _ "fs @ [(hdr, [])]"] exI [of _ s'])
      (auto simp: serve_snapshot_request_def daim_host_export_snapshot_def frame_type_def same_link_def)
qed

subsection \<open>The exchange\<close>

text \<open>The locations carried by the well-formed frames of one type, in order.\<close>

definition carried :: "u8 \<Rightarrow> c_frame list \<Rightarrow> daim_host_location list" where
  "carried t fs = concat (map (\<lambda>f. if frame_type f = t
     then (case daim_peer_decode_host_location (snd f) of Inl _ \<Rightarrow> [] | Inr l \<Rightarrow> [l]) else []) fs)"

lemma carried_simps [simp]:
  "carried t [] = []"
  "carried t (f # fs) = (if frame_type f = t
     then (case daim_peer_decode_host_location (snd f) of Inl _ \<Rightarrow> [] | Inr l \<Rightarrow> [l]) else []) @ carried t fs"
  "carried t (fs @ gs) = carried t fs @ carried t gs"
  by (simp_all add: carried_def)

lemma apply_updates_append:
  "apply_updates (us @ vs) s = (fst (apply_updates us s) @ fst (apply_updates vs (snd (apply_updates us s))),
     snd (apply_updates vs (snd (apply_updates us s))))"
  by (induction us arbitrary: s) (auto simp: apply_updates_simps split: prod.splits)

text \<open>Applying locations through the link is applying them to the host table, at some times.\<close>

definition applies :: "link_state \<Rightarrow> daim_host_location list \<Rightarrow> link_state \<Rightarrow> bool" where
  "applies s locs s' \<longleftrightarrow>
     (\<exists>us. map snd us = locs \<and> ls_hosts s' = snd (apply_updates us (ls_hosts s)) \<and>
       map (\<lambda>x. snd (snd x)) (ls_applied s') = map (\<lambda>x. snd (snd x)) (ls_applied s) @ fst (apply_updates us (ls_hosts s)) \<and>
       ls_active s' = ls_active s \<and> ls_writable s' = ls_writable s \<and> ls_node_id s' = ls_node_id s)"

lemma applies_refl [simp]: "applies s [] s"
  by (auto simp: applies_def intro: exI [of _ "[]"])

lemma applies_trans: "applies s ls s' \<Longrightarrow> applies s' ms s'' \<Longrightarrow> applies s (ls @ ms) s''"
proof -
  assume "applies s ls s'" "applies s' ms s''"
  then obtain us vs where "map snd us = ls" "ls_hosts s' = snd (apply_updates us (ls_hosts s))"
      "map (\<lambda>x. snd (snd x)) (ls_applied s') = map (\<lambda>x. snd (snd x)) (ls_applied s) @ fst (apply_updates us (ls_hosts s))"
      "map snd vs = ms" "ls_hosts s'' = snd (apply_updates vs (ls_hosts s'))"
      "map (\<lambda>x. snd (snd x)) (ls_applied s'') = map (\<lambda>x. snd (snd x)) (ls_applied s') @ fst (apply_updates vs (ls_hosts s'))"
      "ls_active s' = ls_active s" "ls_writable s' = ls_writable s" "ls_node_id s' = ls_node_id s"
      "ls_active s'' = ls_active s'" "ls_writable s'' = ls_writable s'" "ls_node_id s'' = ls_node_id s'"
    unfolding applies_def by blast
  then show ?thesis
    unfolding applies_def by (intro exI [of _ "us @ vs"]) (simp add: apply_updates_append)
qed

lemma applies_same: "same_link s s' \<Longrightarrow> applies s [] s'"
  by (auto simp: applies_def same_link_def intro: exI [of _ "[]"])

lemma applies_one: "applies s [loc] (apply_and_report clock daim_host_apply_remote from loc s)"
  unfolding applies_def
  by (intro exI [of _ "[(clock (ls_ticks s), loc)]"])
    (auto simp: apply_and_report_def apply_updates_simps split: prod.splits)

lemma applies_import: "applies s [loc] (apply_and_report clock daim_host_import_snapshot_entry from loc s)"
  unfolding import_is_apply by (rule applies_one)

lemma applies_up: "applies s locs s' \<Longrightarrow> link_up s \<Longrightarrow> link_up s'"
proof -
  have "ready (snd (apply_updates us h)) = ready h" for us h
  proof (induction us arbitrary: h)
    case (Cons x us)
    then show ?case by (cases x) (simp add: apply_updates_simps del: apply_updates.simps)
  qed simp
  then show "applies s locs s' \<Longrightarrow> link_up s \<Longrightarrow> link_up s'"
    by (auto simp: applies_def link_up_def)
qed

lemma applies_replay: "applies s (map snd deferred) (replay_deferred clock deferred s)"
proof (induction deferred arbitrary: s)
  case (Cons d deferred)
  obtain origin loc where d: "d = (origin, loc)" by (cases d)
  let ?s = "upd_stats (\<lambda>st. st\<lparr>deferred_updates_replayed := deferred_updates_replayed st + 1\<rparr>)
      (apply_and_report clock daim_host_apply_remote origin loc s)"
  have "applies s [loc] ?s"
    using applies_trans [OF applies_one [of s loc clock origin]
      applies_same [of "apply_and_report clock daim_host_apply_remote origin loc s" ?s]] by simp
  from applies_trans [OF this Cons.IH [of ?s]] show ?case
    by (simp add: replay_deferred_def d)
qed (simp add: replay_deferred_def)

lemma exchange_step:
  assumes "small_frame f"
  shows "exchange_loop clock (frame_bytes f @ rest) deferred applied s =
    (let s = count_received (fst f) s
     in if frame_type f = 4
        then (case serve_snapshot_request clock s of
                (rc, s) \<Rightarrow> if rc \<noteq> 0 then (- 1, s, rest)
                  else exchange_loop clock rest deferred applied (fire_lifecycle ''snapshot_sent'' (ls_peer_node_id s) 0 s))
        else if frame_type f = 6
        then (case daim_peer_decode_host_location (snd f) of
                Inl _ \<Rightarrow> exchange_loop clock rest deferred applied s
              | Inr loc \<Rightarrow> exchange_loop clock rest deferred (applied + 1)
                  (upd_stats (\<lambda>st. st\<lparr>snapshot_entries_received := snapshot_entries_received st + 1\<rparr>)
                    (apply_and_report clock daim_host_import_snapshot_entry (hdr_origin_node_id (fst f)) loc s)))
        else if frame_type f = 7 then (applied, replay_deferred clock deferred s, rest)
        else if frame_type f = 3
        then (case daim_peer_decode_host_location (snd f) of
                Inl _ \<Rightarrow> exchange_loop clock rest deferred applied s
              | Inr loc \<Rightarrow>
                  if length deferred < MAX_DEFERRED_UPDATES
                  then exchange_loop clock rest (deferred @ [(hdr_origin_node_id (fst f), loc)]) applied s
                  else (- 1, upd_stats (\<lambda>st. st\<lparr>deferred_updates_overflow_forced_reconnects :=
                          deferred_updates_overflow_forced_reconnects st + 1\<rparr>) s, rest))
        else exchange_loop clock rest deferred applied s)"
  by (subst exchange_loop.simps) (simp only: recv_framed_frame [OF assms] option.case prod.case
      message_type_code.simps frame_type_def)

lemma wf_table_applies:
  assumes "applies s locs s'" and "wf_table (ls_hosts s)" and "\<forall>l \<in> set locs. location_wf l"
  shows "wf_table (ls_hosts s')"
proof -
  have one: "wf_table (snd (daim_host_apply_remote now u h))" if "wf_table h" "location_wf u" for now u h
  proof -
    have "table (snd (daim_host_apply_remote now u h)) = (if ready h then snd (apply_table (node_id h) now u (table h)) else table h)"
      by (simp add: daim_host_apply_remote_def apply_locked_def split: prod.splits)
    moreover have "\<forall>e \<in> set (snd (apply_table (node_id h) now u (table h))). location_wf e"
    proof (cases "find_index (table h) (mac u)")
      case None
      then show ?thesis using that
        by (auto simp: apply_table_def wf_table_def location_wf_def remote_record_def)
    next
      case (Some i)
      then have "i < length (table h)" using find_index_Some by blast
      then have "location_wf (updated_record now (table h ! i) u)"
        using that(1) by (simp add: wf_table_def location_wf_def)
      then show ?thesis using Some that(1)
        by (auto simp: apply_table_def wf_table_def Let_def dest!: set_update_subset_insert [THEN subsetD])
    qed
    ultimately show ?thesis using that(1) by (simp add: wf_table_def)
  qed
  have "wf_table (snd (apply_updates us h))" if "wf_table h" "\<forall>l \<in> set (map snd us). location_wf l" for us h
    using that
  proof (induction us arbitrary: h)
    case (Cons x us)
    then show ?case by (cases x) (simp add: apply_updates_simps one del: apply_updates.simps)
  qed simp
  with assms show ?thesis by (auto simp: applies_def)
qed

lemma decoded_wf: "daim_peer_decode_host_location pl = Inr l \<Longrightarrow> location_wf l"
  by (auto simp: daim_peer_decode_host_location_def location_wf_def MAC_ADDR_LEN_def
      DAIM_PEER_HOST_LOCATION_WIRE_SIZE_def split: if_splits prod.splits)

lemma exchange_frames:
  assumes "\<forall>f \<in> set fs. small_frame f \<and> frame_type f \<noteq> 7" and "small_frame fend" and "frame_type fend = 7"
    and "length deferred + length (carried 3 fs) \<le> MAX_DEFERRED_UPDATES"
    and "link_up s" and "wf_table (ls_hosts s)"
  shows "\<exists>s'. exchange_loop clock (concat (map frame_bytes fs) @ frame_bytes fend @ rest) deferred k s =
      (k + int (length (carried 6 fs)), s', rest) \<and>
    applies s (carried 6 fs @ map snd deferred @ carried 3 fs) s'"
  using assms(1,4-6)
proof (induction fs arbitrary: deferred k s)
  case Nil
  let ?s = "count_received (fst fend) s"
  have "exchange_loop clock (frame_bytes fend @ rest) deferred k s = (k, replay_deferred clock deferred ?s, rest)"
    by (simp add: exchange_step [OF assms(2)] assms(3) Let_def)
  moreover have "applies s (map snd deferred) (replay_deferred clock deferred ?s)"
    using applies_trans [OF applies_same [of s ?s] applies_replay [of ?s deferred clock]] by simp
  ultimately show ?case by simp
next
  case (Cons f fs)
  let ?rest = "concat (map frame_bytes fs) @ frame_bytes fend @ rest"
  let ?s = "count_received (fst f) s"
  have f: "small_frame f" "frame_type f \<noteq> 7" using Cons.prems(1) by simp_all
  have sl: "same_link s ?s" by simp
  have up: "link_up ?s" "wf_table (ls_hosts ?s)" "applies s [] ?s"
    using same_link_up [OF sl] applies_same [OF sl] sl Cons.prems(3,4) by (simp_all add: same_link_def)
  note step = exchange_step [OF f(1), of clock ?rest deferred k s]
  have len6: "carried 6 (f # fs) = carried 6 fs" if "frame_type f \<noteq> 6" using that by simp
  have len3: "carried 3 (f # fs) = carried 3 fs" if "frame_type f \<noteq> 3" using that by simp
  have ne: "(4::u8) \<noteq> 6" "(4::u8) \<noteq> 3" "(6::u8) \<noteq> 3" "(3::u8) \<noteq> 6" "(6::u8) \<noteq> 4" "(3::u8) \<noteq> 4" "(3::u8) \<noteq> 7"
    by simp_all
  have go: ?case if e: "exchange_loop clock (frame_bytes f @ ?rest) deferred k s = exchange_loop clock ?rest d' k' s1"
    and a: "applies s ls s1" and w: "\<forall>l \<in> set ls. location_wf l"
    and k': "k' + int (length (carried 6 fs)) = k + int (length (carried 6 (f # fs)))"
    and d': "length d' + length (carried 3 fs) \<le> MAX_DEFERRED_UPDATES"
    and c: "ls @ carried 6 fs @ map snd d' @ carried 3 fs = carried 6 (f # fs) @ map snd deferred @ carried 3 (f # fs)"
    for d' k' s1 ls
  proof -
    have small: "\<forall>f \<in> set fs. small_frame f \<and> frame_type f \<noteq> 7" using Cons.prems(1) by simp
    from Cons.IH [OF small d' applies_up [OF a Cons.prems(3)] wf_table_applies [OF a Cons.prems(4) w], of k']
    obtain s' where ih: "exchange_loop clock ?rest d' k' s1 = (k' + int (length (carried 6 fs)), s', rest)"
        "applies s1 (carried 6 fs @ map snd d' @ carried 3 fs) s'" by (elim exE conjE)
    have "applies s (carried 6 (f # fs) @ map snd deferred @ carried 3 (f # fs)) s'"
      using applies_trans [OF a ih(2)] c by (simp only:)
    moreover have "exchange_loop clock (concat (map frame_bytes (f # fs)) @ frame_bytes fend @ rest) deferred k s =
        (k + int (length (carried 6 (f # fs))), s', rest)"
      using e ih(1) k' by (simp only: concat.simps list.map append_assoc)
    ultimately show ?case by blast
  qed
  consider "frame_type f = 4" | "frame_type f = 6" | "frame_type f = 3" | "frame_type f \<notin> {3, 4, 6, 7}"
    using f(2) by auto
  then show ?case
  proof cases
    case 1
    obtain s1 where s1: "serve_snapshot_request clock ?s = (0, s1)" "same_link ?s s1"
      using serve_snapshot_ok [OF up(1,2), of clock] by auto
    let ?s1 = "fire_lifecycle ''snapshot_sent'' (ls_peer_node_id s1) 0 s1"
    have "applies s [] ?s1"
      using applies_trans [OF up(3) applies_same [OF same_link_trans [OF s1(2), of ?s1]]] by simp
    with 1 s1(1) Cons.prems(2) ne show ?thesis
      by (intro go [of deferred k ?s1 "[]"]) (simp_all add: step Let_def)
  next
    case 2
    show ?thesis
    proof (cases "daim_peer_decode_host_location (snd f)")
      case (Inl e)
      with 2 Cons.prems(2) up(3) ne show ?thesis
        by (intro go [of deferred k ?s "[]"]) (simp_all add: step Let_def)
    next
      case (Inr loc)
      let ?a = "apply_and_report clock daim_host_import_snapshot_entry (hdr_origin_node_id (fst f)) loc ?s"
      let ?s1 = "upd_stats (\<lambda>st. st\<lparr>snapshot_entries_received := snapshot_entries_received st + 1\<rparr>) ?a"
      have "applies s [loc] ?s1"
        using applies_trans [OF applies_trans [OF up(3) applies_import
            [of ?s loc clock "hdr_origin_node_id (fst f)"]] applies_same [of ?a ?s1]] by simp
      with 2 Inr Cons.prems(2) ne decoded_wf [OF Inr] show ?thesis
        by (intro go [of deferred "k + 1" ?s1 "[loc]"]) (simp_all add: step Let_def)
    qed
  next
    case 3
    show ?thesis
    proof (cases "daim_peer_decode_host_location (snd f)")
      case (Inl e)
      with 3 Cons.prems(2) up(3) ne show ?thesis
        by (intro go [of deferred k ?s "[]"]) (simp_all add: step Let_def)
    next
      case (Inr loc)
      with 3 Cons.prems(2) up(3) ne show ?thesis
        by (intro go [of "deferred @ [(hdr_origin_node_id (fst f), loc)]" k ?s "[]"])
          (simp_all add: step Let_def)
    qed
  next
    case 4
    with Cons.prems(2) up(3) show ?thesis
      by (intro go [of deferred k ?s "[]"]) (simp_all add: step Let_def)
  qed
qed

end
