(* ===== verification/Snapshot_Sync.thy ===== *)
theory Snapshot_Sync
  imports Transport_Laws
begin

text \<open>
  The guarantees of the snapshot exchange of two nodes: live updates that arrive in the middle of
  a snapshot are not lost, the queue that holds them is bounded, and a node that connects, with whatever it
  knew before, takes over every record of its peer that is news to it.
\<close>

subsection \<open>The bounded queue\<close>

lemma exchange_overflow:
  assumes "\<forall>f \<in> set fs. small_frame f \<and> frame_type f \<noteq> 7"
    and "length deferred + length (carried 3 fs) > MAX_DEFERRED_UPDATES"
    and "length deferred \<le> MAX_DEFERRED_UPDATES"
    and "link_up s" and "wf_table (ls_hosts s)"
  shows "fst (exchange_loop clock (concat (map frame_bytes fs) @ rest) deferred k s) = - 1"
  using assms
proof (induction fs arbitrary: deferred k s)
  case Nil
  then show ?case by simp
next
  case (Cons f fs)
  let ?rest = "concat (map frame_bytes fs) @ rest"
  let ?s = "count_received (fst f) s"
  have f: "small_frame f" "frame_type f \<noteq> 7" using Cons.prems(1) by simp_all
  have up: "link_up ?s" "wf_table (ls_hosts ?s)"
    using same_link_up [of s ?s] same_link_updates(4) [of s "fst f"] Cons.prems(4,5)
    by (simp_all add: same_link_def)
  note step = exchange_step [OF f(1), of clock ?rest deferred k s]
  have ne: "(4::u8) \<noteq> 6" "(4::u8) \<noteq> 3" "(6::u8) \<noteq> 3" "(3::u8) \<noteq> 6" "(6::u8) \<noteq> 4" "(3::u8) \<noteq> 4" "(3::u8) \<noteq> 7"
    by simp_all
  have small: "\<forall>f \<in> set fs. small_frame f \<and> frame_type f \<noteq> 7" using Cons.prems(1) by simp
  note IH = Cons.IH [OF small]
  consider "frame_type f = 4" | "frame_type f = 6" | "frame_type f = 3" | "frame_type f \<notin> {3, 4, 6, 7}"
    using f(2) by auto
  then show ?case
  proof cases
    case 1
    obtain s1 where s1: "serve_snapshot_request clock ?s = (0, s1)" "same_link ?s s1"
      using serve_snapshot_ok [OF up(1,2), of clock] by auto
    let ?s1 = "fire_lifecycle ''snapshot_sent'' (ls_peer_node_id s1) 0 s1"
    have "same_link ?s ?s1" using same_link_trans [OF s1(2), of ?s1] by simp
    then have "link_up ?s1" "wf_table (ls_hosts ?s1)" using same_link_up [of ?s ?s1] up by (simp_all add: same_link_def)
    with 1 s1(1) ne Cons.prems(2,3) show ?thesis
      by (simp add: step Let_def IH)
  next
    case 2
    show ?thesis
    proof (cases "daim_peer_decode_host_location (snd f)")
      case (Inl e)
      with 2 Cons.prems(2,3) up ne show ?thesis by (simp add: step Let_def IH)
    next
      case (Inr loc)
      let ?a = "apply_and_report clock daim_host_import_snapshot_entry (hdr_origin_node_id (fst f)) loc ?s"
      let ?s1 = "upd_stats (\<lambda>st. st\<lparr>snapshot_entries_received := snapshot_entries_received st + 1\<rparr>) ?a"
      have "applies ?s [loc] ?s1"
        using applies_trans [OF applies_import
            [of ?s loc clock "hdr_origin_node_id (fst f)"] applies_same [of ?a ?s1]] by simp
      then have "link_up ?s1" "wf_table (ls_hosts ?s1)"
        using applies_up [of ?s "[loc]" ?s1] wf_table_applies [of ?s "[loc]" ?s1] up decoded_wf [OF Inr] by simp_all
      with 2 Inr Cons.prems(2,3) ne show ?thesis
        by (simp add: step Let_def IH)
    qed
  next
    case 3
    show ?thesis
    proof (cases "daim_peer_decode_host_location (snd f)")
      case (Inl e)
      with 3 Cons.prems(2,3) up ne show ?thesis by (simp add: step Let_def IH)
    next
      case (Inr loc)
      with 3 Cons.prems(2,3) up ne show ?thesis
        by (cases "length deferred < MAX_DEFERRED_UPDATES") (simp_all add: step Let_def IH)
    qed
  next
    case 4
    with Cons.prems(2,3) up show ?thesis by (simp add: step Let_def IH)
  qed
qed

lemma exchange_snapshots_loop:
  assumes "link_up s"
  shows "\<exists>s'. exchange_snapshots clock stream s = exchange_loop clock stream [] 0 s' \<and> same_link s s'"
proof -
  obtain s' where "send_framed clock 4 [] s = (0, s')" "same_link s s'"
    using send_framed_ok [of s "[]" clock 4] assms by (auto simp: link_up_def)
  then show ?thesis by (auto simp: exchange_snapshots_def)
qed

lemma exchange_sequence:
  assumes "\<forall>f \<in> set fs. small_frame f \<and> frame_type f \<noteq> 7"
    and "small_frame fend" and "frame_type fend = 7"
    and "link_up s" and "wf_table (ls_hosts s)"
  shows "case exchange_snapshots clock (concat (map frame_bytes fs) @ frame_bytes fend @ rest) s of
    (n, s', rest') \<Rightarrow>
      (if length (carried 3 fs) \<le> MAX_DEFERRED_UPDATES
       then n = int (length (carried 6 fs)) \<and> rest' = rest \<and>
         (\<exists>us. map snd us = carried 6 fs @ carried 3 fs \<and>
            ls_hosts s' = snd (apply_updates us (ls_hosts s)))
       else n = - 1)"
proof -
  obtain s1 where s1: "exchange_snapshots clock (concat (map frame_bytes fs) @ frame_bytes fend @ rest) s =
      exchange_loop clock (concat (map frame_bytes fs) @ frame_bytes fend @ rest) [] 0 s1" "same_link s s1"
    using exchange_snapshots_loop [OF assms(4)] by blast
  then have up: "link_up s1" "wf_table (ls_hosts s1)" "ls_hosts s1 = ls_hosts s"
    using assms(4,5) same_link_up [OF s1(2)] by (simp_all add: same_link_def)
  show ?thesis
  proof (cases "length (carried 3 fs) \<le> MAX_DEFERRED_UPDATES")
    case True
    with exchange_frames [OF assms(1-3), of "[]" s1 clock rest 0] up s1(1) show ?thesis
      by (auto simp: applies_def)
  next
    case False
    with exchange_overflow [OF assms(1), of "[]" s1 clock "frame_bytes fend @ rest" 0] up s1(1) show ?thesis
      by (auto split: prod.split)
  qed
qed

subsection \<open>Properties\<close>

text \<open>
  Property C8 (live updates during a snapshot). Whatever frames a peer sends before the end
  marker, with updates of its live traffic anywhere between the snapshot entries and its own
  snapshot request among them: as long as at most 16 well-formed updates arrive, the exchange
  returns the number of well-formed entries, leaves exactly the bytes behind the end marker, and
  the host table has received every entry and then every update, in the order they were sent. With more
  updates than that the exchange fails, so that the connection is dropped and set up again.
\<close>

theorem exchange_keeps_live_updates:
  assumes "\<forall>f \<in> set fs. small_frame f \<and> frame_type f \<noteq> 7"
    and "small_frame fend" and "frame_type fend = 7"
    and "link_up s" and "wf_table (ls_hosts s)"
  shows "case exchange_snapshots clock (concat (map frame_bytes fs) @ frame_bytes fend @ rest) s of
    (n, s', rest') \<Rightarrow>
      (if length (carried 3 fs) \<le> MAX_DEFERRED_UPDATES
       then n = int (length (carried 6 fs)) \<and> rest' = rest \<and>
         (\<exists>us. map snd us = carried 6 fs @ carried 3 fs \<and>
            ls_hosts s' = snd (apply_updates us (ls_hosts s)))
       else n = - 1)"
  by (rule exchange_sequence [OF assms])

definition sample_link :: "u64 \<Rightarrow> link_state" where
  "sample_link n = \<lparr>ls_hosts = daim_host_state_init n 1 g_state0, ls_node_id = n, ls_next_message_id = 0,
     ls_active = True, ls_ready = False, ls_peer_node_id = 0, ls_writable = True, ls_out = [],
     ls_applied = [], ls_lifecycle = [], ls_stats = zero_transport_stats, ls_ticks = 0\<rparr>"

definition location_frame :: "u8 \<Rightarrow> daim_host_location \<Rightarrow> c_frame" where
  "location_frame t l = (\<lparr>protocol_version = 1, message_type = t, hdr_origin_node_id = 1, message_id = 1,
     payload_length = 59, send_time_ns = 0\<rparr>, daim_peer_encode_host_location l)"

lemma sample_link_up [simp]: "link_up (sample_link n)" "wf_table (ls_hosts (sample_link n))"
  by (simp_all add: link_up_def wf_table_def sample_link_def)

lemma location_frame_ok [simp]:
  assumes "location_wf l"
  shows "small_frame (location_frame t l)" and "frame_type (location_frame t l) = t"
    and "daim_peer_decode_host_location (snd (location_frame t l)) = Inr l"
  using assms location_codec.encode_length [of l]
  by (simp_all add: small_frame_def frame_ok_def location_frame_def frame_type_def location_roundtrip
      DAIM_PEER_PROTOCOL_VERSION_def DAIM_PEER_MAX_PAYLOAD_SIZE_def DAIM_PEER_HOST_LOCATION_WIRE_SIZE_def)

lemma sample_claim_wf [simp]: "location_wf (sample_claim a b c)"
  by (simp add: location_wf_def sample_claim_def MAC_ADDR_LEN_def)

lemma sample_frame_small [simp]: "small_frame (sample_frame t)" "frame_type (sample_frame t) = t"
  by (simp_all add: small_frame_def frame_ok_def sample_frame_def frame_type_def
      DAIM_PEER_PROTOCOL_VERSION_def)

text \<open>A newer update that arrives before the older snapshot entry of the same address wins.\<close>

theorem exchange_keeps_live_updates_witness:
  "case exchange_snapshots (\<lambda>_. 0) (concat (map frame_bytes
      [location_frame 3 (sample_claim 1 1 9), location_frame 6 (sample_claim 1 1 7), sample_frame 4]) @
      frame_bytes (sample_frame 7) @ [1, 2]) (sample_link 2) of
    (n, s', rest') \<Rightarrow> n = 1 \<and> rest' = [1, 2] \<and>
      (\<exists>us. map snd us = [sample_claim 1 1 7, sample_claim 1 1 9] \<and>
         ls_hosts s' = snd (apply_updates us (daim_host_state_init 2 1 g_state0)))"
proof -
  let ?fs = "[location_frame 3 (sample_claim 1 1 9), location_frame 6 (sample_claim 1 1 7), sample_frame 4]"
  have ne: "(6::u8) \<noteq> 7" "(3::u8) \<noteq> 7" "(4::u8) \<noteq> 7" "(3::u8) \<noteq> 6" "(6::u8) \<noteq> 3" "(4::u8) \<noteq> 6" "(4::u8) \<noteq> 3"
    by simp_all
  have "carried 3 ?fs = [sample_claim 1 1 9]" "carried 6 ?fs = [sample_claim 1 1 7]"
    by (simp_all add: ne)
  moreover have "\<forall>f \<in> set ?fs. small_frame f \<and> frame_type f \<noteq> 7" by (simp add: ne)
  moreover have "ls_hosts (sample_link 2) = daim_host_state_init 2 1 g_state0"
      "wf_table (daim_host_state_init 2 1 g_state0)"
    by (simp_all add: sample_link_def wf_table_def)
  ultimately show ?thesis
    using exchange_keeps_live_updates [where fs = ?fs and fend = "sample_frame 7" and s = "sample_link 2" and clock = "\<lambda>_. 0" and rest = "[1, 2]"]
    by (simp add: MAX_DEFERRED_UPDATES_def del: list.map concat.simps)
qed

text \<open>Served entries come back as they are, so the receiver's table is the image of the sender's.\<close>

lemma carried_entries:
  assumes "map snd fs = map daim_peer_encode_host_location es" and "\<forall>e \<in> set es. location_wf e"
    and "\<forall>f \<in> set fs. frame_type f = t"
  shows "carried t fs = es" and "t' \<noteq> t \<Longrightarrow> carried t' fs = []"
proof -
  show "carried t fs = es" using assms
  proof (induction fs arbitrary: es)
    case (Cons f fs)
    then show ?case by (cases es) (auto simp: location_roundtrip)
  qed simp
  show "t' \<noteq> t \<Longrightarrow> carried t' fs = []" using assms(3) by (induction fs) auto
qed

text \<open>With one update for an address, its register takes that one step.\<close>

lemma reg_run_untouched:
  "\<forall>u \<in> set (map snd us). \<not> mac_eq (mac u) m \<or> origin_node_id u = me \<or> origin_node_id u = 0 \<Longrightarrow> reg_run me m us r = r"
proof (induction us)
  case (Cons x us)
  then show ?case by (cases x) (auto simp: reg_step_def)
qed simp

lemma reg_run_once:
  assumes "distinct (map mac (map snd us))" and "e \<in> set (map snd us)" and "\<forall>e \<in> set (map snd us). location_wf e"
  shows "\<exists>now. reg_run me (mac e) us r = reg_step me now e r"
  using assms
proof (induction us arbitrary: r)
  case (Cons x us)
  obtain now u where x: "x = (now, u)" by (cases x)
  have eq: "mac_eq (mac v) (mac e) \<longleftrightarrow> mac v = mac e" if "v \<in> set (map snd (x # us))" for v
    using that Cons.prems(2,3) by (intro mac_eq_full) (auto simp: location_wf_def)
  show ?case
  proof (cases "u = e")
    case True
    have "mac v \<noteq> mac e" if "v \<in> set (map snd us)" for v
      using that Cons.prems(1) True x by (metis distinct.simps(2) image_eqI list.set_map list.simps(9) snd_conv)
    then have "\<forall>v \<in> set (map snd us). \<not> mac_eq (mac v) (mac e)" using eq by (metis list.set_intros(2) list.simps(9))
    then have "reg_run me (mac e) us r' = r'" for r' by (intro reg_run_untouched) blast
    then show ?thesis using x True by auto
  next
    case False
    then have e: "e \<in> set (map snd us)" using Cons.prems(2) x by simp
    then have "mac u \<noteq> mac e" using Cons.prems(1) x by (metis distinct.simps(2) image_eqI list.set_map list.simps(9) snd_conv)
    then have "\<not> mac_eq (mac u) (mac e)" using eq [of u] x by simp
    then show ?thesis using Cons.IH [OF _ e, of r] Cons.prems(1,3) x by simp
  qed
qed simp

lemma apply_table_macs: "length (mac u) = MAC_ADDR_LEN \<Longrightarrow> mac ` set (snd (apply_table me now u t)) \<subseteq> mac ` set t \<union> {mac u}"
proof (cases "find_index t (mac u)")
  case (Some i)
  then have "i < length t" using find_index_Some by simp
  moreover have "mac (updated_record now (t ! i) u) = mac (t ! i)" by (simp add: updated_record_def)
  ultimately have "mac ` set (t[i := updated_record now (t ! i) u]) \<subseteq> mac ` set t"
    using set_update_subset_insert [of t i "updated_record now (t ! i) u"] by (auto dest: subsetD)
  with Some show ?thesis by (auto simp: apply_table_def Let_def split: if_splits)
qed (auto simp: apply_table_def remote_record_def)

text \<open>Updates find room as long as the addresses held and received fit the table together.\<close>

lemma lookup_apply_fitting:
  assumes "ready s" and "host_inv s" and "\<forall>u \<in> set (map snd us). location_wf u"
    and "card (mac ` set (table s) \<union> mac ` set (map snd us)) \<le> MAX_HOST_ENTRIES"
  shows "daim_host_lookup (snd (apply_updates us s)) m = reg_run (node_id s) m us (daim_host_lookup s m)"
  using assms
proof (induction us arbitrary: s)
  case (Cons x us)
  obtain now u where x: "x = (now, u)" by (cases x)
  let ?s = "snd (daim_host_apply_remote now u s)"
  let ?U = "mac ` set (table s) \<union> mac ` set (map snd (x # us))"
  have len: "length (mac u) = MAC_ADDR_LEN" using Cons.prems(3) x by (simp add: location_wf_def)
  have room: "has_room (mac u) (table s)"
  proof (cases "find_index (table s) (mac u)")
    case None
    then have "mac u \<in> ?U - mac ` set (table s)" using new_mac_fresh [OF None len] x by simp
    then have "mac ` set (table s) \<subset> ?U" by blast
    then have "card (mac ` set (table s)) < card ?U" by (intro psubset_card_mono) simp_all
    moreover have "card (mac ` set (table s)) = length (table s)"
      using Cons.prems(2) distinct_card [of "map mac (table s)"] by (simp add: host_inv_def tab_inv_def)
    ultimately show ?thesis using Cons.prems(4) by (simp add: has_room_def)
  qed (simp add: has_room_def)
  have "mac ` set (table ?s) \<subseteq> mac ` set (table s) \<union> {mac u}"
    using Cons.prems(1) apply_table_macs [OF len, of "node_id s" now "table s"] by (simp add: table_apply)
  then have "card (mac ` set (table ?s) \<union> mac ` set (map snd us)) \<le> card ?U" using x by (intro card_mono) auto
  then show ?case
    using Cons.IH [of ?s] Cons.prems room host_inv_apply [OF Cons.prems(2) len, of now] x
    by (simp add: apply_updates_simps daim_host_lookup_table table_apply table_lookup_apply
        del: apply_updates.simps)
qed simp

lemma merged_record:
  assumes "host_inv s" and "daim_host_lookup s (mac e) = Some x" and "origin_node_id x = origin_node_id e"
    and "origin_node_id e \<noteq> node_id s" and "location_wf e"
  shows "claim_of (updated_record now x e) = remote_record 0 e"
proof -
  obtain i where i: "find_index (table s) (mac e) = Some i" "x = table s ! i"
    using assms(2) by (auto simp: daim_host_lookup_def split: if_splits option.splits)
  note inv = assms(1) [unfolded host_inv_def]
  have "mac x = mac e" "entry_ok (node_id s) (epoch s) x"
    using find_index_mac [OF inv i(1)] tab_inv_entry [OF inv, of x] i(2) assms(5) by (simp_all add: location_wf_def)
  with assms(3-5) show ?thesis
    by (cases x; cases e) (auto simp: claim_of_def updated_record_def remote_record_def entry_ok_def location_wf_def split: if_splits)
qed

text \<open>What serving a snapshot writes: a frame for each entry, which comes back as it is, and the end marker.\<close>

lemma served_frames:
  assumes "link_up b" and "\<forall>e \<in> set (table (ls_hosts b)). location_wf e"
  shows "\<exists>gs fend b'. serve_snapshot_request clock b = (0, b') \<and> ls_out b' = ls_out b @ map frame_bytes (gs @ [fend]) \<and>
    carried 6 gs = table (ls_hosts b) \<and> carried 3 gs = [] \<and> (\<forall>f \<in> set gs. small_frame f \<and> frame_type f \<noteq> 7) \<and>
    small_frame fend \<and> frame_type fend = 7"
proof -
  let ?t = "table (ls_hosts b)"
  obtain fs b' where b: "serve_snapshot_request clock b = (0, b')" "ls_out b' = ls_out b @ map frame_bytes fs"
      "map snd fs = map daim_peer_encode_host_location ?t @ [[]]"
      "map frame_type fs = replicate (length ?t) 6 @ [7]" "\<forall>f \<in> set fs. small_frame f"
    using serve_snapshot_ok [OF assms(1), of clock] assms(2) by (auto simp: wf_table_def)
  obtain gs fend where fs: "fs = gs @ [fend]" using b(3) by (cases fs rule: rev_cases) auto
  have gs: "map snd gs = map daim_peer_encode_host_location ?t" "map frame_type gs = replicate (length ?t) 6"
      "frame_type fend = 7" using b(3,4) by (simp_all add: fs)
  have ty: "\<forall>f \<in> set gs. frame_type f = 6"
    using gs(2) by (metis in_set_replicate list.set_map image_eqI)
  have "carried 6 gs = ?t" "carried 3 gs = []"
    using carried_entries(1) [OF gs(1) assms(2) ty] carried_entries(2) [OF gs(1) assms(2) ty, of 3] by simp_all
  moreover have "\<forall>f \<in> set gs. small_frame f \<and> frame_type f \<noteq> 7" "small_frame fend" using ty b(5) fs by auto
  ultimately show ?thesis using b(1,2) gs(3) unfolding fs by blast
qed

text \<open>
  Property C9 (a snapshot carries the table). When node B serves a snapshot request and node A,
  whose table may hold entries of its own and of others, reads what B wrote, the exchange returns the number of B's
  entries and leaves the bytes behind the end marker for the steady state. Every entry of B that A did not
  originate itself is then in A's table with B's values (stored as a remote entry), unless A has an entry for the address
  that is of another origin or not older, which stays as it was; and nothing else in A's table changes. The addresses of both have to
  fit a table, and A's table is well-formed again.
\<close>

theorem snapshot_carries_table:
  assumes "link_up b" and "host_inv (ls_hosts b)" and "node_id (ls_hosts b) \<noteq> 0"
    and "link_up a" and "host_inv (ls_hosts a)"
    and "card (mac ` set (table (ls_hosts a)) \<union> mac ` set (table (ls_hosts b))) \<le> MAX_HOST_ENTRIES"
  shows "case serve_snapshot_request clock_b b of
    (rc, b') \<Rightarrow> rc = 0 \<and>
      (case exchange_snapshots clock_a (concat (drop (length (ls_out b)) (ls_out b')) @ rest) a of
        (n, a', rest') \<Rightarrow> n = int (length (table (ls_hosts b))) \<and> rest' = rest \<and> host_inv (ls_hosts a') \<and>
          (\<forall>e \<in> set (table (ls_hosts b)). origin_node_id e \<noteq> node_id (ls_hosts a) \<longrightarrow>
             map_option claim_of (daim_host_lookup (ls_hosts a') (mac e)) =
               Some (case daim_host_lookup (ls_hosts a) (mac e) of
                  None \<Rightarrow> remote_record 0 e
                | Some x \<Rightarrow> if origin_node_id x = origin_node_id e \<and> loc_version x < loc_version e
                             then remote_record 0 e else claim_of x)) \<and>
          (\<forall>m. (\<forall>e \<in> set (table (ls_hosts b)). mac_eq (mac e) m \<longrightarrow> origin_node_id e = node_id (ls_hosts a)) \<longrightarrow>
             daim_host_lookup (ls_hosts a') m = daim_host_lookup (ls_hosts a) m))"
proof -
  let ?t = "table (ls_hosts b)" and ?me = "node_id (ls_hosts a)"
  have wfb: "\<forall>e \<in> set ?t. location_wf e" and ok: "\<forall>e \<in> set ?t. entry_ok (node_id (ls_hosts b)) (epoch (ls_hosts b)) e"
    using assms(2) tab_inv_entry by (auto simp: host_inv_def location_wf_def entry_ok_def)
  have wfa: "wf_table (ls_hosts a)"
    using assms(5) tab_inv_entry by (auto simp: wf_table_def host_inv_def location_wf_def entry_ok_def)
  obtain gs fend b' where b: "serve_snapshot_request clock_b b = (0, b')" "ls_out b' = ls_out b @ map frame_bytes (gs @ [fend])"
      "carried 6 gs = ?t" "carried 3 gs = []" "\<forall>f \<in> set gs. small_frame f \<and> frame_type f \<noteq> 7" "small_frame fend" "frame_type fend = 7"
    using served_frames [OF assms(1) wfb, of clock_b] by blast
  obtain a' us where x: "exchange_snapshots clock_a (concat (map frame_bytes gs) @ frame_bytes fend @ rest) a =
      (int (length ?t), a', rest)" "map snd us = ?t" "ls_hosts a' = snd (apply_updates us (ls_hosts a))"
    using exchange_sequence [OF b(5-7) assms(4) wfa, where clock = clock_a and rest = rest] b(3,4) by (auto split: prod.splits)
  have look: "daim_host_lookup (ls_hosts a') m = reg_run ?me m us (daim_host_lookup (ls_hosts a) m)" for m
    using lookup_apply_fitting [of "ls_hosts a" us m] assms(4-6) wfb x(2,3) by (simp add: link_up_def)
  have nz: "origin_node_id e \<noteq> 0" if "e \<in> set ?t" for e
    using ok that assms(3) by (auto simp: entry_ok_def split: if_splits)
  have "map_option claim_of (daim_host_lookup (ls_hosts a') (mac e)) =
      Some (case daim_host_lookup (ls_hosts a) (mac e) of
         None \<Rightarrow> remote_record 0 e
       | Some x \<Rightarrow> if origin_node_id x = origin_node_id e \<and> loc_version x < loc_version e then remote_record 0 e else claim_of x)"
    if e: "e \<in> set ?t" "origin_node_id e \<noteq> ?me" for e
  proof -
    have "distinct (map mac (map snd us))" using assms(2) x(2) by (simp add: host_inv_def tab_inv_def)
    then obtain now where "reg_run ?me (mac e) us (daim_host_lookup (ls_hosts a) (mac e)) = reg_step ?me now e (daim_host_lookup (ls_hosts a) (mac e))"
      using reg_run_once [of us e ?me "daim_host_lookup (ls_hosts a) (mac e)"] e(1) wfb x(2) by auto
    then show ?thesis using e nz [OF e(1)] merged_record [OF assms(5) _ _ e(2), of _ now] wfb
      by (simp add: look reg_step_def split: option.split)
  qed
  moreover have "daim_host_lookup (ls_hosts a') m = daim_host_lookup (ls_hosts a) m"
    if "\<forall>e \<in> set ?t. mac_eq (mac e) m \<longrightarrow> origin_node_id e = ?me" for m
    using that x(2) by (subst look, intro reg_run_untouched) auto
  moreover have "host_inv (ls_hosts a')"
  proof -
    have "\<forall>(now, u) \<in> set us. length (mac u) = MAC_ADDR_LEN"
      using wfb unfolding x(2) [symmetric] by (auto simp: location_wf_def)
    then show ?thesis
      using hosts.inv_run [of "ls_hosts a" us] assms(4,5) x(3) by (simp add: snd_apply_updates link_up_def)
  qed
  ultimately show ?thesis using x(1) b(1,2) by simp
qed

text \<open>
  A reader that comes back with an entry of an earlier run of the peer and with an address of its own: the peer has started again,
  and its new epoch replaces the old entry, and the reader's own address stays.
\<close>

definition restarted_peer :: link_state where
  "restarted_peer = (sample_link 1)\<lparr>ls_hosts := snd (daim_host_learn_local 3 [2, 0, 0, 0, 0x99, 0x99] 0 1
     (daim_host_state_init 1 2 g_state0))\<rparr>"

definition returning_reader :: link_state where
  "returning_reader = (sample_link 2)\<lparr>ls_hosts := snd (daim_host_learn_local 4 [2, 0, 0, 0, 0, 2] 0 1
     (snd (daim_host_apply_remote 1 (sample_claim 1 1 7) (daim_host_state_init 2 1 g_state0))))\<rparr>"

lemma samples_ready:
  "link_up restarted_peer" "host_inv (ls_hosts restarted_peer)" "node_id (ls_hosts restarted_peer) = 1" "ls_out restarted_peer = []"
  "link_up returning_reader" "host_inv (ls_hosts returning_reader)" "node_id (ls_hosts returning_reader) = 2"
  by (simp_all add: restarted_peer_def returning_reader_def link_up_def sample_link_def MAC_ADDR_LEN_def sample_claim_def
      host_inv_learn [OF host_inv_init] host_inv_learn [OF host_inv_apply [OF host_inv_init]])

lemma samples_tables:
  "table (ls_hosts restarted_peer) = [\<lparr>mac = [2, 0, 0, 0, 0x99, 0x99], origin_node_id = 1, owner_dpid = 0, owner_port = 1,
     owner_epoch = 2, sequence = 1, is_local = 1, learned_at_ns = 3, applied_at_ns = 3\<rparr>]"
  "table (ls_hosts returning_reader) = [remote_record 1 (sample_claim 1 1 7),
     \<lparr>mac = [2, 0, 0, 0, 0, 2], origin_node_id = 2, owner_dpid = 0, owner_port = 1, owner_epoch = 1, sequence = 1,
      is_local = 1, learned_at_ns = 4, applied_at_ns = 4\<rparr>]"
  by code_simp+

theorem snapshot_carries_table_witness:
  "let b' = snd (serve_snapshot_request (\<lambda>_. 0) restarted_peer);
       a' = fst (snd (exchange_snapshots (\<lambda>_. 0) (concat (ls_out b')) returning_reader))
   in map_option claim_of (daim_host_lookup (ls_hosts returning_reader) [2, 0, 0, 0, 0x99, 0x99]) = Some (remote_record 0 (sample_claim 1 1 7)) \<and>
      map_option claim_of (daim_host_lookup (ls_hosts a') [2, 0, 0, 0, 0x99, 0x99]) =
        Some (remote_record 0 (hd (table (ls_hosts restarted_peer)))) \<and>
      daim_host_lookup (ls_hosts a') [2, 0, 0, 0, 0, 2] = Some (table (ls_hosts returning_reader) ! 1)"
proof -
  obtain e where e: "table (ls_hosts restarted_peer) = [e]" "mac e = [2, 0, 0, 0, 0x99, 0x99]" "origin_node_id e = 1" "loc_version e = Version 2 1"
    by (simp add: samples_tables loc_version_def)
  have r: "daim_host_lookup (ls_hosts returning_reader) [2, 0, 0, 0, 0x99, 0x99] = Some (remote_record 1 (sample_claim 1 1 7))"
    "daim_host_lookup (ls_hosts returning_reader) [2, 0, 0, 0, 0, 2] = Some (table (ls_hosts returning_reader) ! 1)"
    "origin_node_id (remote_record 1 (sample_claim 1 1 7)) = 1" "loc_version (remote_record 1 (sample_claim 1 1 7)) = Version 1 7"
    by code_simp+
  have fits: "card (mac ` set (table (ls_hosts returning_reader)) \<union> mac ` set (table (ls_hosts restarted_peer))) \<le> MAX_HOST_ENTRIES"
    by (simp add: samples_tables sample_claim_def remote_record_def MAC_ADDR_LEN_def MAX_HOST_ENTRIES_def)
  have other: "\<not> mac_eq [2, 0, 0, 0, 0x99, 0x99] [2, 0, 0, 0, 0, 2]" "Version 1 7 < Version 2 1" by code_simp+
  have nz: "node_id (ls_hosts restarted_peer) \<noteq> 0" by (simp add: samples_ready)
  note carries = snapshot_carries_table [OF samples_ready(1,2) nz samples_ready(5,6) fits, where clock_a = "\<lambda>_. 0" and clock_b = "\<lambda>_. 0" and rest = "[]"]
  obtain b' where b': "serve_snapshot_request (\<lambda>_. 0) restarted_peer = (0, b')"
    using carries by (auto split: prod.splits)
  obtain n a' rest' where x: "exchange_snapshots (\<lambda>_. 0) (concat (ls_out b')) returning_reader = (n, a', rest')" by (metis prod_cases3)
  have "map_option claim_of (daim_host_lookup (ls_hosts a') (mac e)) = Some (remote_record 0 e)"
    "daim_host_lookup (ls_hosts a') [2, 0, 0, 0, 0, 2] = daim_host_lookup (ls_hosts returning_reader) [2, 0, 0, 0, 0, 2]"
    using carries b' x e r other by (simp_all add: samples_ready)
  then show ?thesis using b' x r e by (simp add: Let_def)
qed

end
