(* ===== verification/Py_Json.thy ===== *)
theory Py_Json
  imports Complex_Main Py_Values
begin

text \<open>
  Values of the JSON events the scripts exchange, and the dictionary operations they use on them.
  A dictionary is an association list in insertion order with distinct keys. A Python float is
  modelled as the rational number it denotes, without rounding.
\<close>

datatype json =
    JNull
  | JBool bool
  | JInt int
  | JFloat rat
  | JStr string
  | JList "json list"
  | JObj "(string \<times> json) list"

type_synonym dict = "(string \<times> json) list"

text \<open>Assignment to a key keeps the position of a key that is there already.\<close>

fun dict_put :: "'k \<Rightarrow> 'v \<Rightarrow> ('k \<times> 'v) list \<Rightarrow> ('k \<times> 'v) list" where
  "dict_put k v [] = [(k, v)]"
| "dict_put k v ((k', v') # d) = (if k = k' then (k, v) # d else (k', v') # dict_put k v d)"

text \<open>\<open>{**d, **e}\<close> and \<open>dict(pairs)\<close>.\<close>

definition dict_merge :: "('k \<times> 'v) list \<Rightarrow> ('k \<times> 'v) list \<Rightarrow> ('k \<times> 'v) list" where
  "dict_merge d e = fold (\<lambda>(k, v). dict_put k v) e d"

text \<open>\<open>e.get(k)\<close>, \<open>e.get(k, v)\<close> and \<open>e[k]\<close>.\<close>

definition dict_get :: "dict \<Rightarrow> string \<Rightarrow> json" where
  "dict_get d k = (case map_of d k of None \<Rightarrow> JNull | Some v \<Rightarrow> v)"

definition dict_get_or :: "dict \<Rightarrow> string \<Rightarrow> json \<Rightarrow> json" where
  "dict_get_or d k v = (case map_of d k of None \<Rightarrow> v | Some v' \<Rightarrow> v')"

definition dict_item :: "dict \<Rightarrow> string \<Rightarrow> json res" where
  "dict_item d k = (case map_of d k of None \<Rightarrow> Inl (KeyError k) | Some v \<Rightarrow> Inr v)"

text \<open>The number a value is for arithmetic and comparison: booleans are 0 and 1.\<close>

fun json_number :: "json \<Rightarrow> rat option" where
  "json_number (JBool b) = Some (if b then 1 else 0)"
| "json_number (JInt i) = Some (of_int i)"
| "json_number (JFloat r) = Some r"
| "json_number _ = None"

definition py_number :: "json \<Rightarrow> rat res" where
  "py_number v = (case json_number v of None \<Rightarrow> Inl TypeError | Some r \<Rightarrow> Inr r)"

text \<open>\<open>==\<close> between values of which at least one is no container, and the truth value of a value.\<close>

definition py_eq :: "json \<Rightarrow> json \<Rightarrow> bool" where
  "py_eq a b \<longleftrightarrow>
     (case (json_number a, json_number b) of
        (Some x, Some y) \<Rightarrow> x = y
      | (None, None) \<Rightarrow> a = b
      | _ \<Rightarrow> False)"

fun py_truth :: "json \<Rightarrow> bool" where
  "py_truth JNull = False"
| "py_truth (JBool b) = b"
| "py_truth (JInt i) = (i \<noteq> 0)"
| "py_truth (JFloat r) = (r \<noteq> 0)"
| "py_truth (JStr s) = (s \<noteq> [])"
| "py_truth (JList l) = (l \<noteq> [])"
| "py_truth (JObj d) = (d \<noteq> [])"

definition py_in :: "json \<Rightarrow> json list \<Rightarrow> bool" where
  "py_in v vs \<longleftrightarrow> (\<exists>w \<in> set vs. py_eq v w)"

text \<open>Indexing of a list, with Python's negative indices.\<close>

definition py_index :: "'a list \<Rightarrow> int \<Rightarrow> 'a res" where
  "py_index xs i =
     (if 0 \<le> i \<and> i < int (length xs) then Inr (xs ! nat i)
      else if - int (length xs) \<le> i \<and> i < 0 then Inr (xs ! nat (int (length xs) + i))
      else Inl IndexError)"

text \<open>\<open>s in t\<close> for strings, and \<open>s.encode("ascii")\<close> up to the bytes' type.\<close>

fun py_substring :: "string \<Rightarrow> string \<Rightarrow> bool" where
  "py_substring s [] = (s = [])"
| "py_substring s (c # t) = (prefix s (c # t) \<or> py_substring s t)"

definition py_encode_ascii :: "string \<Rightarrow> string res" where
  "py_encode_ascii s = (if \<forall>c \<in> set s. (of_char c :: nat) < 128 then Inr s else Inl ValueError)"

subsection \<open>Laws\<close>

lemma map_of_dict_put [simp]: "map_of (dict_put k v d) = (map_of d)(k \<mapsto> v)"
  by (induction d) auto

lemma dict_merge_simps [simp]:
  "dict_merge d [] = d"
  "dict_merge d ((k, v) # e) = dict_merge (dict_put k v d) e"
  by (simp_all add: dict_merge_def)

lemma map_of_dict_merge: "distinct (map fst e) \<Longrightarrow> map_of (dict_merge d e) = map_of d ++ map_of e"
proof (induction e arbitrary: d)
  case (Cons x e)
  obtain k v where x: "x = (k, v)" by (cases x)
  with Cons.prems have k: "map_of e k = None" by (auto simp: map_of_eq_None_iff)
  have "(map_of d)(k \<mapsto> v) ++ map_of e = map_of d ++ (map_of e)(k \<mapsto> v)"
    using k by (auto simp: map_add_def fun_eq_iff split: option.splits)
  with Cons.IH [of "dict_put k v d"] Cons.prems x show ?case by (simp del: fun_upd_apply)
qed simp

lemma keys_dict_put: "set (map fst (dict_put k v d)) = insert k (set (map fst d))"
  by (induction k v d rule: dict_put.induct) auto

lemma distinct_dict_put: "distinct (map fst d) \<Longrightarrow> distinct (map fst (dict_put k v d))"
proof (induction k v d rule: dict_put.induct)
  case (2 k v k' v' d)
  then show ?case using keys_dict_put [of k v d] by (auto simp del: set_map)
qed simp

lemma py_eq_refl [simp]: "py_eq v v"
  by (cases v) (simp_all add: py_eq_def)

lemma py_eq_simps [simp]:
  "py_eq (JStr s) (JStr t) \<longleftrightarrow> s = t" "py_eq (JInt i) (JInt j) \<longleftrightarrow> i = j"
  "py_eq JNull (JStr s) = False" "py_eq JNull (JInt i) = False" "py_eq (JInt i) (JStr s) = False"
  "py_eq (JStr s) (JInt i) = False"
  by (simp_all add: py_eq_def)

lemma py_index_in: "0 \<le> i \<Longrightarrow> i < int (length xs) \<Longrightarrow> py_index xs i = Inr (xs ! nat i)"
  by (simp add: py_index_def)

lemma py_index_nat: "k < length xs \<Longrightarrow> py_index xs (int k) = Inr (xs ! k)"
  by (simp add: py_index_def)

lemma py_substring_iff: "py_substring s t \<longleftrightarrow> (\<exists>a b. t = a @ s @ b)"
proof (induction t)
  case (Cons c t)
  have "(\<exists>a b. c # t = a @ s @ b) \<longleftrightarrow> prefix s (c # t) \<or> (\<exists>a b. t = a @ s @ b)"
    by (auto simp: prefix_def Cons_eq_append_conv)
  with Cons show ?case by simp
qed simp

end
