(* ===== verification/Core_Tables.thy ===== *)
theory Core_Tables
  imports Prelude
begin

text \<open>
  DAIM Core (\<open>implementation/src/daim_core.c\<close>): twelve tables of byte rows with a read cursor
  each, and the signal handlers. Rows are byte strings of any length; a null pointer argument is
  \<open>None\<close>. Memory allocation is taken to succeed, so the growth of the row array has no
  counterpart. The mutex makes every call one atomic step.
\<close>

subsection \<open>State\<close>

definition FIRST_TABLE :: u8 where "FIRST_TABLE = 0xa1"
definition LAST_TABLE :: u8 where "LAST_TABLE = 0xac"
definition DAIM_PACKET_FORWARDING_TABLE :: u8 where "DAIM_PACKET_FORWARDING_TABLE = 0xa8"
definition TABLE_SLOTS :: nat where "TABLE_SLOTS = 12"
definition SIGNAL_SLOTS :: nat where "SIGNAL_SLOTS = 21"
definition NO_RULE :: u16 where "NO_RULE = 18"
definition ADD :: u8 where "ADD = 0xa"
definition DEL :: u8 where "DEL = 0xb"
definition DAIM_CORE_OK :: int where "DAIM_CORE_OK = 0"
definition DAIM_CORE_ERROR :: int where "DAIM_CORE_ERROR = 1"

record table_store =
  ts_items :: "bytes list"
  ts_cursor :: nat

definition empty_store :: table_store where
  "empty_store = \<lparr>ts_items = [], ts_cursor = 0\<rparr>"

text \<open>The handlers are the registered functions, of any type here.\<close>

record 'h core_state =
  cs_lock_ready :: bool
  cs_initialised :: bool
  cs_generation :: u64
  cs_tables :: "table_store list"
  cs_signals :: "'h option list"

definition core_state0 :: "'h core_state" where
  "core_state0 = \<lparr>cs_lock_ready = False, cs_initialised = False, cs_generation = 0,
     cs_tables = replicate TABLE_SLOTS empty_store, cs_signals = replicate SIGNAL_SLOTS None\<rparr>"

definition valid_table :: "u8 \<Rightarrow> bool" where
  "valid_table t \<longleftrightarrow> FIRST_TABLE \<le> t \<and> t \<le> LAST_TABLE"

definition writable_table :: "u8 \<Rightarrow> bool" where
  "writable_table t \<longleftrightarrow> DAIM_PACKET_FORWARDING_TABLE \<le> t \<and> t \<le> LAST_TABLE"

definition slot_of :: "u8 \<Rightarrow> nat" where
  "slot_of t = unat (t - FIRST_TABLE)"

definition store_for :: "u8 \<Rightarrow> 'h core_state \<Rightarrow> table_store" where
  "store_for t s = cs_tables s ! slot_of t"

definition set_store :: "u8 \<Rightarrow> table_store \<Rightarrow> 'h core_state \<Rightarrow> 'h core_state" where
  "set_store t st s = s\<lparr>cs_tables := (cs_tables s)[slot_of t := st]\<rparr>"

subsection \<open>Operations\<close>

text \<open>\<open>mutex_ok\<close>: the mutex of the first initialisation can be had.\<close>

definition daim_init :: "bool \<Rightarrow> 'h core_state \<Rightarrow> int \<times> 'h core_state" where
  "daim_init mutex_ok s =
     (if \<not> cs_lock_ready s \<and> \<not> mutex_ok then (DAIM_CORE_ERROR, s)
      else
        let s1 = s\<lparr>cs_lock_ready := True\<rparr>
        in (DAIM_CORE_OK,
            if cs_initialised s1 then s1
            else s1\<lparr>cs_tables := replicate TABLE_SLOTS empty_store,
                    cs_signals := replicate SIGNAL_SLOTS None, cs_generation := 0,
                    cs_initialised := True\<rparr>))"

definition daim_quit :: "'h core_state \<Rightarrow> 'h core_state" where
  "daim_quit s =
     (if \<not> cs_lock_ready s then s
      else s\<lparr>cs_tables := replicate TABLE_SLOTS empty_store,
             cs_signals := replicate SIGNAL_SLOTS None, cs_initialised := False,
             cs_generation := 0\<rparr>)"

text \<open>Deletion of the first equal row; \<open>None\<close> when there is none.\<close>

fun delete_row :: "bytes \<Rightarrow> bytes list \<Rightarrow> bytes list option" where
  "delete_row e [] = None"
| "delete_row e (r # rs) = (if r = e then Some rs else map_option ((#) r) (delete_row e rs))"

definition daim_table_write :: "u8 \<Rightarrow> bytes option \<Rightarrow> u8 \<Rightarrow> 'h core_state \<Rightarrow> int \<times> 'h core_state" where
  "daim_table_write t entry op s =
     (if \<not> cs_lock_ready s \<or> \<not> cs_initialised s \<or> \<not> writable_table t \<or> entry = None \<or> entry = Some []
      then (DAIM_CORE_ERROR, s)
      else if op \<noteq> ADD \<and> op \<noteq> DEL then (DAIM_CORE_ERROR, s)
      else
        let st = store_for t s; e = the entry
        in if op = ADD
           then (DAIM_CORE_OK, (set_store t (st\<lparr>ts_items := ts_items st @ [e]\<rparr>) s)
                   \<lparr>cs_generation := cs_generation s + 1\<rparr>)
           else (case delete_row e (ts_items st) of
               None \<Rightarrow> (DAIM_CORE_ERROR, s)
             | Some rs \<Rightarrow>
                 (DAIM_CORE_OK,
                  (set_store t (st\<lparr>ts_items := rs,
                      ts_cursor := (if ts_cursor st > length rs then length rs else ts_cursor st)\<rparr>) s)
                    \<lparr>cs_generation := cs_generation s + 1\<rparr>)))"

text \<open>
  A row matches the argument of a read when the argument is null or a prefix of the row. The
  search starts at the cursor, and a hit moves the cursor behind the row it returns.
\<close>

definition row_matches :: "bytes option \<Rightarrow> bytes \<Rightarrow> bool" where
  "row_matches entry row \<longleftrightarrow>
     (case entry of None \<Rightarrow> True | Some e \<Rightarrow> \<not> (length e > length row \<or> take (length e) row \<noteq> e))"

fun search_rows :: "bytes option \<Rightarrow> bytes list \<Rightarrow> nat \<Rightarrow> (nat \<times> bytes) option" where
  "search_rows entry [] i = None"
| "search_rows entry (r # rs) i =
     (if row_matches entry r then Some (i, r) else search_rows entry rs (i + 1))"

definition daim_table_read :: "u8 \<Rightarrow> bytes option \<Rightarrow> 'h core_state \<Rightarrow> bytes option \<times> 'h core_state" where
  "daim_table_read t entry s =
     (if \<not> cs_lock_ready s \<or> \<not> cs_initialised s \<or> \<not> valid_table t then (None, s)
      else let st = store_for t s
           in case search_rows entry (drop (ts_cursor st) (ts_items st)) (ts_cursor st) of
                None \<Rightarrow> (None, s)
              | Some (i, r) \<Rightarrow> (Some r, set_store t (st\<lparr>ts_cursor := i + 1\<rparr>) s))"

definition daim_table_rewind :: "u8 \<Rightarrow> 'h core_state \<Rightarrow> 'h core_state" where
  "daim_table_rewind t s =
     (if \<not> cs_lock_ready s \<or> \<not> cs_initialised s \<or> \<not> valid_table t then s
      else set_store t ((store_for t s)\<lparr>ts_cursor := 0\<rparr>) s)"

definition daim_signal :: "u16 \<Rightarrow> 'h \<Rightarrow> 'h core_state \<Rightarrow> 'h core_state" where
  "daim_signal sig handler s =
     (if \<not> cs_lock_ready s \<or> \<not> cs_initialised s \<or> SIGNAL_SLOTS \<le> unat sig then s
      else s\<lparr>cs_signals := (cs_signals s)[unat sig := Some handler]\<rparr>)"

text \<open>
  The handler that \<open>daim_core_emit\<close> runs, if any: the call itself is made by the caller of this
  definition, after the core's lock is released. \<open>None\<close> is the return of \<open>DAIM_CORE_ERROR\<close>.
\<close>

definition daim_core_emit :: "u16 \<Rightarrow> 'h core_state \<Rightarrow> 'h option" where
  "daim_core_emit sig s =
     (if \<not> cs_lock_ready s \<or> \<not> cs_initialised s \<or> SIGNAL_SLOTS \<le> unat sig then None
      else cs_signals s ! unat sig)"

definition daim_core_table_count :: "u8 \<Rightarrow> 'h core_state \<Rightarrow> nat" where
  "daim_core_table_count t s =
     (if \<not> cs_lock_ready s \<or> \<not> cs_initialised s \<or> \<not> valid_table t then 0
      else length (ts_items (store_for t s)))"

definition daim_core_generation :: "'h core_state \<Rightarrow> u64" where
  "daim_core_generation s = (if \<not> cs_lock_ready s \<or> \<not> cs_initialised s then 0 else cs_generation s)"

subsection \<open>Invariant\<close>

definition store_ok :: "table_store \<Rightarrow> bool" where
  "store_ok st \<longleftrightarrow> ts_cursor st \<le> length (ts_items st)"

definition core_inv :: "'h core_state \<Rightarrow> bool" where
  "core_inv s \<longleftrightarrow> length (cs_tables s) = TABLE_SLOTS \<and> length (cs_signals s) = SIGNAL_SLOTS \<and>
     (\<forall>st \<in> set (cs_tables s). store_ok st)"

definition running :: "'h core_state \<Rightarrow> bool" where
  "running s \<longleftrightarrow> cs_lock_ready s \<and> cs_initialised s"

lemma slot_of_bound: "valid_table t \<Longrightarrow> slot_of t < TABLE_SLOTS"
proof -
  assume v: "valid_table t"
  then have "t - FIRST_TABLE \<le> LAST_TABLE - FIRST_TABLE"
    by (simp add: valid_table_def word_le_minus_mono_left)
  then have "unat (t - FIRST_TABLE) \<le> unat (LAST_TABLE - FIRST_TABLE)"
    by (simp add: word_le_nat_alt)
  then show ?thesis
    by (simp add: slot_of_def TABLE_SLOTS_def FIRST_TABLE_def LAST_TABLE_def)
qed

lemma writable_valid: "writable_table t \<Longrightarrow> valid_table t"
  by (auto simp: writable_table_def valid_table_def FIRST_TABLE_def DAIM_PACKET_FORWARDING_TABLE_def
      intro: order_trans [rotated])

lemma store_for_set_store [simp]:
  "length (cs_tables s) = TABLE_SLOTS \<Longrightarrow> valid_table t \<Longrightarrow> store_for t (set_store t st s) = st"
  by (simp add: store_for_def set_store_def slot_of_bound)

lemma slot_of_inject: "slot_of t = slot_of t' \<longleftrightarrow> t = t'"
  by (simp add: slot_of_def flip: word_unat_eq_iff)

lemma store_for_set_store_other [simp]:
  "t \<noteq> t' \<Longrightarrow> store_for t' (set_store t st s) = store_for t' s"
  by (simp add: store_for_def set_store_def slot_of_inject)

lemma set_store_frame [simp]:
  "cs_lock_ready (set_store t st s) = cs_lock_ready s"
  "cs_initialised (set_store t st s) = cs_initialised s"
  "cs_generation (set_store t st s) = cs_generation s"
  "cs_signals (set_store t st s) = cs_signals s"
  "length (cs_tables (set_store t st s)) = length (cs_tables s)"
  by (simp_all add: set_store_def)

lemma store_for_generation [simp]: "store_for t (s\<lparr>cs_generation := g\<rparr>) = store_for t s"
  by (simp add: store_for_def)

lemma core_inv_store: "core_inv s \<Longrightarrow> valid_table t \<Longrightarrow> store_ok (store_for t s)"
  by (simp add: core_inv_def store_for_def slot_of_bound)

lemma core_inv_set_store: "core_inv s \<Longrightarrow> store_ok st \<Longrightarrow> core_inv (set_store t st s)"
  using set_update_subset_insert [of "cs_tables s" "slot_of t" st]
  by (auto simp: core_inv_def set_store_def)

lemma core_inv_generation [simp]: "core_inv (s\<lparr>cs_generation := g\<rparr>) = core_inv s"
  by (simp add: core_inv_def)

lemma delete_row_length: "delete_row e rs = Some rs' \<Longrightarrow> length rs = Suc (length rs')"
  by (induction rs arbitrary: rs') (auto split: if_splits)

lemma delete_row_remove1: "delete_row e rs = (if e \<in> set rs then Some (remove1 e rs) else None)"
  by (induction rs) auto

lemma search_rows_index:
  "search_rows entry rs i = Some (j, r) \<Longrightarrow> i \<le> j \<and> j < i + length rs \<and> rs ! (j - i) = r \<and> row_matches entry r"
proof (induction rs arbitrary: i)
  case (Cons a rs)
  show ?case
  proof (cases "row_matches entry a")
    case False
    with Cons.prems Cons.IH [of "i + 1"] show ?thesis
      by (auto simp: nth_Cons' Suc_diff_le)
  qed (use Cons.prems in auto)
qed simp

lemma core_inv_init: "core_inv s \<Longrightarrow> core_inv (snd (daim_init mutex_ok s)) \<and> (mutex_ok \<longrightarrow> running (snd (daim_init mutex_ok s)))"
  by (simp add: core_inv_def daim_init_def Let_def running_def empty_store_def store_ok_def)

lemma core_inv_quit: "core_inv s \<Longrightarrow> core_inv (daim_quit s)"
  by (simp add: core_inv_def daim_quit_def empty_store_def store_ok_def)

lemma core_inv_write:
  assumes "core_inv s"
  shows "core_inv (snd (daim_table_write t entry op s))"
proof (cases "writable_table t")
  case True
  then have v: "valid_table t" by (rule writable_valid)
  from core_inv_store [OF assms v] show ?thesis
    by (auto simp: daim_table_write_def Let_def store_ok_def assms split: option.splits
        intro!: core_inv_set_store [OF assms] dest: delete_row_length)
qed (simp add: daim_table_write_def assms)

lemma core_inv_read:
  assumes "core_inv s"
  shows "core_inv (snd (daim_table_read t entry s))"
proof (cases "valid_table t")
  case True
  from core_inv_store [OF assms this] show ?thesis
    by (auto simp: daim_table_read_def Let_def store_ok_def assms split: option.splits prod.splits
        intro!: core_inv_set_store [OF assms] dest!: search_rows_index)
qed (simp add: daim_table_read_def assms)

lemma core_inv_rewind: "core_inv s \<Longrightarrow> core_inv (daim_table_rewind t s)"
  by (auto simp: daim_table_rewind_def store_ok_def intro!: core_inv_set_store)

lemma core_inv_signal: "core_inv s \<Longrightarrow> core_inv (daim_signal sig h s)"
  by (simp add: core_inv_def daim_signal_def)

subsection \<open>Walking a table\<close>

fun read_times :: "nat \<Rightarrow> u8 \<Rightarrow> 'h core_state \<Rightarrow> bytes option list" where
  "read_times 0 t s = []"
| "read_times (Suc n) t s =
     (case daim_table_read t None s of (r, s') \<Rightarrow> r # read_times n t s')"

lemma read_next:
  assumes "core_inv s" and "running s" and "valid_table t" and "store_for t s = \<lparr>ts_items = rs, ts_cursor = c\<rparr>"
  shows "daim_table_read t None s =
    (if c < length rs then (Some (rs ! c), set_store t \<lparr>ts_items = rs, ts_cursor = c + 1\<rparr> s) else (None, s))"
proof (cases "c < length rs")
  case True
  then have "drop c rs = rs ! c # drop (Suc c) rs" by (simp add: Cons_nth_drop_Suc)
  with assms True show ?thesis by (simp add: daim_table_read_def running_def row_matches_def)
next
  case False
  with assms show ?thesis by (simp add: daim_table_read_def running_def)
qed

lemma read_times_from:
  assumes "core_inv s" and "running s" and "valid_table t"
    and "store_for t s = \<lparr>ts_items = rs, ts_cursor = c\<rparr>" and "c \<le> length rs"
  shows "read_times (Suc (length rs - c)) t s = map Some (drop c rs) @ [None]"
  using assms
proof (induction "length rs - c" arbitrary: c s)
  case 0
  then show ?case using read_next [OF 0(2-5)] by (simp split: prod.splits)
next
  case (Suc n)
  let ?s = "set_store t \<lparr>ts_items = rs, ts_cursor = c + 1\<rparr> s"
  have c: "c < length rs" and n: "n = length rs - (c + 1)" using Suc(2) by simp_all
  have "core_inv ?s"
    using Suc.prems(1) c by (auto intro!: core_inv_set_store simp: store_ok_def)
  moreover have "running ?s" "store_for t ?s = \<lparr>ts_items = rs, ts_cursor = c + 1\<rparr>"
    using Suc.prems by (simp_all add: running_def core_inv_def)
  ultimately have inv: "core_inv ?s" "running ?s" "store_for t ?s = \<lparr>ts_items = rs, ts_cursor = c + 1\<rparr>" .
  have rest: "read_times (length rs - c) t ?s = map Some (drop (Suc c) rs) @ [None]"
    using Suc.hyps(1) [OF n inv(1,2) \<open>valid_table t\<close> inv(3)] c by (simp add: Suc_diff_Suc del: read_times.simps)
  show ?case
    using read_next [OF Suc.prems(1-4)] c rest by (simp add: Cons_nth_drop_Suc [symmetric])
qed

text \<open>
  Walking a table returns every row: after a rewind, reading with a null argument
  one time more than the table has rows yields the rows in the order they were added, each once,
  and then the null pointer.
\<close>

theorem table_walk_returns_all_rows:
  assumes "core_inv s" and "running s" and "valid_table t"
  shows "read_times (Suc (daim_core_table_count t s)) t (daim_table_rewind t s) =
         map Some (ts_items (store_for t s)) @ [None]"
proof -
  let ?st = "store_for t s" let ?s = "daim_table_rewind t s"
  have s: "?s = set_store t \<lparr>ts_items = ts_items ?st, ts_cursor = 0\<rparr> s"
    using assms by (cases ?st) (simp add: daim_table_rewind_def running_def)
  have "core_inv ?s" using assms(1) by (rule core_inv_rewind)
  moreover have "running ?s" "store_for t ?s = \<lparr>ts_items = ts_items ?st, ts_cursor = 0\<rparr>"
    using assms by (simp_all add: s running_def core_inv_def)
  ultimately have "core_inv ?s" "running ?s" "store_for t ?s = \<lparr>ts_items = ts_items ?st, ts_cursor = 0\<rparr>" .
  from read_times_from [OF this(1,2) assms(3) this(3)] assms show ?thesis
    by (simp add: daim_core_table_count_def running_def)
qed

definition core_with_rows :: "bytes list \<Rightarrow> unit core_state" where
  "core_with_rows rs =
     fold (\<lambda>r s. snd (daim_table_write DAIM_PACKET_FORWARDING_TABLE (Some r) ADD s)) rs
       (snd (daim_init True core_state0))"

lemma core_inv_rows: "core_inv (core_with_rows rs)"
proof -
  have "core_inv (fold (\<lambda>r s. snd (daim_table_write DAIM_PACKET_FORWARDING_TABLE (Some r) ADD s)) rs s)"
    if "core_inv s" for s :: "unit core_state"
    using that by (induction rs arbitrary: s) (simp_all add: core_inv_write)
  moreover have "core_inv core_state0"
    by (simp add: core_inv_def core_state0_def empty_store_def store_ok_def)
  ultimately show ?thesis
    unfolding core_with_rows_def using core_inv_init [of _ True] by blast
qed

lemma forwarding_table_writable [simp]:
  "writable_table DAIM_PACKET_FORWARDING_TABLE" "valid_table DAIM_PACKET_FORWARDING_TABLE"
  by (simp_all add: writable_table_def valid_table_def DAIM_PACKET_FORWARDING_TABLE_def FIRST_TABLE_def LAST_TABLE_def)

lemma write_add_running:
  "running s \<Longrightarrow> e \<noteq> [] \<Longrightarrow> writable_table t \<Longrightarrow> daim_table_write t (Some e) ADD s =
     (DAIM_CORE_OK, (set_store t ((store_for t s)\<lparr>ts_items := ts_items (store_for t s) @ [e]\<rparr>) s)
        \<lparr>cs_generation := cs_generation s + 1\<rparr>)"
  by (simp add: daim_table_write_def running_def Let_def)

lemma rows_of_core:
  assumes "[] \<notin> set rs"
  shows "running (core_with_rows rs) \<and>
    store_for DAIM_PACKET_FORWARDING_TABLE (core_with_rows rs) = \<lparr>ts_items = rs, ts_cursor = 0\<rparr>"
  using assms
proof (induction rs rule: rev_induct)
  case Nil
  have "store_for DAIM_PACKET_FORWARDING_TABLE (snd (daim_init True (core_state0 :: unit core_state))) = empty_store"
    by (simp add: store_for_def daim_init_def core_state0_def slot_of_def TABLE_SLOTS_def
        DAIM_PACKET_FORWARDING_TABLE_def FIRST_TABLE_def)
  then show ?case
    by (simp add: core_with_rows_def running_def daim_init_def core_state0_def empty_store_def)
next
  case (snoc r rs)
  then have ih: "running (core_with_rows rs)"
      "store_for DAIM_PACKET_FORWARDING_TABLE (core_with_rows rs) = \<lparr>ts_items = rs, ts_cursor = 0\<rparr>"
    by simp_all
  have step: "core_with_rows (rs @ [r]) =
      snd (daim_table_write DAIM_PACKET_FORWARDING_TABLE (Some r) ADD (core_with_rows rs))"
    by (simp add: core_with_rows_def)
  have "length (cs_tables (core_with_rows rs)) = TABLE_SLOTS"
    using core_inv_rows [of rs] by (simp add: core_inv_def)
  moreover have "r \<noteq> []" using snoc.prems by auto
  ultimately show ?case
    using ih unfolding step by (subst (1 2) write_add_running) (simp_all add: running_def)
qed

theorem table_walk_returns_all_rows_witness:
  "read_times 3 DAIM_PACKET_FORWARDING_TABLE
     (daim_table_rewind DAIM_PACKET_FORWARDING_TABLE (core_with_rows [[1], [2, 3]])) = [Some [1], Some [2, 3], None]"
  using table_walk_returns_all_rows [of "core_with_rows [[1], [2, 3]]" DAIM_PACKET_FORWARDING_TABLE]
    core_inv_rows [of "[[1], [2, 3]]"] rows_of_core [of "[[1], [2, 3]]"]
  by (simp add: daim_core_table_count_def running_def numeral_3_eq_3)

text \<open>
  Deleting a row the walk has already passed makes the walk skip a row: when the
  first row of a table has just been read and is then deleted, the next read returns the third
  row and the second is never returned, because the deletion moves the rows up and leaves the
  cursor where it was.
\<close>

theorem delete_of_read_row_skips_next:
  assumes "core_inv s" and "running s" and "writable_table t"
    and "store_for t s = \<lparr>ts_items = a # b # c # rs, ts_cursor = 0\<rparr>" and "a \<noteq> []"
  shows "case daim_table_read t None s of (r1, s1) \<Rightarrow>
         case daim_table_write t (Some a) DEL s1 of (st, s2) \<Rightarrow>
         case daim_table_read t None s2 of (r2, s3) \<Rightarrow>
           r1 = Some a \<and> st = DAIM_CORE_OK \<and> r2 = Some c \<and> ts_items (store_for t s2) = b # c # rs"
proof -
  have v: "valid_table t" by (rule writable_valid [OF assms(3)])
  have len: "length (cs_tables s) = TABLE_SLOTS" using assms(1) by (simp add: core_inv_def)
  have del: "DEL \<noteq> ADD" by (simp add: ADD_def DEL_def)
  show ?thesis
    using assms v len del
    by (simp add: read_next [OF assms(1,2) v assms(4)] daim_table_write_def running_def Let_def
        daim_table_read_def row_matches_def)
qed

theorem delete_of_read_row_skips_next_witness:
  "case daim_table_read DAIM_PACKET_FORWARDING_TABLE None (core_with_rows [[1], [2], [3]]) of (r1, s1) \<Rightarrow>
   case daim_table_write DAIM_PACKET_FORWARDING_TABLE (Some [1]) DEL s1 of (st, s2) \<Rightarrow>
     fst (daim_table_read DAIM_PACKET_FORWARDING_TABLE None s2) = Some [3]"
  using delete_of_read_row_skips_next [of "core_with_rows [[1], [2], [3]]" DAIM_PACKET_FORWARDING_TABLE "[1]" "[2]" "[3]" "[]"]
    core_inv_rows [of "[[1], [2], [3]]"] rows_of_core [of "[[1], [2], [3]]"]
  by (simp split: prod.splits)

end
