(* ===== verification/Learning_App.thy ===== *)
theory Learning_App
  imports Host_Laws Core_Tables Py_Values
begin

text \<open>
  The forwarding application of one node
  (\<open>implementation/src/daim_distributed_learning_app.c\<close>) with the process-per-rule switch adapter
  it is bound to (\<open>implementation/src/ovs_switch_adapter.c\<close>). The state is the process: the host
  table, DAIM Core and the application's own record, together with the two outputs a caller can
  observe, the command lines handed to the executor and the locations handed to the peer
  transport. What the executor returns for a command line is a parameter, which may depend on
  the commands before it.
\<close>

subsection \<open>Constants and data\<close>

definition PORT_FLOOD :: u16 where "PORT_FLOOD = 0xfffb"
definition PORT_NONE :: u16 where "PORT_NONE = 0xfffe"
definition MAX_BRIDGE_LEN :: nat where "MAX_BRIDGE_LEN = 64"
definition DAIM_DIST_MAX_CHAIN :: nat where "DAIM_DIST_MAX_CHAIN = 64"

lemma flood_none_differ [simp]: "PORT_FLOOD \<noteq> PORT_NONE" "PORT_NONE \<noteq> PORT_FLOOD"
  by (simp_all add: PORT_FLOOD_def PORT_NONE_def)

record no_rule_packet_info =
  info_in_port :: u16
  info_mac_src :: bytes
  info_mac_dst :: bytes
  info_ethernet_type :: u16
  info_ip_source :: u32
  info_ip_destination :: u32
  info_ip_netmask_source :: u8
  info_ip_netmask_destination :: u8
  info_ip_port_source :: u16
  info_tp_port_destination :: u16
  info_ip_proto :: u8
  info_vlan_id :: u16
  info_vlan_pcp :: u8
  info_ip_tos :: u8

record app_stats =
  no_rule_events :: u64
  flows_installed :: u64
  local_hosts_learned :: u64
  remote_updates_disseminated :: u64

definition zero_app_stats :: app_stats where
  "zero_app_stats = \<lparr>no_rule_events = 0, flows_installed = 0, local_hosts_learned = 0,
     remote_updates_disseminated = 0\<rparr>"

text \<open>Whether the adapter has a usable \<open>flow_add\<close> and whether there is a transport are flags.\<close>

record app_state =
  app_ready :: bool
  app_adapter :: bool
  app_transport :: bool
  my_node_id :: u64
  my_dpid :: u64
  host_port :: u16
  chain_order :: "u64 list"
  port_toward_lower :: u16
  port_toward_higher :: u16
  current_bridge :: string
  decided_port :: u16
  app_counts :: app_stats

definition g_app0 :: app_state where
  "g_app0 = \<lparr>app_ready = False, app_adapter = False, app_transport = False, my_node_id = 0,
     my_dpid = 0, host_port = 0, chain_order = [], port_toward_lower = 0, port_toward_higher = 0,
     current_bridge = [], decided_port = 0, app_counts = zero_app_stats\<rparr>"

text \<open>The functions that can be registered for a signal.\<close>

datatype handler = on_no_rule_handler

record process =
  pr_hosts :: host_state
  pr_core :: "handler core_state"
  pr_app :: app_state
  pr_commands :: "string list list"
  pr_disseminated :: "daim_host_location list"

definition process0 :: process where
  "process0 = \<lparr>pr_hosts = g_state0, pr_core = core_state0, pr_app = g_app0, pr_commands = [],
     pr_disseminated = []\<rparr>"

subsection \<open>Next hops\<close>

fun index_of :: "u64 list \<Rightarrow> u64 \<Rightarrow> nat option" where
  "index_of [] n = None"
| "index_of (x # xs) n = (if x = n then Some 0 else map_option Suc (index_of xs n))"

definition chain_index_of :: "app_state \<Rightarrow> u64 \<Rightarrow> nat option" where
  "chain_index_of a n = index_of (chain_order a) n"

definition next_hop_port :: "app_state \<Rightarrow> u64 \<Rightarrow> u16" where
  "next_hop_port a target =
     (case (chain_index_of a (my_node_id a), chain_index_of a target) of
        (Some my_idx, Some target_idx) \<Rightarrow>
          if target_idx < my_idx then port_toward_lower a else port_toward_higher a
      | _ \<Rightarrow> PORT_NONE)"

subsection \<open>The OVS adapter\<close>

definition valid_token :: "string \<Rightarrow> nat \<Rightarrow> bool" where
  "valid_token value mx \<longleftrightarrow> 0 < length value \<and> length value \<le> mx \<and>
     CHR 0x0A \<notin> set value \<and> CHR 0x0D \<notin> set value"

definition ovs_argv :: "string \<Rightarrow> string \<Rightarrow> string \<Rightarrow> string list" where
  "ovs_argv command bridge flow = [''ovs-ofctl'', ''-O'', ''OpenFlow13'', command, bridge, flow]"

type_synonym executor = "string list list \<Rightarrow> string list \<Rightarrow> int"

definition ovs_flow :: "executor \<Rightarrow> string \<Rightarrow> string \<Rightarrow> string \<Rightarrow> process \<Rightarrow> int \<times> process" where
  "ovs_flow exec command bridge flow p =
     (if \<not> valid_token bridge 63 \<or> \<not> valid_token flow 511 then (- 1, p)
      else let argv = ovs_argv command bridge flow
           in (exec (pr_commands p) argv, p\<lparr>pr_commands := pr_commands p @ [argv]\<rparr>))"

definition ovs_add :: "executor \<Rightarrow> string \<Rightarrow> string \<Rightarrow> process \<Rightarrow> int \<times> process" where
  "ovs_add exec bridge flow = ovs_flow exec ''add-flow'' bridge flow"

definition ovs_delete :: "executor \<Rightarrow> string \<Rightarrow> string \<Rightarrow> process \<Rightarrow> int \<times> process" where
  "ovs_delete exec bridge flow = ovs_flow exec ''del-flows'' bridge flow"

subsection \<open>Flow installation\<close>

definition format_mac :: "bytes \<Rightarrow> string" where
  "format_mac m = py_join (CHR '':'') (map (\<lambda>b. hex_pad 2 (unat b)) (take MAC_ADDR_LEN m))"

definition flow_string :: "u16 \<Rightarrow> bytes \<Rightarrow> u16 \<Rightarrow> string" where
  "flow_string in_port mac_dst out_port =
     ''priority=100,in_port='' @ nat_str 10 (unat in_port) @ '',dl_dst='' @ format_mac mac_dst @
     '',actions=output:'' @ nat_str 10 (unat out_port)"

definition add_counts :: "(app_stats \<Rightarrow> app_stats) \<Rightarrow> process \<Rightarrow> process" where
  "add_counts f p = p\<lparr>pr_app := (pr_app p)\<lparr>app_counts := f (app_counts (pr_app p))\<rparr>\<rparr>"

definition install_flow :: "executor \<Rightarrow> string \<Rightarrow> u16 \<Rightarrow> bytes \<Rightarrow> u16 \<Rightarrow> process \<Rightarrow> process" where
  "install_flow exec bridge in_port mac_dst out_port p =
     (if \<not> app_adapter (pr_app p) then p
      else case ovs_add exec bridge (flow_string in_port mac_dst out_port) p of
        (rc, p') \<Rightarrow>
          if rc = 0 then add_counts (\<lambda>c. c\<lparr>flows_installed := flows_installed c + 1\<rparr>) p' else p')"

subsection \<open>The NO_RULE handler\<close>

text \<open>
  A row of the forwarding table as the packed struct lies in memory on a little-endian machine
  with eight-byte pointers: the four match fields the handler sets, the 67 bytes of the fields it
  leaves zero, the weight, an empty packet buffer, the action count, and one output action.
\<close>

definition le16 :: "u16 \<Rightarrow> bytes" where
  "le16 v = [ucast v, ucast (drop_bit 8 v)]"

definition forwarding_row :: "no_rule_packet_info \<Rightarrow> u16 \<Rightarrow> bytes" where
  "forwarding_row info out_port =
     le16 (info_in_port info) @ take MAC_ADDR_LEN (info_mac_src info) @
     take MAC_ADDR_LEN (info_mac_dst info) @ le16 (info_ethernet_type info) @
     replicate 67 0 @ [100] @ replicate 16 0 @ le16 1 @ le16 0 @ le16 out_port @ replicate 4 0"

definition learn_source :: "u64 \<Rightarrow> no_rule_packet_info \<Rightarrow> process \<Rightarrow> process" where
  "learn_source now info p =
     (if info_in_port info \<noteq> host_port (pr_app p) then p
      else case daim_host_learn_local now (info_mac_src info) (my_dpid (pr_app p))
              (ucast (info_in_port info)) (pr_hosts p) of
        (sq, h) \<Rightarrow>
          let p1 = p\<lparr>pr_hosts := h\<rparr>
          in if sq = 0 then p1
             else
               let p2 = add_counts (\<lambda>c. c\<lparr>local_hosts_learned := local_hosts_learned c + 1\<rparr>) p1
               in case daim_host_lookup h (info_mac_src info) of
                    None \<Rightarrow> p2
                  | Some learned \<Rightarrow>
                      if app_transport (pr_app p)
                      then add_counts (\<lambda>c. c\<lparr>remote_updates_disseminated := remote_updates_disseminated c + 1\<rparr>)
                             (p2\<lparr>pr_disseminated := pr_disseminated p2 @ [learned]\<rparr>)
                      else p2)"

definition decide :: "process \<Rightarrow> bytes \<Rightarrow> u16" where
  "decide p dst =
     (case daim_host_lookup (pr_hosts p) dst of
        None \<Rightarrow> PORT_FLOOD
      | Some loc \<Rightarrow>
          if is_local loc \<noteq> 0 then ucast (owner_port loc)
          else next_hop_port (pr_app p) (origin_node_id loc))"

text \<open>What the handler does once the output port is decided: the row, the flow, the result.\<close>

definition act_on_decision :: "executor \<Rightarrow> no_rule_packet_info \<Rightarrow> u16 \<Rightarrow> process \<Rightarrow> process" where
  "act_on_decision exec info out_port p =
     (let p1 = p\<lparr>pr_core := snd (daim_table_write DAIM_PACKET_FORWARDING_TABLE
                      (Some (forwarding_row info out_port)) ADD (pr_core p))\<rparr>;
          p2 = (if out_port \<noteq> PORT_FLOOD \<and> out_port \<noteq> PORT_NONE
                then install_flow exec (current_bridge (pr_app p1)) (info_in_port info)
                       (info_mac_dst info) out_port p1
                else p1)
      in p2\<lparr>pr_app := (pr_app p2)\<lparr>decided_port := out_port\<rparr>\<rparr>)"

definition on_no_rule :: "executor \<Rightarrow> u64 \<Rightarrow> no_rule_packet_info \<Rightarrow> process \<Rightarrow> process" where
  "on_no_rule exec now info p =
     (let p1 = learn_source now info
                 (add_counts (\<lambda>c. c\<lparr>no_rule_events := no_rule_events c + 1\<rparr>) p)
      in act_on_decision exec info (decide p1 (info_mac_dst info)) p1)"

text \<open>\<open>mutex_ok\<close>: the mutex of the first initialisation can be had.\<close>

definition daim_distributed_learning_app_init ::
    "bool \<Rightarrow> bool \<Rightarrow> u64 \<Rightarrow> u64 \<Rightarrow> u16 \<Rightarrow> u64 list \<Rightarrow> u16 \<Rightarrow> u16 \<Rightarrow> bool \<Rightarrow> process \<Rightarrow> int \<times> process" where
  "daim_distributed_learning_app_init mutex_ok adapter nid dpid hport chain lower higher transport p =
     (if length chain = 0 \<or> length chain > DAIM_DIST_MAX_CHAIN then (- 1, p)
      else if \<not> app_ready (pr_app p) \<and> \<not> mutex_ok then (- 1, p)
      else (0, p\<lparr>pr_app := (pr_app p)\<lparr>app_ready := True, app_adapter := adapter, app_transport := transport,
                    my_node_id := nid, my_dpid := dpid, host_port := hport, chain_order := chain,
                    port_toward_lower := lower, port_toward_higher := higher, current_bridge := [],
                    app_counts := zero_app_stats\<rparr>,
                  pr_core := daim_signal NO_RULE on_no_rule_handler (pr_core p)\<rparr>))"

definition daim_distributed_learning_app_packet_in ::
    "executor \<Rightarrow> u64 \<Rightarrow> string \<Rightarrow> no_rule_packet_info \<Rightarrow> process \<Rightarrow> u16 \<times> process" where
  "daim_distributed_learning_app_packet_in exec now bridge info p =
     (if \<not> app_ready (pr_app p) then (PORT_NONE, p)
      else
        let p1 = p\<lparr>pr_app := (pr_app p)\<lparr>current_bridge := take (MAX_BRIDGE_LEN - 1) bridge\<rparr>\<rparr>;
            p2 = (case daim_core_emit NO_RULE (pr_core p1) of
                    None \<Rightarrow> p1
                  | Some on_no_rule_handler \<Rightarrow> on_no_rule exec now info p1)
        in (decided_port (pr_app p2), p2))"

definition daim_distributed_learning_app_stats :: "process \<Rightarrow> app_stats" where
  "daim_distributed_learning_app_stats p =
     (if \<not> app_ready (pr_app p) then zero_app_stats else app_counts (pr_app p))"

definition daim_distributed_learning_app_reset :: "process \<Rightarrow> process" where
  "daim_distributed_learning_app_reset p =
     (if \<not> app_ready (pr_app p) then p else add_counts (\<lambda>_. zero_app_stats) p)"

end
