(* ===== verification/Learning_Laws.thy ===== *)
theory Learning_Laws
  imports Learning_App
begin

text \<open>
  What one Packet-In does to the process: which addresses a node may claim, what it decides, and
  which command it hands to the executor.
\<close>

subsection \<open>The flow string is always accepted\<close>

lemma format_mac_length:
  assumes "length m = MAC_ADDR_LEN"
  shows "length (format_mac m) = 17"
proof -
  obtain a b c d e f where m: "m = [a, b, c, d, e, f]"
    using assms by (auto simp: MAC_ADDR_LEN_def numeral_eq_Suc length_Suc_conv)
  have "length (hex_pad 2 (unat x)) = 2" for x :: u8
    using unat_bounds(1) [of x] by (intro length_hex_pad) simp_all
  then show ?thesis by (simp add: format_mac_def m MAC_ADDR_LEN_def)
qed

lemma py_join_chars: "c \<in> set (py_join sep xs) \<Longrightarrow> c = sep \<or> (\<exists>x \<in> set xs. c \<in> set x)"
  by (induction sep xs rule: py_join.induct) auto

definition printable :: "string \<Rightarrow> bool" where
  "printable s \<longleftrightarrow> (\<forall>c \<in> set s. 33 \<le> (of_char c :: nat))"

lemma printable_append [simp]: "printable (s @ t) \<longleftrightarrow> printable s \<and> printable t"
  by (auto simp: printable_def)

lemma printable_nat_str: "printable (nat_str 10 n)"
  using nat_str_chars [of 10 _ n] by (force simp: printable_def)

lemma printable_format_mac: "printable (format_mac m)"
  using hex_pad_chars [of _ 2] by (force simp: printable_def format_mac_def dest: py_join_chars)

lemma printable_flow_string: "printable (flow_string ip m op)"
  unfolding flow_string_def printable_append
  by (simp add: printable_nat_str printable_format_mac) (simp add: printable_def)

lemma flow_string_valid:
  assumes "length m = MAC_ADDR_LEN"
  shows "valid_token (flow_string ip m op) 511"
proof -
  have n: "length (nat_str 10 (unat x)) \<le> 5" for x :: u16
    using unat_bounds(2) [of x] by (intro length_nat_str) simp_all
  have "length (flow_string ip m op) \<le> 511"
    using n [of ip] n [of op] format_mac_length [OF assms] by (simp add: flow_string_def)
  moreover have "CHR 0x0A \<notin> set (flow_string ip m op)" "CHR 0x0D \<notin> set (flow_string ip m op)"
    using printable_flow_string [of ip m op] by (auto simp: printable_def)
  moreover have "0 < length (flow_string ip m op)" by (simp add: flow_string_def)
  ultimately show ?thesis by (simp add: valid_token_def)
qed

subsection \<open>Frames of the steps\<close>

lemma add_counts_frame [simp]:
  "pr_hosts (add_counts f p) = pr_hosts p" "pr_core (add_counts f p) = pr_core p"
  "pr_commands (add_counts f p) = pr_commands p" "pr_disseminated (add_counts f p) = pr_disseminated p"
  "app_ready (pr_app (add_counts f p)) = app_ready (pr_app p)"
  "app_adapter (pr_app (add_counts f p)) = app_adapter (pr_app p)"
  "app_transport (pr_app (add_counts f p)) = app_transport (pr_app p)"
  "my_node_id (pr_app (add_counts f p)) = my_node_id (pr_app p)"
  "my_dpid (pr_app (add_counts f p)) = my_dpid (pr_app p)"
  "host_port (pr_app (add_counts f p)) = host_port (pr_app p)"
  "chain_order (pr_app (add_counts f p)) = chain_order (pr_app p)"
  "port_toward_lower (pr_app (add_counts f p)) = port_toward_lower (pr_app p)"
  "port_toward_higher (pr_app (add_counts f p)) = port_toward_higher (pr_app p)"
  "current_bridge (pr_app (add_counts f p)) = current_bridge (pr_app p)"
  "app_counts (pr_app (add_counts f p)) = f (app_counts (pr_app p))"
  by (simp_all add: add_counts_def)

text \<open>The configuration of the application, which no packet changes.\<close>

definition same_config :: "process \<Rightarrow> process \<Rightarrow> bool" where
  "same_config p q \<longleftrightarrow>
     app_ready (pr_app q) = app_ready (pr_app p) \<and> app_adapter (pr_app q) = app_adapter (pr_app p) \<and>
     app_transport (pr_app q) = app_transport (pr_app p) \<and> my_node_id (pr_app q) = my_node_id (pr_app p) \<and>
     my_dpid (pr_app q) = my_dpid (pr_app p) \<and> host_port (pr_app q) = host_port (pr_app p) \<and>
     chain_order (pr_app q) = chain_order (pr_app p) \<and>
     port_toward_lower (pr_app q) = port_toward_lower (pr_app p) \<and>
     port_toward_higher (pr_app q) = port_toward_higher (pr_app p)"

lemma same_config_refl [simp]: "same_config p p"
  by (simp add: same_config_def)

lemma same_config_trans: "same_config p q \<Longrightarrow> same_config q r \<Longrightarrow> same_config p r"
  by (simp add: same_config_def)

lemma learn_source_config: "same_config p (learn_source now info p)"
  by (auto simp: learn_source_def same_config_def Let_def split: prod.splits option.splits)

lemma learn_source_frame [simp]:
  "pr_commands (learn_source now info p) = pr_commands p"
  "pr_core (learn_source now info p) = pr_core p"
  "current_bridge (pr_app (learn_source now info p)) = current_bridge (pr_app p)"
  by (auto simp: learn_source_def Let_def split: prod.splits option.splits)

lemma learn_source_hosts:
  "pr_hosts (learn_source now info p) =
     (if info_in_port info = host_port (pr_app p)
      then snd (daim_host_learn_local now (info_mac_src info) (my_dpid (pr_app p))
             (ucast (info_in_port info)) (pr_hosts p))
      else pr_hosts p)"
  by (auto simp: learn_source_def Let_def split: prod.splits option.splits)

lemma install_flow_frame [simp]:
  "pr_hosts (install_flow exec b ip m op p) = pr_hosts p"
  "pr_core (install_flow exec b ip m op p) = pr_core p"
  "pr_disseminated (install_flow exec b ip m op p) = pr_disseminated p"
  "same_config p (install_flow exec b ip m op p)"
  by (auto simp: install_flow_def ovs_add_def ovs_flow_def same_config_def Let_def split: prod.splits)

lemma install_flow_commands:
  "length m = MAC_ADDR_LEN \<Longrightarrow> pr_commands (install_flow exec b ip m op p) = pr_commands p @
     (if app_adapter (pr_app p) \<and> valid_token b 63 then [ovs_argv ''add-flow'' b (flow_string ip m op)] else [])"
  by (auto simp: install_flow_def ovs_add_def ovs_flow_def Let_def flow_string_valid split: prod.splits)

lemma decide_config: "same_config p q \<Longrightarrow> pr_hosts q = pr_hosts p \<Longrightarrow> decide q m = decide p m"
  by (simp add: decide_def next_hop_port_def chain_index_of_def same_config_def split: option.splits)

lemma act_on_decision_frame:
  "pr_hosts (act_on_decision exec info port p) = pr_hosts p"
  "pr_disseminated (act_on_decision exec info port p) = pr_disseminated p"
  by (simp_all add: act_on_decision_def Let_def)

lemma act_on_decision_config: "same_config p (act_on_decision exec info port p)"
  using install_flow_frame(4) [of "p\<lparr>pr_core := snd (daim_table_write DAIM_PACKET_FORWARDING_TABLE
      (Some (forwarding_row info port)) ADD (pr_core p))\<rparr>" exec "current_bridge (pr_app p)"
      "info_in_port info" "info_mac_dst info" port]
  by (auto simp: act_on_decision_def Let_def same_config_def)

lemma act_on_decision_commands:
  assumes "length (info_mac_dst info) = MAC_ADDR_LEN"
  shows "pr_commands (act_on_decision exec info port p) = pr_commands p @
    (if port \<noteq> PORT_FLOOD \<and> port \<noteq> PORT_NONE \<and> app_adapter (pr_app p) \<and> valid_token (current_bridge (pr_app p)) 63
     then [ovs_argv ''add-flow'' (current_bridge (pr_app p)) (flow_string (info_in_port info) (info_mac_dst info) port)]
     else [])"
  using assms by (simp add: act_on_decision_def Let_def install_flow_commands)

text \<open>The process after the learning step of a Packet-In, which the decision is taken in.\<close>

definition learned_process :: "u64 \<Rightarrow> string \<Rightarrow> no_rule_packet_info \<Rightarrow> process \<Rightarrow> process" where
  "learned_process now bridge info p = learn_source now info
     (add_counts (\<lambda>c. c\<lparr>no_rule_events := no_rule_events c + 1\<rparr>)
       (p\<lparr>pr_app := (pr_app p)\<lparr>current_bridge := take (MAX_BRIDGE_LEN - 1) bridge\<rparr>\<rparr>))"

definition handles_packets :: "process \<Rightarrow> bool" where
  "handles_packets p \<longleftrightarrow> app_ready (pr_app p) \<and> daim_core_emit NO_RULE (pr_core p) = Some on_no_rule_handler"

lemma packet_in_handled:
  assumes "handles_packets p"
  shows "daim_distributed_learning_app_packet_in exec now bridge info p =
    (let l = learned_process now bridge info p; port = decide l (info_mac_dst info)
     in (port, act_on_decision exec info port l))"
  using assms
  by (simp add: daim_distributed_learning_app_packet_in_def handles_packets_def Let_def on_no_rule_def
      learned_process_def act_on_decision_def)

lemma learned_config: "same_config p (learned_process now bridge info p)"
  using learn_source_config [of "add_counts (\<lambda>c. c\<lparr>no_rule_events := no_rule_events c + 1\<rparr>)
      (p\<lparr>pr_app := (pr_app p)\<lparr>current_bridge := take (MAX_BRIDGE_LEN - 1) bridge\<rparr>\<rparr>)" now info]
  by (simp add: learned_process_def same_config_def)

lemma learned_frame [simp]:
  "pr_commands (learned_process now bridge info p) = pr_commands p"
  "current_bridge (pr_app (learned_process now bridge info p)) = take (MAX_BRIDGE_LEN - 1) bridge"
  by (simp_all add: learned_process_def)

lemma learned_hosts:
  "pr_hosts (learned_process now bridge info p) =
     (if info_in_port info = host_port (pr_app p)
      then snd (daim_host_learn_local now (info_mac_src info) (my_dpid (pr_app p))
             (ucast (info_in_port info)) (pr_hosts p))
      else pr_hosts p)"
  by (simp add: learned_process_def learn_source_hosts)

subsection \<open>Properties of a Packet-In\<close>

text \<open>
  Property C12. A frame in transit claims nothing: when a Packet-In arrives on any other port than
  the host port, the node's host table and the list of locations handed to the peers are
  unchanged, whatever source address the frame carries, so no flooded frame makes a switch on
  its way claim a host attached elsewhere.
\<close>

theorem transit_frames_claim_nothing:
  assumes "handles_packets p" and "info_in_port info \<noteq> host_port (pr_app p)"
  shows "case daim_distributed_learning_app_packet_in exec now bridge info p of
    (port, q) \<Rightarrow> pr_hosts q = pr_hosts p \<and> pr_disseminated q = pr_disseminated p \<and>
      port = decide p (info_mac_dst info)"
proof -
  let ?l = "learned_process now bridge info p"
  have "pr_hosts ?l = pr_hosts p" "pr_disseminated ?l = pr_disseminated p"
    using assms(2) by (simp_all add: learned_process_def learn_source_def)
  then show ?thesis
    using decide_config [OF learned_config [of p now bridge info]]
    by (simp add: packet_in_handled [OF assms(1)] Let_def act_on_decision_frame)
qed

text \<open>A node of the chain 1, 2, 3, 4 as its process configures it.\<close>

definition sample_process :: "u64 \<Rightarrow> process" where
  "sample_process n = snd (daim_distributed_learning_app_init True True n 0 1 [1, 2, 3, 4] 2 3 True
     (process0\<lparr>pr_hosts := daim_host_state_init n 1 g_state0, pr_core := snd (daim_init True core_state0)\<rparr>))"

definition sample_info :: "u16 \<Rightarrow> u8 \<Rightarrow> u8 \<Rightarrow> no_rule_packet_info" where
  "sample_info port src dst =
     \<lparr>info_in_port = port, info_mac_src = [0, 0, 0, 0, 0, src], info_mac_dst = [0, 0, 0, 0, 0, dst],
      info_ethernet_type = 0x800, info_ip_source = 0, info_ip_destination = 0,
      info_ip_netmask_source = 0, info_ip_netmask_destination = 0, info_ip_port_source = 0,
      info_tp_port_destination = 0, info_ip_proto = 0, info_vlan_id = 0, info_vlan_pcp = 0,
      info_ip_tos = 0\<rparr>"

lemma sample_process_handles [simp]: "handles_packets (sample_process n)"
  by (simp add: handles_packets_def sample_process_def daim_distributed_learning_app_init_def
      DAIM_DIST_MAX_CHAIN_def process0_def daim_init_def core_state0_def daim_signal_def
      daim_core_emit_def NO_RULE_def SIGNAL_SLOTS_def Let_def)

lemma sample_process_simps [simp]:
  "pr_hosts (sample_process n) = daim_host_state_init n 1 g_state0"
  "host_port (pr_app (sample_process n)) = 1" "my_dpid (pr_app (sample_process n)) = 0"
  "my_node_id (pr_app (sample_process n)) = n" "chain_order (pr_app (sample_process n)) = [1, 2, 3, 4]"
  "port_toward_lower (pr_app (sample_process n)) = 2" "port_toward_higher (pr_app (sample_process n)) = 3"
  "app_transport (pr_app (sample_process n))" "app_adapter (pr_app (sample_process n))"
  "pr_disseminated (sample_process n) = []" "pr_commands (sample_process n) = []"
  by (simp_all add: sample_process_def daim_distributed_learning_app_init_def DAIM_DIST_MAX_CHAIN_def process0_def)

theorem transit_frames_claim_nothing_witness:
  "pr_disseminated (snd (daim_distributed_learning_app_packet_in (\<lambda>_ _. 0) 5 ''s2'' (sample_info 3 4 9)
     (sample_process 2))) = []"
  using transit_frames_claim_nothing [of "sample_process 2" "sample_info 3 4 9" "\<lambda>_ _. 0" 5 "''s2''"]
  by (simp add: sample_info_def split: prod.splits)

text \<open>
  Property C13. A frame on the host port claims its source: when the host table has room, the node
  records the address as its own under its next sequence number, hands exactly this record to
  the peer transport, and from then on decides the host port for every frame to that address,
  from whichever port it comes.
\<close>

theorem host_frames_claim_source:
  assumes "handles_packets p" and "info_in_port info = host_port (pr_app p)"
    and "ready (pr_hosts p)" and "has_room (info_mac_src info) (table (pr_hosts p))"
    and "next_local_sequence (pr_hosts p) \<noteq> 0" and "app_transport (pr_app p)"
  shows "case daim_distributed_learning_app_packet_in exec now bridge info p of
    (port, q) \<Rightarrow>
      let rec = local_record (pr_hosts p) now (info_mac_src info) (my_dpid (pr_app p)) (ucast (host_port (pr_app p)))
      in daim_host_lookup (pr_hosts q) (info_mac_src info) = Some rec \<and>
         pr_disseminated q = pr_disseminated p @ [rec] \<and>
         decide q (info_mac_src info) = host_port (pr_app p)"
proof -
  let ?l = "learned_process now bridge info p"
  let ?rec = "local_record (pr_hosts p) now (info_mac_src info) (my_dpid (pr_app p)) (ucast (host_port (pr_app p)))"
  obtain h where h: "daim_host_learn_local now (info_mac_src info) (my_dpid (pr_app p))
      (ucast (host_port (pr_app p))) (pr_hosts p) = (next_local_sequence (pr_hosts p), h)"
    using lookup_learn(1) [OF assms(3,4), of now "my_dpid (pr_app p)" "ucast (host_port (pr_app p))"]
    by (cases "daim_host_learn_local now (info_mac_src info) (my_dpid (pr_app p))
      (ucast (host_port (pr_app p))) (pr_hosts p)") auto
  have l: "daim_host_lookup h (info_mac_src info) = Some ?rec"
    using lookup_learn(2) [OF assms(3,4), of now "my_dpid (pr_app p)" "ucast (host_port (pr_app p))" "info_mac_src info"] h
    by simp
  have hosts: "pr_hosts ?l = h" and diss: "pr_disseminated ?l = pr_disseminated p @ [?rec]"
    using assms(2,5,6) h l by (simp_all add: learned_process_def learn_source_def Let_def)
  obtain port q where q: "daim_distributed_learning_app_packet_in exec now bridge info p = (port, q)"
      "q = act_on_decision exec info port ?l"
    by (auto simp: packet_in_handled [OF assms(1)] Let_def)
  have "pr_hosts q = h" "pr_disseminated q = pr_disseminated p @ [?rec]"
    using hosts diss by (simp_all add: q(2) act_on_decision_frame)
  moreover have "ucast (ucast (host_port (pr_app p)) :: u32) = host_port (pr_app p)"
    by (simp add: ucast_up_ucast_id is_up)
  ultimately show ?thesis
    using l by (simp add: q(1) Let_def decide_def) (simp add: local_record_def)
qed

theorem host_frames_claim_source_witness:
  "decide (snd (daim_distributed_learning_app_packet_in (\<lambda>_ _. 0) 5 ''s2'' (sample_info 1 4 9)
     (sample_process 2))) [0, 0, 0, 0, 0, 4] = 1"
  using host_frames_claim_source [where p = "sample_process 2" and info = "sample_info 1 4 9"
    and exec = "\<lambda>_ _. 0" and now = 5 and bridge = "''s2''"]
  by (auto simp: sample_info_def has_room_def MAX_HOST_ENTRIES_def daim_host_state_init_def Let_def
      split: prod.splits)

text \<open>
  Property C14. The decision and the switch agree: a handled Packet-In hands the executor exactly
  one \<open>ovs-ofctl add-flow\<close> command for the decided port, with the bridge name cut to 63
  characters, when the decision is a real port and the adapter accepts the bridge name; for
  PORT_FLOOD and PORT_NONE it hands it none.
\<close>

theorem packet_in_installs_decision:
  assumes "handles_packets p" and "length (info_mac_dst info) = MAC_ADDR_LEN"
  shows "case daim_distributed_learning_app_packet_in exec now bridge info p of
    (port, q) \<Rightarrow> pr_commands q = pr_commands p @
      (if port \<noteq> PORT_FLOOD \<and> port \<noteq> PORT_NONE \<and> app_adapter (pr_app p) \<and> valid_token (take 63 bridge) 63
       then [[''ovs-ofctl'', ''-O'', ''OpenFlow13'', ''add-flow'', take 63 bridge,
              flow_string (info_in_port info) (info_mac_dst info) port]]
       else [])"
  using act_on_decision_commands [OF assms(2)] learned_config [of p now bridge info]
  by (simp add: packet_in_handled [OF assms(1)] Let_def MAX_BRIDGE_LEN_def ovs_argv_def same_config_def)

theorem packet_in_installs_decision_witness:
  "pr_commands (snd (daim_distributed_learning_app_packet_in (\<lambda>_ _. 0) 5 ''s2'' (sample_info 3 4 9)
     (sample_process 2))) = []"
proof -
  have "decide (sample_process 2) (info_mac_dst (sample_info 3 4 9)) = PORT_FLOOD"
    by (simp add: decide_def daim_host_lookup_def daim_host_state_init_def)
  then have "fst (daim_distributed_learning_app_packet_in (\<lambda>_ _. 0) 5 ''s2'' (sample_info 3 4 9) (sample_process 2)) = PORT_FLOOD"
    using decide_config [OF learned_config [of "sample_process 2" 5 "''s2''" "sample_info 3 4 9"]]
    by (simp add: packet_in_handled Let_def learned_hosts sample_info_def)
  with packet_in_installs_decision [where p = "sample_process 2" and info = "sample_info 3 4 9"
      and exec = "\<lambda>_ _. 0" and now = 5 and bridge = "''s2''"]
  show ?thesis by (simp add: sample_info_def MAC_ADDR_LEN_def split: prod.splits)
qed

text \<open>
  Without DAIM Core there is no decision: when no handler is registered, as in a
  process that has not called \<open>daim_init\<close> before the application was initialised, a Packet-In
  learns nothing, installs nothing and returns whatever the last decision was.
\<close>

theorem packet_in_without_core:
  assumes "app_ready (pr_app p)" and "daim_core_emit NO_RULE (pr_core p) = None"
  shows "case daim_distributed_learning_app_packet_in exec now bridge info p of
    (port, q) \<Rightarrow> port = decided_port (pr_app p) \<and> pr_hosts q = pr_hosts p \<and> pr_core q = pr_core p \<and>
      pr_commands q = pr_commands p \<and> pr_disseminated q = pr_disseminated p"
  using assms by (simp add: daim_distributed_learning_app_packet_in_def Let_def)

theorem packet_in_without_core_witness:
  "fst (daim_distributed_learning_app_packet_in (\<lambda>_ _. 0) 5 ''s1'' (sample_info 1 4 9)
     (snd (daim_distributed_learning_app_init True True 1 0 1 [1, 2, 3, 4] 0 2 True
       (process0\<lparr>pr_hosts := daim_host_state_init 1 1 g_state0\<rparr>)))) = 0"
  using packet_in_without_core
    [of "snd (daim_distributed_learning_app_init True True 1 0 1 [1, 2, 3, 4] 0 2 True
       (process0\<lparr>pr_hosts := daim_host_state_init 1 1 g_state0\<rparr>))" "\<lambda>_ _. 0" 5 "''s1''" "sample_info 1 4 9"]
  by (simp add: daim_distributed_learning_app_init_def DAIM_DIST_MAX_CHAIN_def process0_def g_app0_def
      daim_signal_def core_state0_def daim_core_emit_def split: prod.splits)

end
