(* ===== verification/Chain_Topology.thy ===== *)
theory Chain_Topology
  imports Learning_Laws
begin

text \<open>
  The linear topology of the gates and its port numbering (\<open>ChainTopo\<close> and \<open>chain_ports\<close> of
  \<open>network/distributed_prototype_gate.py\<close>), and the path a frame takes through switches that
  forward by the decisions of their nodes.

  Mininet assigns the ports; the class comment states the rule the code relies on, that the
  links of a switch are numbered from 1 in the order they are added. The assignment is a
  parameter here and this rule is the hypothesis \<open>numbered_in_link_order\<close>.
\<close>

subsection \<open>The topology\<close>

definition N_NODES :: nat where
  "N_NODES = 4"

definition HOST_IPS :: "(nat \<times> string) list" where
  "HOST_IPS = [(1, ''10.0.0.1''), (2, ''10.0.0.2''), (3, ''10.0.0.3''), (4, ''10.0.0.4'')]"

definition switch_name :: "nat \<Rightarrow> string" where
  "switch_name i = CHR ''s'' # nat_str 10 i"

definition host_name :: "nat \<Rightarrow> string" where
  "host_name i = CHR ''h'' # nat_str 10 i"

type_synonym link = "string \<times> string"

record chain_topo =
  topo_switches :: "string list"
  topo_hosts :: "(string \<times> string) list"
  topo_links :: "link list"

definition chain_links :: "string list \<Rightarrow> string list \<Rightarrow> link list" where
  "chain_links switches hosts =
     map (\<lambda>(switch, host). (host, switch)) (zip switches hosts) @ zip switches (tl switches)"

definition ChainTopo_build :: "nat \<Rightarrow> chain_topo res" where
  "ChainTopo_build n =
     (let switches = map (\<lambda>i. switch_name (i + 1)) [0..<n]
      in res_bind
           (res_map (\<lambda>i. case map_of HOST_IPS (i + 1) of
                            None \<Rightarrow> Inl (KeyError (nat_str 10 (i + 1)))
                          | Some ip \<Rightarrow> Inr (host_name (i + 1), ip @ ''/24'')) [0..<n])
           (\<lambda>hosts. Inr \<lparr>topo_switches = switches, topo_hosts = hosts,
                          topo_links = chain_links switches (map fst hosts)\<rparr>))"

definition chain_ports :: "int \<Rightarrow> int \<Rightarrow> int \<times> int" where
  "chain_ports nid n =
     (let lower = (if nid = 1 then 0 else 2);
          higher = (if nid = 1 then 2 else if nid = n then 0 else 3)
      in (lower, higher))"

subsection \<open>Port numbers\<close>

definition touches :: "string \<Rightarrow> link \<Rightarrow> bool" where
  "touches x l \<longleftrightarrow> fst l = x \<or> snd l = x"

definition links_up_to :: "link list \<Rightarrow> nat \<Rightarrow> string \<Rightarrow> nat" where
  "links_up_to links k x = length (filter (touches x) (take (Suc k) links))"

definition numbered_in_link_order :: "link list \<Rightarrow> (nat \<Rightarrow> string \<Rightarrow> nat) \<Rightarrow> bool" where
  "numbered_in_link_order links port \<longleftrightarrow>
     (\<forall>k x. k < length links \<longrightarrow> touches x (links ! k) \<longrightarrow> port k x = links_up_to links k x)"

definition other_end :: "string \<Rightarrow> link \<Rightarrow> string" where
  "other_end x l = (if fst l = x then snd l else fst l)"

text \<open>What is at the other end of the cable in port \<open>q\<close> of \<open>x\<close>.\<close>

definition far_end :: "link list \<Rightarrow> (nat \<Rightarrow> string \<Rightarrow> nat) \<Rightarrow> string \<Rightarrow> nat \<Rightarrow> string option" where
  "far_end links port x q =
     map_option (\<lambda>k. other_end x (links ! k))
       (List.find (\<lambda>k. touches x (links ! k) \<and> port k x = q) [0..<length links])"

lemma links_up_to_mono:
  assumes "j < k" and "k < length links" and "touches x (links ! k)"
  shows "links_up_to links j x < links_up_to links k x"
proof -
  have "take (Suc k) links = take k links @ [links ! k]"
    using assms(2) by (simp add: take_Suc_conv_app_nth)
  moreover have "length (filter (touches x) (take (Suc j) links)) \<le> length (filter (touches x) (take k links))"
  proof -
    have "take (Suc j) links = take (Suc j) (take k links)" using assms(1) by (simp add: min_absorb1)
    then have "filter (touches x) (take k links) =
        filter (touches x) (take (Suc j) links) @ filter (touches x) (drop (Suc j) (take k links))"
      by (metis append_take_drop_id filter_append)
    then show ?thesis by simp
  qed
  ultimately show ?thesis using assms(3) by (simp add: links_up_to_def)
qed

lemma far_end_at:
  assumes "numbered_in_link_order links port" and "k < length links" and "touches x (links ! k)"
  shows "far_end links port x (links_up_to links k x) = Some (other_end x (links ! k))"
proof -
  let ?P = "\<lambda>j. touches x (links ! j) \<and> port j x = links_up_to links k x"
  have "?P k" using assms by (simp add: numbered_in_link_order_def)
  moreover have "\<not> ?P j" if "j < k" for j
    using links_up_to_mono [OF that assms(2,3)] that assms(1,2) by (auto simp: numbered_in_link_order_def)
  ultimately have "List.find ?P [0..<length links] = Some k"
    using assms(2) by (auto simp: find_Some_iff intro!: exI [of _ k])
  then show ?thesis by (simp add: far_end_def)
qed

lemma switch_name_inject [simp]: "switch_name i = switch_name j \<longleftrightarrow> i = j"
proof
  assume "switch_name i = switch_name j"
  then have "py_int 10 (py_str (int i)) = py_int 10 (py_str (int j))"
    by (simp add: switch_name_def py_str_def)
  then show "i = j" by (simp add: py_int_py_str)
qed simp

lemma switch_not_host [simp]: "switch_name i \<noteq> host_name j" "host_name j \<noteq> switch_name i"
  by (simp_all add: switch_name_def host_name_def)

text \<open>The links of a chain of \<open>n\<close> switches, host links first.\<close>

definition links_of :: "nat \<Rightarrow> link list" where
  "links_of n = chain_links (map (\<lambda>i. switch_name (i + 1)) [0..<n]) (map (\<lambda>i. host_name (i + 1)) [0..<n])"

lemma links_of_alt:
  "links_of n = map (\<lambda>i. (host_name (i + 1), switch_name (i + 1))) [0..<n] @
     map (\<lambda>i. (switch_name (i + 1), switch_name (i + 2))) [0..<n - 1]"
proof -
  have "zip (map f [0..<n]) (tl (map f [0..<n])) = map (\<lambda>i. (f i, f (i + 1))) [0..<n - 1]" for f :: "nat \<Rightarrow> string"
    by (rule nth_equalityI) (auto simp: nth_tl)
  moreover have "zip (map f [0..<n]) (map g [0..<n]) = map (\<lambda>i. (f i, g i)) [0..<n]" for f g :: "nat \<Rightarrow> string"
    by (simp add: zip_map_map map_zip_map2 zip_same_conv_map)
  ultimately show ?thesis by (simp add: links_of_def chain_links_def)
qed

lemma length_links_of [simp]: "length (links_of n) = n + (n - 1)"
  by (simp add: links_of_alt)

lemma nth_host_link: "k < n \<Longrightarrow> links_of n ! k = (host_name (k + 1), switch_name (k + 1))"
  by (simp add: links_of_alt nth_append)

lemma nth_switch_link: "k < n - 1 \<Longrightarrow> links_of n ! (n + k) = (switch_name (k + 1), switch_name (k + 2))"
  by (simp add: links_of_alt nth_append)

lemma length_filter_map_upt: "length (filter P (map f [0..<m])) = card {j. j < m \<and> P (f j)}"
  by (simp add: length_filter_conv_card cong: conj_cong)

lemma host_links_before:
  assumes "1 \<le> i"
  shows "length (filter (touches (switch_name i)) (map (\<lambda>j. (host_name (j + 1), switch_name (j + 1))) [0..<m])) =
    (if i \<le> m then 1 else 0)"
proof -
  have "{j. j < m \<and> touches (switch_name i) (host_name (j + 1), switch_name (j + 1))} = (if i \<le> m then {i - 1} else {})"
    using assms by (auto simp: touches_def)
  then show ?thesis unfolding length_filter_map_upt by simp
qed

lemma switch_links_before:
  assumes "1 \<le> i"
  shows "length (filter (touches (switch_name i)) (map (\<lambda>j. (switch_name (j + 1), switch_name (j + 2))) [0..<m])) =
    (if i \<le> m then 1 else 0) + (if 2 \<le> i \<and> i \<le> m + 1 then 1 else 0)"
proof -
  let ?A = "{j. j < m \<and> j + 1 = i}" and ?B = "{j. j < m \<and> j + 2 = i}"
  have eq: "{j. j < m \<and> touches (switch_name i) (switch_name (j + 1), switch_name (j + 2))} = ?A \<union> ?B"
    by (auto simp: touches_def)
  have fin: "finite ?A" "finite ?B" "?A \<inter> ?B = {}" by auto
  have "?A = (if i \<le> m then {i - 1} else {})" using assms by (simp split: if_splits) force
  then have a: "card ?A = (if i \<le> m then 1 else 0)" by simp
  have "?B = (if 2 \<le> i \<and> i \<le> m + 1 then {i - 2} else {})" by (simp split: if_splits) force
  then have b: "card ?B = (if 2 \<le> i \<and> i \<le> m + 1 then 1 else 0)" by simp
  show ?thesis unfolding length_filter_map_upt eq card_Un_disjoint [OF fin] a b ..
qed

lemma port_of_host_link:
  assumes "1 \<le> i" and "i \<le> n"
  shows "links_up_to (links_of n) (i - 1) (switch_name i) = 1"
proof -
  have "take (Suc (i - 1)) (links_of n) = map (\<lambda>j. (host_name (j + 1), switch_name (j + 1))) [0..<i]"
    using assms by (simp add: links_of_alt take_map)
  then show ?thesis using host_links_before [OF assms(1), of i] by (simp add: links_up_to_def)
qed

lemma port_of_switch_link:
  assumes "1 \<le> i" and "i \<le> n" and "k < n - 1"
  shows "links_up_to (links_of n) (n + k) (switch_name i) =
    1 + (if i \<le> k + 1 then 1 else 0) + (if 2 \<le> i \<and> i \<le> k + 2 then 1 else 0)"
proof -
  have "take (Suc (n + k)) (links_of n) = map (\<lambda>j. (host_name (j + 1), switch_name (j + 1))) [0..<n] @
      map (\<lambda>j. (switch_name (j + 1), switch_name (j + 2))) [0..<k + 1]"
    using assms(3) by (simp add: links_of_alt take_map min_def Suc_diff_le)
  then show ?thesis
    using host_links_before [OF assms(1), of n] switch_links_before [OF assms(1), of "k + 1"] assms(2)
    by (simp add: links_up_to_def)
qed

lemma far_end_host:
  assumes "numbered_in_link_order (links_of n) port" and "1 \<le> i" and "i \<le> n"
  shows "far_end (links_of n) port (switch_name i) 1 = Some (host_name i)"
  using far_end_at [OF assms(1), of "i - 1" "switch_name i"] port_of_host_link [OF assms(2,3)]
    nth_host_link [of "i - 1" n] assms by (simp add: touches_def other_end_def)

lemma far_end_lower:
  assumes "numbered_in_link_order (links_of n) port" and "1 < i" and "i \<le> n"
  shows "far_end (links_of n) port (switch_name i) 2 = Some (switch_name (i - 1))"
proof -
  obtain j where j: "i = Suc (Suc j)" using less_imp_Suc_add [OF assms(2)] by auto
  then have k: "j < n - 1" using assms(3) by simp
  have "links_up_to (links_of n) (n + j) (switch_name i) = 2"
    using port_of_switch_link [of i n j] assms k j by simp
  then show ?thesis
    using far_end_at [OF assms(1), of "n + j" "switch_name i"] nth_switch_link [OF k] k j
    by (simp add: touches_def other_end_def)
qed

lemma far_end_higher:
  assumes "numbered_in_link_order (links_of n) port" and "1 \<le> i" and "i < n"
  shows "far_end (links_of n) port (switch_name i) (if i = 1 then 2 else 3) = Some (switch_name (i + 1))"
proof -
  obtain j where j: "i = Suc j" using assms(2) by (cases i) auto
  then have k: "j < n - 1" using assms(3) by simp
  have "links_up_to (links_of n) (n + j) (switch_name i) = 1 + 1 + (if 2 \<le> i then 1 else 0)"
    using port_of_switch_link [OF assms(2) less_imp_le [OF assms(3)] k] j by simp
  then have p: "links_up_to (links_of n) (n + j) (switch_name i) = (if i = 1 then 2 else 3)"
    using j by (cases j) simp_all
  have "touches (switch_name i) (links_of n ! (n + j))" "other_end (switch_name i) (links_of n ! (n + j)) = switch_name (i + 1)"
    using nth_switch_link [OF k] j by (simp_all add: touches_def other_end_def)
  moreover have "n + j < length (links_of n)" using k by simp
  ultimately show ?thesis
    using far_end_at [OF assms(1), of "n + j" "switch_name i"] p by simp
qed

text \<open>
  \<open>chain_ports\<close> tells the truth about the topology: with ports numbered in the order
  the links are added, port 1 of every switch of a chain leads to its own host, the first port of
  \<open>chain_ports\<close> to the neighbour with the next lower number and the second to the one with the
  next higher number.
\<close>

theorem chain_ports_match_topology:
  assumes "numbered_in_link_order (links_of n) port" and "1 \<le> i" and "i \<le> n"
  shows "far_end (links_of n) port (switch_name i) 1 = Some (host_name i) \<and>
    (case chain_ports (int i) (int n) of (lower, higher) \<Rightarrow>
      (1 < i \<longrightarrow> far_end (links_of n) port (switch_name i) (nat lower) = Some (switch_name (i - 1))) \<and>
      (i < n \<longrightarrow> far_end (links_of n) port (switch_name i) (nat higher) = Some (switch_name (i + 1))))"
proof -
  have "nat (fst (chain_ports (int i) (int n))) = 2" if "1 < i"
    using that by (simp add: chain_ports_def)
  moreover have "nat (snd (chain_ports (int i) (int n))) = (if i = 1 then 2 else 3)" if "i < n"
    using that by (simp add: chain_ports_def)
  ultimately show ?thesis
    using far_end_host [OF assms] far_end_lower [OF assms(1) _ assms(3)] far_end_higher [OF assms(1,2)]
    by (simp add: case_prod_beta)
qed

lemma links_up_to_numbered: "numbered_in_link_order links (links_up_to links)"
  by (simp add: numbered_in_link_order_def)

theorem chain_ports_match_topology_witness:
  "far_end (links_of 4) (links_up_to (links_of 4)) (switch_name 2) (nat (snd (chain_ports 2 4))) =
   Some (switch_name 3)"
  using chain_ports_match_topology [OF links_up_to_numbered, of 2 4] by (simp split: prod.splits)

subsection \<open>Delivery along the chain\<close>

text \<open>
  A frame for address \<open>m\<close> at the device \<open>x\<close>: a switch forwards it out of the port its node
  decides, a host keeps it. The result is the list of devices it visits; \<open>fuel\<close> bounds their
  number.
\<close>

fun forward_path :: "nat \<Rightarrow> link list \<Rightarrow> (nat \<Rightarrow> string \<Rightarrow> nat) \<Rightarrow> (string \<Rightarrow> process option) \<Rightarrow> bytes \<Rightarrow> string
    \<Rightarrow> string list" where
  "forward_path 0 links port node m x = []"
| "forward_path (Suc fuel) links port node m x = x #
     (case node x of
        None \<Rightarrow> []
      | Some p \<Rightarrow>
          (case far_end links port x (unat (decide p m)) of
             None \<Rightarrow> []
           | Some y \<Rightarrow> forward_path fuel links port node m y))"

text \<open>The node of switch \<open>i\<close> in a chain of \<open>n\<close>, as the gate configures it.\<close>

definition chain_configured :: "nat \<Rightarrow> nat \<Rightarrow> process \<Rightarrow> bool" where
  "chain_configured n i p \<longleftrightarrow>
     my_node_id (pr_app p) = of_nat i \<and> chain_order (pr_app p) = map of_nat [1..<n + 1] \<and>
     host_port (pr_app p) = 1 \<and>
     unat (port_toward_lower (pr_app p)) = nat (fst (chain_ports (int i) (int n))) \<and>
     unat (port_toward_higher (pr_app p)) = nat (snd (chain_ports (int i) (int n)))"

text \<open>The host table of node \<open>i\<close> knows that \<open>m\<close> is attached to switch \<open>j\<close>.\<close>

definition knows_owner :: "nat \<Rightarrow> nat \<Rightarrow> bytes \<Rightarrow> process \<Rightarrow> bool" where
  "knows_owner i j m p \<longleftrightarrow>
     (\<exists>loc. daim_host_lookup (pr_hosts p) m = Some loc \<and> origin_node_id loc = of_nat j \<and>
        (if i = j then is_local loc \<noteq> 0 \<and> owner_port loc = 1 else is_local loc = 0))"

lemma index_of_chain:
  assumes "1 \<le> i" and "i \<le> n" and "n \<le> 64"
  shows "index_of (map of_nat [1..<n + 1]) (of_nat i) = Some (i - 1)"
proof -
  have "index_of (map of_nat [a..<b]) (of_nat i) = Some (i - a)" if "a \<le> i" "i < b" "b \<le> 65" for a b
    using that
  proof (induction "i - a" arbitrary: a)
    case 0
    then show ?case by (simp add: upt_conv_Cons)
  next
    case (Suc k)
    have "(of_nat a :: u64) \<noteq> of_nat i"
      using Suc.prems Suc.hyps(2) by (simp add: of_nat_inverse word_of_nat_eq_iff take_bit_eq_mod)
    with Suc.hyps(1) [of "a + 1"] Suc.hyps(2) Suc.prems show ?case by (simp add: upt_conv_Cons Suc_diff_Suc)
  qed
  from this [of 1 "n + 1"] assms show ?thesis by simp
qed

lemma decide_on_chain:
  assumes "chain_configured n i p" and "knows_owner i j m p"
    and "1 \<le> i" and "i \<le> n" and "1 \<le> j" and "j \<le> n" and "n \<le> 64"
  shows "unat (decide p m) = (if i = j then 1 else if j < i then nat (fst (chain_ports (int i) (int n)))
    else nat (snd (chain_ports (int i) (int n))))"
proof -
  obtain loc where loc: "daim_host_lookup (pr_hosts p) m = Some loc" "origin_node_id loc = of_nat j"
      "if i = j then is_local loc \<noteq> 0 \<and> owner_port loc = 1 else is_local loc = 0"
    using assms(2) by (auto simp: knows_owner_def)
  have idx: "chain_index_of (pr_app p) (my_node_id (pr_app p)) = Some (i - 1)"
      "chain_index_of (pr_app p) (origin_node_id loc) = Some (j - 1)"
    using assms(1) index_of_chain [OF assms(3,4,7)] index_of_chain [OF assms(5,6,7)] loc(2)
    by (simp_all add: chain_index_of_def chain_configured_def)
  have "j - 1 < i - 1 \<longleftrightarrow> j < i" using assms(3,5) by auto
  then show ?thesis
    using assms(1) loc idx by (auto simp: decide_def next_hop_port_def chain_configured_def)
qed

lemma forward_step:
  assumes "numbered_in_link_order (links_of n) port" and "node (switch_name i) = Some p"
    and "chain_configured n i p" and "knows_owner i j m p"
    and "1 \<le> i" and "i \<le> n" and "1 \<le> j" and "j \<le> n" and "n \<le> 64"
  shows "forward_path (Suc fuel) (links_of n) port node m (switch_name i) = switch_name i #
    forward_path fuel (links_of n) port node m
      (if i = j then host_name i else if j < i then switch_name (i - 1) else switch_name (i + 1))"
proof -
  have fst: "nat (fst (chain_ports (int i) (int n))) = 2" if "1 < i"
    using that by (simp add: chain_ports_def)
  have snd: "nat (snd (chain_ports (int i) (int n))) = (if i = 1 then 2 else 3)" if "i < n"
    using that by (simp add: chain_ports_def)
  show ?thesis
    using decide_on_chain [OF assms(3-9)] far_end_host [OF assms(1,5,6)] assms
      far_end_lower [OF assms(1) _ assms(6)] far_end_higher [OF assms(1,5)] fst snd
    by auto
qed

text \<open>A walk along the chain towards switch \<open>j\<close>, one switch per step, from below and from above.\<close>

lemma walk_up:
  assumes step: "\<And>f k. 1 \<le> k \<Longrightarrow> k \<le> j \<Longrightarrow> F (Suc f) k = switch_name k # (if k = j then home f else F f (k + 1))"
    and "\<And>f. home (Suc f) = [host_name j]" and "1 \<le> k" and "k \<le> j" and "j - k + 2 \<le> f"
  shows "F f k = map switch_name [k..<j + 1] @ [host_name j]"
  using assms(3-)
proof (induction "j - k" arbitrary: k f)
  case 0
  then have "2 \<le> f" by simp
  then obtain g where "f = 2 + g" using le_Suc_ex by blast
  then have "f = Suc (Suc g)" by simp
  with 0 step [of k "Suc g"] assms(2) show ?case by simp
next
  case (Suc d)
  then obtain g where g: "f = Suc g" by (cases f) auto
  have "F g (k + 1) = map switch_name [k + 1..<j + 1] @ [host_name j]"
    using Suc.hyps(2) Suc.prems g by (intro Suc.hyps(1)) auto
  moreover have "k < j" using Suc.hyps(2) by simp
  ultimately show ?case using step [of k g] g Suc.prems(1) by (simp add: upt_conv_Cons)
qed

lemma walk_down:
  assumes step: "\<And>f k. j < k \<Longrightarrow> k \<le> n \<Longrightarrow> F (Suc f) k = switch_name k # F f (k - 1)"
    and arrived: "\<And>f. 2 \<le> f \<Longrightarrow> F f j = [switch_name j, host_name j]" and "j \<le> k" and "k \<le> n" and "k - j + 2 \<le> f"
  shows "F f k = map switch_name (rev [j..<k + 1]) @ [host_name j]"
  using assms(3-)
proof (induction "k - j" arbitrary: k f)
  case 0
  then show ?case using arrived [of f] by simp
next
  case (Suc d)
  then obtain g where g: "f = Suc g" by (cases f) auto
  have "F g (k - 1) = map switch_name (rev [j..<k - 1 + 1]) @ [host_name j]"
    using Suc.hyps(2) Suc.prems g by (intro Suc.hyps(1)) auto
  moreover have "j < k" using Suc.hyps(2) by simp
  ultimately show ?case using step [of k g] g Suc.prems(2) by simp
qed

text \<open>
  Property C15. Frames reach their owner: in a chain of switches whose nodes are configured as the
  gate configures them and whose host tables all know that an address belongs to the host of
  switch \<open>j\<close>, a frame for it that enters at switch \<open>i\<close> is forwarded towards \<open>j\<close> one switch at a
  time and handed to the host of \<open>j\<close>, without loop, detour or drop.
\<close>

theorem frames_reach_owner:
  assumes "numbered_in_link_order (links_of n) port" and "n \<le> 64"
    and "1 \<le> i" and "i \<le> n" and "1 \<le> j" and "j \<le> n"
    and "\<forall>k. 1 \<le> k \<longrightarrow> k \<le> n \<longrightarrow> (\<exists>p. node (switch_name k) = Some p \<and> chain_configured n k p \<and> knows_owner k j m p)"
    and "node (host_name j) = None" and "n + 1 \<le> fuel"
  shows "forward_path fuel (links_of n) port node m (switch_name i) =
    map switch_name (if i \<le> j then [i..<j + 1] else rev [j..<i + 1]) @ [host_name j]"
proof -
  have step: "forward_path (Suc f) (links_of n) port node m (switch_name k) = switch_name k #
      forward_path f (links_of n) port node m
        (if k = j then host_name k else if j < k then switch_name (k - 1) else switch_name (k + 1))"
    if "1 \<le> k" "k \<le> n" for f k
    using forward_step [OF assms(1) _ _ _ that assms(5,6,2)] assms(7) that by blast
  let ?F = "\<lambda>f k. forward_path f (links_of n) port node m (switch_name k)"
  let ?home = "\<lambda>f. forward_path f (links_of n) port node m (host_name j)"
  have home: "?home (Suc f) = [host_name j]" for f using assms(8) by simp
  have up: "?F f k = map switch_name [k..<j + 1] @ [host_name j]" if "1 \<le> k" "k \<le> j" "j - k + 2 \<le> f" for f k
  proof (rule walk_up [where F = ?F and home = ?home, OF _ home that])
    show "?F (Suc g) l = switch_name l # (if l = j then ?home g else ?F g (l + 1))" if "1 \<le> l" "l \<le> j" for g l
      using step [of l g] that assms(6) by (simp del: forward_path.simps)
  qed
  have down: "?F f k = map switch_name (rev [j..<k + 1]) @ [host_name j]" if "j \<le> k" "k \<le> n" "k - j + 2 \<le> f" for f k
  proof (rule walk_down [where F = ?F, OF _ _ that])
    show "?F (Suc g) l = switch_name l # ?F g (l - 1)" if "j < l" "l \<le> n" for g l
      using step [of l g] that assms(5) by (simp del: forward_path.simps)
    show "?F g j = [switch_name j, host_name j]" if "2 \<le> g" for g
      using up [of j g] that assms(5) by (simp del: forward_path.simps)
  qed
  show ?thesis
    using up [of i fuel] down [of i fuel] assms by auto
qed

text \<open>Four nodes that learned where host 4 is: node 4 from its host port, the others from node 4.\<close>

definition host4_claim :: daim_host_location where
  "host4_claim = \<lparr>mac = [0, 0, 0, 0, 0, 4], origin_node_id = 4, owner_dpid = 0, owner_port = 1,
     owner_epoch = 1, sequence = 1, is_local = 1, learned_at_ns = 3, applied_at_ns = 3\<rparr>"

definition chain_node :: "nat \<Rightarrow> process" where
  "chain_node k = snd (daim_distributed_learning_app_init True True (of_nat k) 0 1 (map of_nat [1..<5])
     (if k = 1 then 0 else 2) (if k = 1 then 2 else if k = 4 then 0 else 3) True
     (process0\<lparr>pr_hosts :=
        (if k = 4 then snd (daim_host_learn_local 3 [0, 0, 0, 0, 0, 4] 0 1 (daim_host_state_init 4 1 g_state0))
         else snd (daim_host_apply_remote 5 host4_claim (daim_host_state_init (of_nat k) 1 g_state0)))\<rparr>))"

definition chain_nodes :: "string \<Rightarrow> process option" where
  "chain_nodes x = map_option chain_node (List.find (\<lambda>k. switch_name k = x) [1, 2, 3, 4])"

lemma chain_node_app:
  assumes "1 \<le> k" and "k \<le> 4"
  shows "chain_configured 4 k (chain_node k)"
  using assms
  by (auto simp: chain_configured_def chain_node_def daim_distributed_learning_app_init_def
      DAIM_DIST_MAX_CHAIN_def chain_ports_def)

lemma chain_node_knows:
  assumes "1 \<le> k" and "k \<le> 4"
  shows "knows_owner k 4 [0, 0, 0, 0, 0, 4] (chain_node k)"
proof (cases "k = 4")
  case True
  then show ?thesis
    by (simp add: knows_owner_def chain_node_def daim_distributed_learning_app_init_def DAIM_DIST_MAX_CHAIN_def
        lookup_learn has_room_def MAX_HOST_ENTRIES_def daim_host_state_init_def local_record_def)
next
  case False
  have "(of_nat k :: u64) \<noteq> 4" "(of_nat k :: u64) \<noteq> 0"
  proof -
    have "k \<in> {1, 2, 3}" using assms False by auto
    then show "(of_nat k :: u64) \<noteq> 4" "(of_nat k :: u64) \<noteq> 0" by auto
  qed
  with False show ?thesis
    by (simp add: knows_owner_def chain_node_def daim_distributed_learning_app_init_def DAIM_DIST_MAX_CHAIN_def
        daim_host_lookup_table table_apply table_lookup_apply has_room_def MAX_HOST_ENTRIES_def reg_step_def
        host4_claim_def daim_host_state_init_def table_lookup_def [of "[]"])
qed

theorem frames_reach_owner_witness:
  "forward_path 5 (links_of 4) (links_up_to (links_of 4)) chain_nodes [0, 0, 0, 0, 0, 4] (switch_name 1) =
   [switch_name 1, switch_name 2, switch_name 3, switch_name 4, host_name 4]"
proof -
  have "\<exists>p. chain_nodes (switch_name k) = Some p \<and> chain_configured 4 k p \<and> knows_owner k 4 [0, 0, 0, 0, 0, 4] p"
    if "1 \<le> k" "k \<le> 4" for k
  proof (intro exI conjI)
    have "k \<in> {1, 2, 3, 4}" using that by auto
    then show "chain_nodes (switch_name k) = Some (chain_node k)" by (auto simp: chain_nodes_def)
  qed (use that in \<open>rule chain_node_app chain_node_knows\<close>)+
  with frames_reach_owner [OF links_up_to_numbered, of 4 1 4 chain_nodes "[0, 0, 0, 0, 0, 4]" 5]
  show ?thesis by (simp add: chain_nodes_def upt_rec)
qed

end
