(* ===== verification/Node_Bridge.thy ===== *)
theory Node_Bridge
  imports Py_Json Chain_Topology Wire_Agreement Host_Convergence
begin

text \<open>
  One node as a Python object: \<open>network/daim_distributed_node.py\<close>. \<open>DistributedNode\<close> loads the C
  library into the process, sets its parts up in order, and converts between Python values and
  the C structs. ctypes keeps an integer modulo the width of the C type, without an overflow check.
  The state is the process with the transport's peer list and the events printed so far.

  What the operating system decides is a parameter: whether the library file exists, whether the
  mutex, the adapter's allocation, the listening socket and the dialling threads can be had, and what
  a command line returns.
\<close>

subsection \<open>Conversions\<close>

definition PY_MAC_ADDR_LEN :: nat where "PY_MAC_ADDR_LEN = 6"
definition PY_PORT_FLOOD :: int where "PY_PORT_FLOOD = 0xFFFB"
definition PY_PORT_NONE :: int where "PY_PORT_NONE = 0xFFFE"
definition HOST_PORT :: int where "HOST_PORT = 1"

definition APPLY_RESULT_NAMES :: "string list" where
  "APPLY_RESULT_NAMES = [''new'', ''updated'', ''duplicate'', ''stale_rejected'', ''ownership_conflict'', ''invalid'']"

definition mac_bytes_to_str :: "bytes \<Rightarrow> string" where
  "mac_bytes_to_str bs = py_join (CHR '':'') (map (\<lambda>b. hex_pad 2 (unat b)) bs)"

definition mac_str_to_bytes :: "string \<Rightarrow> int list res" where
  "mac_str_to_bytes m = res_map (py_int 16) (py_split (CHR '':'') m)"

text \<open>The integer a \<open>c_int\<close> holds, and \<open>(c_uint8 * n)(*xs)\<close>.\<close>

definition c_int :: "int \<Rightarrow> int" where
  "c_int i = sint (word_of_int i :: 32 word)"

definition uint8_array :: "nat \<Rightarrow> int list \<Rightarrow> bytes res" where
  "uint8_array n xs =
     (if length xs > n then Inl IndexError
      else Inr (map word_of_int xs @ replicate (n - length xs) 0))"

text \<open>What a C function sees of a Python byte string: the bytes before the first zero.\<close>

definition c_str :: "string \<Rightarrow> string" where
  "c_str s = takeWhile (\<lambda>c. c \<noteq> CHR 0x00) s"

definition location_dict :: "daim_host_location \<Rightarrow> dict" where
  "location_dict l =
     [(''mac'', JStr (mac_bytes_to_str (mac l))),
      (''origin_node_id'', JInt (uint (origin_node_id l))),
      (''owner_dpid'', JInt (uint (owner_dpid l))),
      (''owner_port'', JInt (uint (owner_port l))),
      (''owner_epoch'', JInt (uint (owner_epoch l))),
      (''sequence'', JInt (uint (sequence l))),
      (''is_local'', JBool (is_local l \<noteq> 0)),
      (''learned_at_ns'', JInt (uint (learned_at_ns l))),
      (''applied_at_ns'', JInt (uint (applied_at_ns l)))]"

subsection \<open>State and callbacks\<close>

record node =
  nd_process :: process
  nd_peers :: "(string \<times> int) list"
  nd_events :: "dict list"

record node_env =
  ne_lib_exists :: bool
  ne_mutex_ok :: bool
  ne_core_mutex_ok :: bool
  ne_app_mutex_ok :: bool
  ne_transport_ok :: "u64 \<Rightarrow> u64 \<Rightarrow> int \<Rightarrow> bool"
  ne_adapter_ok :: bool
  ne_thread_ok :: "nat \<Rightarrow> bool"
  ne_run :: executor

definition node0 :: node where
  "node0 = \<lparr>nd_process = process0, nd_peers = [], nd_events = []\<rparr>"

definition upd_process :: "(process \<Rightarrow> process) \<Rightarrow> node \<Rightarrow> node" where
  "upd_process f s = s\<lparr>nd_process := f (nd_process s)\<rparr>"

definition emit :: "string \<Rightarrow> dict \<Rightarrow> (node, unit) act" where
  "emit event kvs = act_modify (\<lambda>s. s\<lparr>nd_events := nd_events s @ [dict_merge [(''event'', JStr event)] kvs]\<rparr>)"

text \<open>The arguments up to the null pointer that ends \<open>argv\<close>.\<close>

fun executor_args :: "string option list \<Rightarrow> string list" where
  "executor_args [] = []"
| "executor_args (None # argv) = []"
| "executor_args (Some a # argv) = a # executor_args argv"

definition node_executor :: "node_env \<Rightarrow> executor" where
  "node_executor E before argv = c_int (ne_run E before (executor_args (map Some argv @ [None])))"

definition on_apply :: "u64 \<Rightarrow> daim_host_location \<Rightarrow> int \<Rightarrow> (node, unit) act" where
  "on_apply from_peer loc result =
     act_bind (act_lift (py_index APPLY_RESULT_NAMES result)) (\<lambda>name.
       emit ''apply'' ([(''from_peer_node_id'', JInt (uint from_peer)), (''result'', JStr name)] @ location_dict loc))"

definition on_lifecycle :: "string \<Rightarrow> u64 \<Rightarrow> u64 \<Rightarrow> (node, unit) act" where
  "on_lifecycle name peer detail =
     emit ''lifecycle'' [(''name'', JStr name), (''peer_node_id'', JInt (uint peer)), (''detail'', JInt (uint detail))]"

subsection \<open>Construction\<close>

text \<open>
  \<open>DistributedNode.__init__\<close>. The C calls of the constructor change the process in this order:
  the host table, DAIM Core, the transport, the adapter, the application.
\<close>

definition DistributedNode_init ::
    "node_env \<Rightarrow> int \<Rightarrow> int \<Rightarrow> int list \<Rightarrow> int \<Rightarrow> int \<Rightarrow> int \<Rightarrow> int \<Rightarrow> (node, unit) act" where
  "DistributedNode_init E nid owner_ep chain lower higher listen_port hport =
     act_bind (if ne_lib_exists E then act_return () else act_raise FileNotFoundError) (\<lambda>_.
     act_bind (act_get (\<lambda>s. ready (pr_hosts (nd_process s)) \<or> ne_mutex_ok E)) (\<lambda>ok.
     act_bind (if ok
               then act_modify (upd_process (\<lambda>p. p\<lparr>pr_hosts :=
                      daim_host_state_init (word_of_int nid) (word_of_int owner_ep) (pr_hosts p)\<rparr>))
               else act_raise (RuntimeError ''daim_host_state_init failed'')) (\<lambda>_.
     act_bind (act_get (\<lambda>s. daim_init (ne_core_mutex_ok E) (pr_core (nd_process s)))) (\<lambda>(rc, core).
     act_bind (act_modify (upd_process (\<lambda>p. p\<lparr>pr_core := core\<rparr>))) (\<lambda>_.
     act_bind (if rc \<noteq> 0 then act_raise (RuntimeError ''daim_init failed'') else act_return ()) (\<lambda>_.
     act_bind (if ne_transport_ok E (word_of_int nid) (word_of_int owner_ep) (c_int listen_port) then act_return ()
               else act_raise (RuntimeError (''daim_peer_transport_create failed (port='' @ py_str listen_port @ '')''))) (\<lambda>_.
     act_bind (if ne_adapter_ok E then act_return () else act_raise (RuntimeError ''daim_ovs_adapter_create failed'')) (\<lambda>_.
     act_bind (act_get (\<lambda>s. daim_distributed_learning_app_init (ne_app_mutex_ok E) True (word_of_int nid) 0 (word_of_int hport)
                  (map word_of_int chain) (word_of_int lower) (word_of_int higher) True (nd_process s))) (\<lambda>(rc, p).
     act_bind (act_modify (upd_process (\<lambda>_. p))) (\<lambda>_.
     if rc \<noteq> 0 then act_raise (RuntimeError ''daim_distributed_learning_app_init failed'') else act_return ()))))))))))"

subsection \<open>Methods\<close>

definition MAX_CONFIGURED_PEERS :: nat where "MAX_CONFIGURED_PEERS = 31"

definition daim_peer_transport_add_peer :: "node_env \<Rightarrow> string \<Rightarrow> int \<Rightarrow> node \<Rightarrow> int \<times> node" where
  "daim_peer_transport_add_peer E host port s =
     (if length (nd_peers s) \<ge> MAX_CONFIGURED_PEERS then (- 1, s)
      else (if ne_thread_ok E (length (nd_peers s)) then 0 else - 1,
            s\<lparr>nd_peers := nd_peers s @ [(take 63 host, port)]\<rparr>))"

definition add_peer :: "node_env \<Rightarrow> string \<Rightarrow> int \<Rightarrow> (node, unit) act" where
  "add_peer E host port =
     act_bind (act_lift (py_encode_ascii host)) (\<lambda>h s.
       case daim_peer_transport_add_peer E (c_str h) (c_int port) s of
         (rc, s') \<Rightarrow>
           (if rc \<noteq> 0 then Inl (RuntimeError (''daim_peer_transport_add_peer failed for '' @ host @ '':'' @ py_str port))
            else Inr (), s'))"

definition packet_info :: "int \<Rightarrow> bytes \<Rightarrow> bytes \<Rightarrow> int \<Rightarrow> no_rule_packet_info" where
  "packet_info in_port src dst ethertype =
     \<lparr>info_in_port = word_of_int in_port, info_mac_src = src, info_mac_dst = dst,
      info_ethernet_type = word_of_int ethertype, info_ip_source = 0, info_ip_destination = 0,
      info_ip_netmask_source = 0, info_ip_netmask_destination = 0, info_ip_port_source = 0,
      info_tp_port_destination = 0, info_ip_proto = 0, info_vlan_id = 0, info_vlan_pcp = 0, info_ip_tos = 0\<rparr>"

definition node_packet_in ::
    "node_env \<Rightarrow> u64 \<Rightarrow> string \<Rightarrow> int \<Rightarrow> int list \<Rightarrow> int list \<Rightarrow> int \<Rightarrow> (node, int) act" where
  "node_packet_in E now bridge in_port mac_src mac_dst ethertype =
     act_bind (act_lift (uint8_array PY_MAC_ADDR_LEN mac_src)) (\<lambda>src.
     act_bind (act_lift (uint8_array PY_MAC_ADDR_LEN mac_dst)) (\<lambda>dst.
     act_bind (act_lift (py_encode_ascii bridge)) (\<lambda>name s.
       case daim_distributed_learning_app_packet_in (node_executor E) now (c_str name)
              (packet_info in_port src dst ethertype) (nd_process s) of
         (port, p) \<Rightarrow> (Inr (uint port), s\<lparr>nd_process := p\<rparr>))))"


subsection \<open>Addresses\<close>

lemma mac_text_is: "mac_text = mac_bytes_to_str"
  by (intro ext) (simp add: mac_text_def mac_bytes_to_str_def)

lemma mac_str_round: "bs \<noteq> [] \<Longrightarrow> mac_str_to_bytes (mac_bytes_to_str bs) = Inr (map uint bs)"
proof -
  assume "bs \<noteq> []"
  then have "py_split (CHR '':'') (mac_bytes_to_str bs) = map (\<lambda>b. hex_pad 2 (unat b)) bs"
    unfolding mac_bytes_to_str_def by (intro py_split_join) (auto simp: hex_pad_not_special)
  then show ?thesis
    by (simp add: mac_str_to_bytes_def res_map_map o_def res_map_Inr py_int_hex_pad)
qed

lemma uint8_array_bytes [simp]: "length bs = n \<Longrightarrow> uint8_array n (map uint bs) = Inr bs"
  by (simp add: uint8_array_def map_idI)

lemma executor_args_argv [simp]: "executor_args (map Some argv @ [None]) = argv"
  by (induction argv) auto

lemma c_str_id: "CHR 0x00 \<notin> set s \<Longrightarrow> c_str s = s"
  by (auto simp: c_str_def takeWhile_eq_all_conv)

subsection \<open>Properties\<close>

definition node_can_start :: "node_env \<Rightarrow> int \<Rightarrow> int \<Rightarrow> int list \<Rightarrow> int \<Rightarrow> bool" where
  "node_can_start E nid owner_ep chain listen_port \<longleftrightarrow> ne_lib_exists E \<and> ne_mutex_ok E \<and> ne_core_mutex_ok E \<and>
     ne_transport_ok E (word_of_int nid) (word_of_int owner_ep) (c_int listen_port) \<and> ne_adapter_ok E \<and>
     ne_app_mutex_ok E \<and> 0 < length chain \<and> length chain \<le> DAIM_DIST_MAX_CHAIN"

text \<open>The process of a node that was constructed.\<close>

definition started :: "int \<Rightarrow> int \<Rightarrow> int list \<Rightarrow> int \<Rightarrow> int \<Rightarrow> int \<Rightarrow> process" where
  "started nid owner_ep chain lower higher hport =
     snd (daim_distributed_learning_app_init True True (word_of_int nid) 0 (word_of_int hport)
       (map word_of_int chain) (word_of_int lower) (word_of_int higher) True
       (process0\<lparr>pr_hosts := daim_host_state_init (word_of_int nid) (word_of_int owner_ep) g_state0,
                 pr_core := snd (daim_init True core_state0)\<rparr>))"

lemma started_simps:
  fixes nid owner_ep lower higher hport :: int
  assumes "0 < length chain" and "length chain \<le> DAIM_DIST_MAX_CHAIN"
  defines "p \<equiv> started nid owner_ep chain lower higher hport"
  shows "handles_packets p" and "app_transport (pr_app p)" and "app_adapter (pr_app p)"
    and "pr_hosts p = daim_host_state_init (word_of_int nid) (word_of_int owner_ep) g_state0"
    and "my_node_id (pr_app p) = word_of_int nid" and "my_dpid (pr_app p) = 0"
    and "host_port (pr_app p) = word_of_int hport" and "chain_order (pr_app p) = map word_of_int chain"
    and "port_toward_lower (pr_app p) = word_of_int lower" and "port_toward_higher (pr_app p) = word_of_int higher"
    and "pr_commands p = []" and "pr_disseminated p = []"
  using assms
  by (auto simp: started_def handles_packets_def daim_distributed_learning_app_init_def process0_def daim_init_def
      core_state0_def daim_signal_def daim_core_emit_def NO_RULE_def SIGNAL_SLOTS_def Let_def)

lemma node_simps [simp]:
  "nd_process node0 = process0" "nd_peers node0 = []" "nd_events node0 = []"
  "nd_process (upd_process f s) = f (nd_process s)" "nd_events (upd_process f s) = nd_events s"
  by (simp_all add: node0_def upd_process_def)

lemma node_init_run:
  "DistributedNode_init E nid owner_ep chain lower higher listen_port hport node0 =
     (if \<not> ne_lib_exists E then (Inl FileNotFoundError, node0)
      else if \<not> ne_mutex_ok E then (Inl (RuntimeError ''daim_host_state_init failed''), node0)
      else if \<not> ne_core_mutex_ok E
      then (Inl (RuntimeError ''daim_init failed''),
            upd_process (\<lambda>p. p\<lparr>pr_hosts := daim_host_state_init (word_of_int nid) (word_of_int owner_ep) g_state0\<rparr>) node0)
      else let s = upd_process (\<lambda>p. p\<lparr>pr_hosts := daim_host_state_init (word_of_int nid) (word_of_int owner_ep) g_state0,
                      pr_core := snd (daim_init True core_state0)\<rparr>) node0
        in if \<not> ne_transport_ok E (word_of_int nid) (word_of_int owner_ep) (c_int listen_port)
           then (Inl (RuntimeError (''daim_peer_transport_create failed (port='' @ py_str listen_port @ '')'')), s)
           else if \<not> ne_adapter_ok E then (Inl (RuntimeError ''daim_ovs_adapter_create failed''), s)
           else if \<not> (0 < length chain \<and> length chain \<le> DAIM_DIST_MAX_CHAIN) \<or> \<not> ne_app_mutex_ok E
           then (Inl (RuntimeError ''daim_distributed_learning_app_init failed''), s)
           else (Inr (), node0\<lparr>nd_process := started nid owner_ep chain lower higher hport\<rparr>))"
  by (simp add: DistributedNode_init_def act_bind_def act_return_def act_raise_def act_modify_def act_get_def
      upd_process_def node0_def process0_def daim_init_def DAIM_CORE_OK_def DAIM_CORE_ERROR_def started_def Let_def
      daim_distributed_learning_app_init_def core_state0_def g_state0_def g_app0_def)

text \<open>
  Property C16 (construction). A node is constructed exactly when the library is there, its mutexes,
  listening socket and adapter can be had, and the chain has between 1 and 64 members. Then, and
  only then, does its process answer Packet-Ins: the handler is registered with a running DAIM
  Core, the host table is empty and carries the node's identity and epoch, and the application
  knows the chain and its two ports. The datapath id it announces as the owner's is 0. A failed construction raises
  \<open>FileNotFoundError\<close> or \<open>RuntimeError\<close>.
\<close>

theorem node_construction:
  "case DistributedNode_init E nid owner_ep chain lower higher listen_port hport node0 of
    (r, s) \<Rightarrow>
      handles_packets (nd_process s) = node_can_start E nid owner_ep chain listen_port \<and>
      (if node_can_start E nid owner_ep chain listen_port
       then r = Inr () \<and>
         pr_hosts (nd_process s) = daim_host_state_init (word_of_int nid) (word_of_int owner_ep) g_state0 \<and>
         (let a = pr_app (nd_process s)
          in app_transport a \<and> app_adapter a \<and> my_node_id a = word_of_int nid \<and> my_dpid a = 0 \<and>
             host_port a = word_of_int hport \<and> chain_order a = map word_of_int chain \<and>
             port_toward_lower a = word_of_int lower \<and> port_toward_higher a = word_of_int higher)
       else r = Inl FileNotFoundError \<or> (\<exists>msg. r = Inl (RuntimeError msg)))"
proof (cases "node_can_start E nid owner_ep chain listen_port")
  case True
  then have len: "0 < length chain" "length chain \<le> DAIM_DIST_MAX_CHAIN" by (simp_all add: node_can_start_def)
  have "DistributedNode_init E nid owner_ep chain lower higher listen_port hport node0 =
      (Inr (), node0\<lparr>nd_process := started nid owner_ep chain lower higher hport\<rparr>)"
    using True by (simp add: node_init_run node_can_start_def)
  with True show ?thesis using started_simps [OF len, of nid owner_ep lower higher hport] by simp
next
  case False
  have "\<not> handles_packets process0" "\<not> handles_packets (process0\<lparr>pr_hosts := h\<rparr>)"
      "\<not> handles_packets (process0\<lparr>pr_hosts := h, pr_core := c\<rparr>)" for h c
    by (simp_all add: handles_packets_def process0_def g_app0_def)
  with False show ?thesis
    by (auto simp: node_init_run node_can_start_def Let_def)
qed

text \<open>The name the event stream has for a result.\<close>

fun result_name :: "daim_host_apply_result \<Rightarrow> string" where
  "result_name DAIM_HOST_APPLY_NEW = ''new''"
| "result_name DAIM_HOST_APPLY_UPDATED = ''updated''"
| "result_name DAIM_HOST_APPLY_DUPLICATE = ''duplicate''"
| "result_name DAIM_HOST_APPLY_STALE_REJECTED = ''stale_rejected''"
| "result_name DAIM_HOST_APPLY_OWNERSHIP_CONFLICT = ''ownership_conflict''"
| "result_name DAIM_HOST_APPLY_INVALID = ''invalid''"

lemma apply_result_named: "py_index APPLY_RESULT_NAMES (apply_result_int r) = Inr (result_name r)"
  by (cases r) (simp_all add: py_index_def APPLY_RESULT_NAMES_def)

definition apply_event :: "u64 \<Rightarrow> daim_host_location \<Rightarrow> daim_host_apply_result \<Rightarrow> dict" where
  "apply_event from_peer l r =
     [(''event'', JStr ''apply''), (''from_peer_node_id'', JInt (uint from_peer)),
      (''result'', JStr (result_name r))] @ location_dict l"

lemma on_apply_run:
  "on_apply from_peer l (apply_result_int r) s =
     (Inr (), s\<lparr>nd_events := nd_events s @ [apply_event from_peer l r]\<rparr>)"
  by (simp add: on_apply_def apply_result_named emit_def apply_event_def location_dict_def)

text \<open>
  The transport's callback never raises for a result the C code can
  return, and prints one event that names the result and repeats the location: every field the Python
  peer decodes from the location's wire form stands under its key with the same value.
\<close>

theorem apply_events_report:
  assumes "length (mac l) = 6"
  shows "\<exists>ev pl. on_apply from_peer l (apply_result_int r) s = (Inr (), s\<lparr>nd_events := nd_events s @ [ev]\<rparr>) \<and>
    decode_host_location (daim_peer_encode_host_location l) = Inr pl \<and>
    dict_get ev ''event'' = JStr ''apply'' \<and> dict_get ev ''result'' = JStr (result_name r) \<and>
    dict_get ev ''from_peer_node_id'' = JInt (uint from_peer) \<and>
    dict_get ev ''mac'' = JStr (pl_mac pl) \<and> dict_get ev ''origin_node_id'' = JInt (pl_origin_node_id pl) \<and>
    dict_get ev ''owner_dpid'' = JInt (pl_owner_dpid pl) \<and> dict_get ev ''owner_port'' = JInt (pl_owner_port pl) \<and>
    dict_get ev ''owner_epoch'' = JInt (pl_owner_epoch pl) \<and> dict_get ev ''sequence'' = JInt (pl_sequence pl) \<and>
    dict_get ev ''is_local'' = JBool (pl_is_local pl) \<and>
    dict_get ev ''learned_at_ns'' = JInt (pl_learned_at_ns pl) \<and>
    dict_get ev ''applied_at_ns'' = JInt (pl_applied_at_ns pl)"
proof -
  let ?ev = "apply_event from_peer l r"
  have "dict_get ?ev ''event'' = JStr ''apply''" "dict_get ?ev ''result'' = JStr (result_name r)"
    "dict_get ?ev ''from_peer_node_id'' = JInt (uint from_peer)"
    "dict_get ?ev ''mac'' = JStr (mac_text (mac l))" "dict_get ?ev ''origin_node_id'' = JInt (uint (origin_node_id l))"
    "dict_get ?ev ''owner_dpid'' = JInt (uint (owner_dpid l))" "dict_get ?ev ''owner_port'' = JInt (uint (owner_port l))"
    "dict_get ?ev ''owner_epoch'' = JInt (uint (owner_epoch l))" "dict_get ?ev ''sequence'' = JInt (uint (sequence l))"
    "dict_get ?ev ''is_local'' = JBool (is_local l \<noteq> 0)"
    "dict_get ?ev ''learned_at_ns'' = JInt (uint (learned_at_ns l))"
    "dict_get ?ev ''applied_at_ns'' = JInt (uint (applied_at_ns l))"
    by (simp_all add: apply_event_def location_dict_def dict_get_def mac_text_is)
  then show ?thesis
    using unpack_location [OF assms, of "[]"] on_apply_run [of from_peer l r s] by auto
qed

theorem apply_events_report_witness:
  "\<exists>ev. nd_events (snd (on_apply 4 (sample_claim 4 1 7) 0 node0)) = [ev] \<and> dict_get ev ''result'' = JStr ''new''"
  using apply_events_report [of "sample_claim 4 1 7" 4 DAIM_HOST_APPLY_NEW node0]
  by (auto simp: sample_claim_def node0_def)

end
