(* ===== verification/Node_Controller.thy ===== *)
theory Node_Controller
  imports Node_Bridge
begin

text \<open>
  The Os-Ken application around a node (\<open>network/daim_distributed_controller.py\<close>): reading its
  configuration from the environment, dialling the peers, resolving bridge names, and the two
  OpenFlow handlers. The messages of the OpenFlow library are the values of \<open>out_msg\<close>; its protocol constants,
  the parsed Ethernet header and the output of \<open>ovs-vsctl\<close> are parameters.
\<close>

subsection \<open>Configuration\<close>

type_synonym environ = "(string \<times> string) list"

record controller_config =
  cc_node_id :: int
  cc_owner_epoch :: int
  cc_chain_order :: "int list"
  cc_port_toward_lower :: int
  cc_port_toward_higher :: int
  cc_peer_listen_port :: int
  cc_peer_addrs :: "string list"
  cc_barrier_file :: "string option"

definition environ_item :: "environ \<Rightarrow> string \<Rightarrow> string res" where
  "environ_item env k = (case map_of env k of None \<Rightarrow> Inl (KeyError k) | Some v \<Rightarrow> Inr v)"

definition environ_get :: "environ \<Rightarrow> string \<Rightarrow> string \<Rightarrow> string" where
  "environ_get env k v = (case map_of env k of None \<Rightarrow> v | Some v' \<Rightarrow> v')"

text \<open>The module's assignments, in order; a failing one ends the import with its exception.\<close>

definition read_config :: "environ \<Rightarrow> controller_config res" where
  "read_config env =
     res_bind (res_bind (environ_item env ''DAIM_NODE_ID'') (py_int 10)) (\<lambda>nid.
     res_bind (res_bind (environ_item env ''DAIM_OWNER_EPOCH'') (py_int 10)) (\<lambda>ep.
     res_bind (res_bind (environ_item env ''DAIM_CHAIN_ORDER'') (\<lambda>s. res_map (py_int 10) (py_split (CHR '','') s))) (\<lambda>chain.
     res_bind (py_int 10 (environ_get env ''DAIM_PORT_TOWARD_LOWER'' ''0'')) (\<lambda>lower.
     res_bind (py_int 10 (environ_get env ''DAIM_PORT_TOWARD_HIGHER'' ''0'')) (\<lambda>higher.
     res_bind (res_bind (environ_item env ''DAIM_PEER_LISTEN_PORT'') (py_int 10)) (\<lambda>lport.
       Inr \<lparr>cc_node_id = nid, cc_owner_epoch = ep, cc_chain_order = chain, cc_port_toward_lower = lower,
            cc_port_toward_higher = higher, cc_peer_listen_port = lport,
            cc_peer_addrs = filter (\<lambda>a. a \<noteq> []) (py_split (CHR '','') (environ_get env ''DAIM_PEER_ADDRS'' [])),
            cc_barrier_file = map_of env ''DAIM_PEER_BARRIER_FILE''\<rparr>))))))"

subsection \<open>State\<close>

record ofproto =
  OFPP_CONTROLLER :: int
  OFPCML_NO_BUFFER :: int
  OFPP_FLOOD :: int
  OFP_NO_BUFFER :: int

text \<open>
  A flow-mod with its priority, the fields of its match and its output actions (port and maximal
  length), and a packet-out with its buffer id, input port, output ports and data.
\<close>

datatype out_msg =
    FlowMod int "(string \<times> string) list" "(int \<times> int) list"
  | PacketOut int int "int list" "bytes option"

record controller =
  ct_node :: node
  ct_bridges :: "(u64 \<times> string) list"
  ct_table_miss_installed :: bool
  ct_dial_deferred :: bool
  ct_sent :: "out_msg list"
  ct_vsctl :: "string list list"

record controller_env =
  ce_node :: node_env
  ce_ofproto :: ofproto
  ce_vsctl :: "string list list \<Rightarrow> string list \<Rightarrow> string"

definition controller0 :: controller where
  "controller0 = \<lparr>ct_node = node0, ct_bridges = [], ct_table_miss_installed = False, ct_dial_deferred = False,
     ct_sent = [], ct_vsctl = []\<rparr>"

definition on_node :: "(node, 'a) act \<Rightarrow> (controller, 'a) act" where
  "on_node m s = (case m (ct_node s) of (r, n) \<Rightarrow> (r, s\<lparr>ct_node := n\<rparr>))"

subsection \<open>Start\<close>

definition dial_addr :: "node_env \<Rightarrow> string \<Rightarrow> (node, unit) act" where
  "dial_addr E addr =
     (case py_split (CHR '':'') addr of
        [host, port] \<Rightarrow> act_bind (act_lift (py_int 10 port)) (add_peer E host)
      | _ \<Rightarrow> act_raise ValueError)"

fun dial_peers :: "node_env \<Rightarrow> string list \<Rightarrow> (node, unit) act" where
  "dial_peers E [] = act_return ()"
| "dial_peers E (addr # addrs) = act_bind (dial_addr E addr) (\<lambda>_. dial_peers E addrs)"

text \<open>The constructor; the threads it starts are the operations after it.\<close>

definition DistributedNodeController_init :: "controller_env \<Rightarrow> controller_config \<Rightarrow> (controller, unit) act" where
  "DistributedNodeController_init E cfg =
     act_bind (on_node (DistributedNode_init (ce_node E) (cc_node_id cfg) (cc_owner_epoch cfg) (cc_chain_order cfg)
                (cc_port_toward_lower cfg) (cc_port_toward_higher cfg) (cc_peer_listen_port cfg) HOST_PORT)) (\<lambda>_.
     act_bind (case cc_barrier_file cfg of
                 None \<Rightarrow> on_node (dial_peers (ce_node E) (cc_peer_addrs cfg))
               | Some f \<Rightarrow>
                   if f \<noteq> [] then act_modify (\<lambda>s. s\<lparr>ct_dial_deferred := True\<rparr>)
                   else on_node (dial_peers (ce_node E) (cc_peer_addrs cfg))) (\<lambda>_.
     act_modify (\<lambda>s. s\<lparr>ct_bridges := [], ct_table_miss_installed := False\<rparr>)))"

text \<open>
  The loop before dialling: \<open>exists n\<close> says whether the barrier file is there at the n-th test.
  The result is the number of the test that found it, if there is one.
\<close>

partial_function (option) await_barrier :: "(nat \<Rightarrow> bool) \<Rightarrow> nat \<Rightarrow> nat option" where
  "await_barrier exists n = (if exists n then Some n else await_barrier exists (n + 1))"

definition dial_peers_after_barrier ::
    "controller_env \<Rightarrow> controller_config \<Rightarrow> (nat \<Rightarrow> bool) \<Rightarrow> controller \<Rightarrow> (unit res \<times> controller) option" where
  "dial_peers_after_barrier E cfg exists s =
     map_option (\<lambda>_. act_bind
         (on_node (emit ''lifecycle'' [(''name'', JStr ''peer_dial_released''), (''peer_node_id'', JInt 0),
                     (''detail'', JInt (cc_node_id cfg))]))
         (\<lambda>_. on_node (dial_peers (ce_node E) (cc_peer_addrs cfg))) s)
       (await_barrier exists 0)"

text \<open>The announcing thread waits for the flag; \<open>None\<close> while it does.\<close>

definition announce_when_ready :: "controller_config \<Rightarrow> controller \<Rightarrow> (unit res \<times> controller) option" where
  "announce_when_ready cfg s =
     (if ct_table_miss_installed s
      then Some (on_node (emit ''ready'' [(''node_id'', JInt (cc_node_id cfg))]) s)
      else None)"

subsection \<open>OpenFlow handlers\<close>

definition py_strip_char :: "char \<Rightarrow> string \<Rightarrow> string" where
  "py_strip_char c s = rev (dropWhile (\<lambda>x. x = c) (rev (dropWhile (\<lambda>x. x = c) s)))"

definition find_bridge_argv :: "string \<Rightarrow> string list" where
  "find_bridge_argv datapath_id =
     [''ovs-vsctl'', ''--bare'', ''--columns=name'', ''find'', ''bridge'',
      ''datapath_id='' @ [CHR 0x22] @ datapath_id @ [CHR 0x22]]"

definition look_up_bridge :: "controller_env \<Rightarrow> u64 \<Rightarrow> (controller, string) act" where
  "look_up_bridge E dpid s =
     (let datapath_id = hex_pad 16 (unat dpid);
          argv = find_bridge_argv datapath_id;
          name = py_strip_char (CHR 0x22) (py_strip (ce_vsctl E (ct_vsctl s) argv));
          s1 = s\<lparr>ct_vsctl := ct_vsctl s @ [argv]\<rparr>
      in if name \<noteq> [] then (Inr name, s1\<lparr>ct_bridges := (dpid, name) # ct_bridges s1\<rparr>)
         else (Inr datapath_id, s1))"

definition resolve_bridge_name :: "controller_env \<Rightarrow> u64 \<Rightarrow> (controller, string) act" where
  "resolve_bridge_name E dpid s =
     (case map_of (ct_bridges s) dpid of
        Some name \<Rightarrow> if name \<noteq> [] then (Inr name, s) else look_up_bridge E dpid s
      | None \<Rightarrow> look_up_bridge E dpid s)"

definition send_msg :: "out_msg \<Rightarrow> (controller, unit) act" where
  "send_msg m = act_modify (\<lambda>s. s\<lparr>ct_sent := ct_sent s @ [m]\<rparr>)"

definition switch_features :: "controller_env \<Rightarrow> u64 \<Rightarrow> (controller, unit) act" where
  "switch_features E dpid =
     act_bind (resolve_bridge_name E dpid) (\<lambda>_.
     act_bind (send_msg (FlowMod 0 [] [(OFPP_CONTROLLER (ce_ofproto E), OFPCML_NO_BUFFER (ce_ofproto E))])) (\<lambda>_.
     act_modify (\<lambda>s. s\<lparr>ct_table_miss_installed := True\<rparr>)))"

record packet_in_event =
  pe_dpid :: u64
  pe_in_port :: int
  pe_buffer_id :: int
  pe_data :: bytes
  pe_ethernet :: "(string \<times> string \<times> int) option"

definition controller_packet_in :: "controller_env \<Rightarrow> u64 \<Rightarrow> packet_in_event \<Rightarrow> (controller, unit) act" where
  "controller_packet_in E now ev =
     (case pe_ethernet ev of
        None \<Rightarrow> act_return ()
      | Some (src, dst, ethertype) \<Rightarrow>
          act_bind (resolve_bridge_name E (pe_dpid ev)) (\<lambda>bridge.
          act_bind (act_lift (mac_str_to_bytes src)) (\<lambda>src_bytes.
          act_bind (act_lift (mac_str_to_bytes dst)) (\<lambda>dst_bytes.
          act_bind (on_node (node_packet_in (ce_node E) now bridge (pe_in_port ev) src_bytes dst_bytes ethertype)) (\<lambda>out_port.
          act_bind (on_node (emit ''no_rule''
              [(''bridge'', JStr bridge), (''in_port'', JInt (pe_in_port ev)), (''mac_src'', JStr src),
               (''mac_dst'', JStr dst), (''out_port'', JInt out_port)])) (\<lambda>_.
          send_msg (PacketOut (pe_buffer_id ev) (pe_in_port ev)
            [if out_port = PY_PORT_FLOOD \<or> out_port = PY_PORT_NONE then OFPP_FLOOD (ce_ofproto E) else out_port]
            (if pe_buffer_id ev = OFP_NO_BUFFER (ce_ofproto E) then Some (pe_data ev) else None))))))))"

end
