(* ===== verification/Node_Launch.thy ===== *)
theory Node_Launch
  imports Node_Controller
begin

text \<open>
  How the gate starts a node (\<open>NodeProcess.__init__\<close> and \<open>start_cluster\<close> of
  \<open>network/distributed_prototype_gate.py\<close>): the environment it hands to the process and the
  addresses each node dials; and what the controller makes of them.
\<close>

subsection \<open>The launched environment\<close>

definition OFP_BASE_PORT :: int where "OFP_BASE_PORT = 16700"
definition PEER_BASE_PORT :: int where "PEER_BASE_PORT = 16800"
definition DEFAULT_OWNER_EPOCH :: int where "DEFAULT_OWNER_EPOCH = 1"

definition node_environ :: "environ \<Rightarrow> int \<Rightarrow> int \<Rightarrow> string list \<Rightarrow> environ" where
  "node_environ os_environ nid owner_ep peer_addrs =
     (case chain_ports nid (int N_NODES) of
        (lower, higher) \<Rightarrow> dict_merge os_environ
          [(''DAIM_NODE_ID'', py_str nid),
           (''DAIM_OWNER_EPOCH'', py_str owner_ep),
           (''DAIM_CHAIN_ORDER'', py_join (CHR '','') (map (\<lambda>i. py_str (int i)) [1..<N_NODES + 1])),
           (''DAIM_PORT_TOWARD_LOWER'', py_str lower),
           (''DAIM_PORT_TOWARD_HIGHER'', py_str higher),
           (''DAIM_PEER_LISTEN_PORT'', py_str (PEER_BASE_PORT + nid)),
           (''DAIM_PEER_ADDRS'', py_join (CHR '','') peer_addrs)])"

definition peer_addr :: "int \<Rightarrow> string" where
  "peer_addr j = ''127.0.0.1:'' @ py_str (PEER_BASE_PORT + j)"

definition peer_addrs_by_node :: "int \<Rightarrow> string list" where
  "peer_addrs_by_node i = map peer_addr [i + 1..int N_NODES]"

subsection \<open>Reading it back\<close>

lemma split_addrs:
  assumes "\<forall>a \<in> set addrs. a \<noteq> [] \<and> CHR '','' \<notin> set a"
  shows "filter (\<lambda>a. a \<noteq> []) (py_split (CHR '','') (py_join (CHR '','') addrs)) = addrs"
proof (cases "addrs = []")
  case False
  with assms have "py_split (CHR '','') (py_join (CHR '','') addrs) = addrs" by (intro py_split_join) auto
  with assms show ?thesis by (simp add: filter_id_conv)
qed simp

lemma split_chain:
  assumes "xs \<noteq> []"
  shows "res_map (py_int 10) (py_split (CHR '','') (py_join (CHR '','') (map py_str xs))) = Inr xs"
proof -
  have "py_split (CHR '','') (py_join (CHR '','') (map py_str xs)) = map py_str xs"
    using assms by (intro py_split_join) (auto simp: py_str_not_special)
  then show ?thesis by (simp add: res_map_map o_def py_int_py_str res_map_Inr [where g = id, simplified])
qed

definition launched_config :: "environ \<Rightarrow> int \<Rightarrow> int \<Rightarrow> string list \<Rightarrow> controller_config" where
  "launched_config os_environ nid owner_ep addrs =
     \<lparr>cc_node_id = nid, cc_owner_epoch = owner_ep, cc_chain_order = map int [1..<N_NODES + 1],
      cc_port_toward_lower = fst (chain_ports nid (int N_NODES)),
      cc_port_toward_higher = snd (chain_ports nid (int N_NODES)),
      cc_peer_listen_port = PEER_BASE_PORT + nid, cc_peer_addrs = addrs,
      cc_barrier_file = map_of os_environ ''DAIM_PEER_BARRIER_FILE''\<rparr>"

lemma read_launched:
  assumes "\<forall>a \<in> set addrs. a \<noteq> [] \<and> CHR '','' \<notin> set a"
  shows "read_config (node_environ os_environ nid owner_ep addrs) = Inr (launched_config os_environ nid owner_ep addrs)"
proof -
  obtain lower higher where cp: "chain_ports nid (int N_NODES) = (lower, higher)" by (cases "chain_ports nid (int N_NODES)")
  have chain: "map (\<lambda>i. py_str (int i)) [1..<N_NODES + 1] = map py_str (map int [1..<N_NODES + 1])" by simp
  have ne: "map int [1..<N_NODES + 1] \<noteq> []" by (simp add: N_NODES_def)
  show ?thesis
    unfolding node_environ_def cp prod.case chain
    by (simp add: read_config_def environ_item_def environ_get_def map_of_dict_merge map_add_def
        split_addrs [OF assms] split_chain [OF ne] py_int_py_str launched_config_def cp del: map_map upt_Suc One_nat_def)
qed

lemma peer_addr_plain: "peer_addr j \<noteq> []" "CHR '','' \<notin> set (peer_addr j)"
  by (simp_all add: peer_addr_def py_str_not_special)

lemma peer_addrs_plain: "\<forall>a \<in> set (peer_addrs_by_node i). a \<noteq> [] \<and> CHR '','' \<notin> set a"
  by (simp add: peer_addrs_by_node_def peer_addr_plain)

subsection \<open>Dialling\<close>

lemma c_int_small: "- (2 ^ 31) \<le> i \<Longrightarrow> i < 2 ^ 31 \<Longrightarrow> c_int i = i"
  by (simp add: c_int_def sint_sbintrunc' signed_take_bit_int_eq_self)

lemma dial_one:
  assumes "0 \<le> j" and "j < 1000" and "\<forall>k. ne_thread_ok E k" and "length (nd_peers s) < MAX_CONFIGURED_PEERS"
  shows "dial_addr E (peer_addr j) s = (Inr (), s\<lparr>nd_peers := nd_peers s @ [(''127.0.0.1'', PEER_BASE_PORT + j)]\<rparr>)"
proof -
  have "peer_addr j = ''127.0.0.1'' @ CHR '':'' # py_str (PEER_BASE_PORT + j)" by (simp add: peer_addr_def)
  then have "py_split (CHR '':'') (peer_addr j) = [''127.0.0.1'', py_str (PEER_BASE_PORT + j)]"
    using py_split_none [OF py_str_not_special(1), of "PEER_BASE_PORT + j"]
    by (simp only:) (subst py_split_append; simp)
  moreover have "c_int (PEER_BASE_PORT + j) = PEER_BASE_PORT + j"
    using assms(1,2) by (intro c_int_small) (simp_all add: PEER_BASE_PORT_def)
  moreover have "c_str ''127.0.0.1'' = ''127.0.0.1''" "py_encode_ascii ''127.0.0.1'' = Inr ''127.0.0.1''"
    by (simp_all add: c_str_def py_encode_ascii_def)
  ultimately show ?thesis
    using assms(3,4)
    by (simp add: dial_addr_def py_int_py_str add_peer_def daim_peer_transport_add_peer_def act_bind_def act_lift_def)
qed

lemma dial_all:
  assumes "\<forall>k. ne_thread_ok E k" and "\<forall>j \<in> set js. 0 \<le> j \<and> j < 1000"
    and "length (nd_peers s) + length js \<le> MAX_CONFIGURED_PEERS"
  shows "dial_peers E (map peer_addr js) s =
    (Inr (), s\<lparr>nd_peers := nd_peers s @ map (\<lambda>j. (''127.0.0.1'', PEER_BASE_PORT + j)) js\<rparr>)"
  using assms(2,3)
proof (induction js arbitrary: s)
  case Nil
  then show ?case by simp
next
  case (Cons j js)
  then show ?case using dial_one [OF _ _ assms(1), of j s] by simp
qed

subsection \<open>Properties\<close>

text \<open>
  What \<open>NodeProcess\<close> writes into the
  environment is what the controller reads: identity, epoch, chain order, both ports, the listening port
  and the peer addresses, whatever the surrounding environment holds. The barrier file
  is the one of the surrounding environment.
\<close>

theorem launched_environment_read_back:
  assumes "\<forall>a \<in> set addrs. a \<noteq> [] \<and> CHR '','' \<notin> set a"
  shows "read_config (node_environ os_environ nid owner_ep addrs) =
    Inr \<lparr>cc_node_id = nid, cc_owner_epoch = owner_ep, cc_chain_order = map int [1..<N_NODES + 1],
         cc_port_toward_lower = fst (chain_ports nid (int N_NODES)),
         cc_port_toward_higher = snd (chain_ports nid (int N_NODES)),
         cc_peer_listen_port = PEER_BASE_PORT + nid, cc_peer_addrs = addrs,
         cc_barrier_file = map_of os_environ ''DAIM_PEER_BARRIER_FILE''\<rparr>"
  using read_launched [OF assms, of os_environ nid owner_ep] by (simp add: launched_config_def)

theorem launched_environment_read_back_witness:
  "map_sum id cc_peer_addrs (read_config (node_environ [(''DAIM_NODE_ID'', ''77''), (''HOME'', ''/root'')] 2 1
     [''127.0.0.1:16803'', ''127.0.0.1:16804''])) = Inr [''127.0.0.1:16803'', ''127.0.0.1:16804'']"
  using launched_environment_read_back [of "[''127.0.0.1:16803'', ''127.0.0.1:16804'']"
    "[(''DAIM_NODE_ID'', ''77''), (''HOME'', ''/root'')]" 2 1] by simp

lemma word_of_int_chain: "map word_of_int (map int xs) = map of_nat xs"
  by simp

lemma chain_ports_small:
  assumes "chain_ports i n = (lower, higher)"
  shows "unat (word_of_int lower :: u16) = nat lower" and "unat (word_of_int higher :: u16) = nat higher"
  using assms by (auto simp: chain_ports_def split: if_splits)

lemma controller_init_run:
  assumes "node_can_start (ce_node E) (cc_node_id cfg) (cc_owner_epoch cfg) (cc_chain_order cfg) (cc_peer_listen_port cfg)"
    and "\<forall>k. ne_thread_ok (ce_node E) k" and "cc_peer_addrs cfg = map peer_addr js"
    and "\<forall>j \<in> set js. 0 \<le> j \<and> j < 1000" and "length js \<le> MAX_CONFIGURED_PEERS"
    and "cc_barrier_file cfg = None"
  shows "DistributedNodeController_init E cfg controller0 = (Inr (), controller0
    \<lparr>ct_node := node0\<lparr>nd_process := started (cc_node_id cfg) (cc_owner_epoch cfg) (cc_chain_order cfg)
        (cc_port_toward_lower cfg) (cc_port_toward_higher cfg) HOST_PORT,
      nd_peers := map (\<lambda>j. (''127.0.0.1'', PEER_BASE_PORT + j)) js\<rparr>\<rparr>)"
proof -
  let ?p = "started (cc_node_id cfg) (cc_owner_epoch cfg) (cc_chain_order cfg)
        (cc_port_toward_lower cfg) (cc_port_toward_higher cfg) HOST_PORT"
  have "DistributedNode_init (ce_node E) (cc_node_id cfg) (cc_owner_epoch cfg) (cc_chain_order cfg)
      (cc_port_toward_lower cfg) (cc_port_toward_higher cfg) (cc_peer_listen_port cfg) HOST_PORT node0 =
      (Inr (), node0\<lparr>nd_process := ?p\<rparr>)"
    using assms(1) by (simp add: node_init_run node_can_start_def)
  moreover have "dial_peers (ce_node E) (map peer_addr js) (node0\<lparr>nd_process := ?p\<rparr>) =
      (Inr (), node0\<lparr>nd_process := ?p, nd_peers := map (\<lambda>j. (''127.0.0.1'', PEER_BASE_PORT + j)) js\<rparr>)"
    using dial_all [OF assms(2,4), of "node0\<lparr>nd_process := ?p\<rparr>"] assms(5) by simp
  ultimately show ?thesis
    using assms(3,6)
    by (simp add: DistributedNodeController_init_def act_bind_def on_node_def act_modify_def controller0_def)
qed

text \<open>
  Property C17 (the launched cluster). When the machine grants what the constructor asks for, the
  controller that \<open>start_cluster\<close> launches for node \<open>i\<close> comes up with an answering process that is
  configured for place \<open>i\<close> of the chain, and dials exactly the listening ports of the nodes with a
  higher number. So every pair of nodes shares one connection, and node 4 dials nobody.
\<close>

theorem cluster_launch:
  assumes "1 \<le> i" and "i \<le> N_NODES"
    and "node_can_start (ce_node E) (int i) owner_ep (map int [1..<N_NODES + 1]) (PEER_BASE_PORT + int i)"
    and "\<forall>k. ne_thread_ok (ce_node E) k" and "map_of os_environ ''DAIM_PEER_BARRIER_FILE'' = None"
  shows "\<exists>cfg s. read_config (node_environ os_environ (int i) owner_ep (peer_addrs_by_node (int i))) = Inr cfg \<and>
    DistributedNodeController_init E cfg controller0 = (Inr (), s) \<and>
    handles_packets (nd_process (ct_node s)) \<and> chain_configured N_NODES i (nd_process (ct_node s)) \<and>
    pr_hosts (nd_process (ct_node s)) = daim_host_state_init (of_nat i) (word_of_int owner_ep) g_state0 \<and>
    nd_peers (ct_node s) = map (\<lambda>j. (''127.0.0.1'', PEER_BASE_PORT + j)) [int i + 1..int N_NODES] \<and>
    (\<forall>j \<in> {1..N_NODES}. (''127.0.0.1'', PEER_BASE_PORT + int j) \<in> set (nd_peers (ct_node s)) \<longleftrightarrow> i < j)"
proof -
  let ?cfg = "launched_config os_environ (int i) owner_ep (peer_addrs_by_node (int i))"
  obtain lower higher where cp: "chain_ports (int i) (int N_NODES) = (lower, higher)"
    by (cases "chain_ports (int i) (int N_NODES)")
  let ?p = "started (int i) owner_ep (map int [1..<N_NODES + 1]) lower higher HOST_PORT"
  have "0 < length (map int [1..<N_NODES + 1])" "length (map int [1..<N_NODES + 1]) \<le> DAIM_DIST_MAX_CHAIN"
    by (simp_all add: N_NODES_def DAIM_DIST_MAX_CHAIN_def)
  note p = started_simps [OF this, of "int i" owner_ep lower higher HOST_PORT]
  have conf: "chain_configured N_NODES i ?p"
    using p chain_ports_small [OF cp] cp word_of_int_chain [of "[1..<N_NODES + 1]"]
    by (simp add: chain_configured_def HOST_PORT_def del: map_map One_nat_def upt_Suc)
  have start: "node_can_start (ce_node E) (cc_node_id ?cfg) (cc_owner_epoch ?cfg) (cc_chain_order ?cfg) (cc_peer_listen_port ?cfg)"
    using assms(3) by (simp add: launched_config_def)
  have js: "cc_peer_addrs ?cfg = map peer_addr [int i + 1..int N_NODES]" "\<forall>j \<in> set [int i + 1..int N_NODES]. 0 \<le> j \<and> j < 1000"
      "length [int i + 1..int N_NODES] \<le> MAX_CONFIGURED_PEERS" "cc_barrier_file ?cfg = None"
    using assms(5) by (auto simp: launched_config_def peer_addrs_by_node_def N_NODES_def MAX_CONFIGURED_PEERS_def)
  have run: "DistributedNodeController_init E ?cfg controller0 = (Inr (), controller0
      \<lparr>ct_node := node0\<lparr>nd_process := ?p,
        nd_peers := map (\<lambda>j. (''127.0.0.1'', PEER_BASE_PORT + j)) [int i + 1..int N_NODES]\<rparr>\<rparr>)"
    using controller_init_run [OF start assms(4) js] cp by (simp add: launched_config_def del: One_nat_def upt_Suc)
  show ?thesis
    using read_launched [OF peer_addrs_plain, of os_environ "int i" owner_ep] run conf p(1,4)
    by (intro exI [of _ ?cfg] exI conjI) (auto simp: PEER_BASE_PORT_def)
qed

definition sample_env :: node_env where
  "sample_env = \<lparr>ne_lib_exists = True, ne_mutex_ok = True, ne_core_mutex_ok = True, ne_app_mutex_ok = True, ne_transport_ok = (\<lambda>_ _ _. True), ne_adapter_ok = True,
     ne_thread_ok = (\<lambda>_. True), ne_run = (\<lambda>_ _. 0)\<rparr>"

definition sample_ofproto :: ofproto where
  "sample_ofproto = \<lparr>OFPP_CONTROLLER = 0xfffffffd, OFPCML_NO_BUFFER = 0xffff, OFPP_FLOOD = 0xfffffffb,
     OFP_NO_BUFFER = 0xffffffff\<rparr>"

definition sample_controller_env :: controller_env where
  "sample_controller_env = \<lparr>ce_node = sample_env, ce_ofproto = sample_ofproto, ce_vsctl = (\<lambda>_ _. ''s2'' @ [CHR 0x0A])\<rparr>"

theorem cluster_launch_witness:
  "\<exists>cfg s. read_config (node_environ [] 3 1 (peer_addrs_by_node 3)) = Inr cfg \<and>
    DistributedNodeController_init sample_controller_env cfg controller0 = (Inr (), s) \<and>
    nd_peers (ct_node s) = [(''127.0.0.1'', 16804)]"
proof -
  have "node_can_start (ce_node sample_controller_env) (int 3) 1 (map int [1..<N_NODES + 1]) (PEER_BASE_PORT + int 3)"
    by (simp add: node_can_start_def sample_controller_env_def sample_env_def N_NODES_def DAIM_DIST_MAX_CHAIN_def)
  moreover have "\<forall>k. ne_thread_ok (ce_node sample_controller_env) k"
    by (simp add: sample_controller_env_def sample_env_def)
  ultimately show ?thesis
    using cluster_launch [of 3 sample_controller_env 1 "[]"]
    by (auto simp: N_NODES_def PEER_BASE_PORT_def)
qed

text \<open>A frame's addresses as the Ethernet parser gives them.\<close>

lemma packet_texts:
  assumes "length src = 6" and "length dst = 6"
  shows "mac_str_to_bytes (mac_bytes_to_str src) = Inr (map uint src)"
    and "mac_str_to_bytes (mac_bytes_to_str dst) = Inr (map uint dst)"
  using assms by (auto intro!: mac_str_round)

definition plain_name :: "string \<Rightarrow> bool" where
  "plain_name s \<longleftrightarrow> (\<forall>c \<in> set s. 0 < (of_char c :: nat) \<and> (of_char c :: nat) < 128)"

lemma plain_name_c: "plain_name s \<Longrightarrow> py_encode_ascii s = Inr s \<and> c_str s = s"
  by (force simp: plain_name_def py_encode_ascii_def c_str_def takeWhile_eq_all_conv)

lemma node_packet_in_bytes:
  assumes "length src = 6" and "length dst = 6" and "plain_name bridge"
  shows "node_packet_in E now bridge in_port (map uint src) (map uint dst) ethertype s =
    (case daim_distributed_learning_app_packet_in (node_executor E) now bridge
            (packet_info in_port src dst ethertype) (nd_process s) of
       (port, p) \<Rightarrow> (Inr (uint port), s\<lparr>nd_process := p\<rparr>))"
  using assms plain_name_c [OF assms(3)]
  by (simp add: node_packet_in_def PY_MAC_ADDR_LEN_def act_bind_def act_lift_def)

text \<open>
  Property C18 (a Packet-In end to end). For a frame with two well-formed addresses, the
  controller asks the node for a decision on exactly these addresses and the input port, prints one
  \<open>no_rule\<close> event with the decision, and sends one packet-out. It floods when the node knows no location for the
  destination, and otherwise leaves through the decided port; the frame's bytes go along exactly
  when the switch did not buffer it.
\<close>

theorem packet_in_end_to_end:
  assumes "length src = 6" and "length dst = 6"
    and "pe_ethernet ev = Some (mac_bytes_to_str src, mac_bytes_to_str dst, ethertype)"
    and "resolve_bridge_name E (pe_dpid ev) s = (Inr bridge, s1)" and "plain_name bridge"
    and "daim_distributed_learning_app_packet_in (node_executor (ce_node E)) now bridge
           (packet_info (pe_in_port ev) src dst ethertype) (nd_process (ct_node s)) = (port, p)"
  shows "\<exists>s'. controller_packet_in E now ev s = (Inr (), s') \<and> nd_process (ct_node s') = p \<and>
    nd_events (ct_node s') = nd_events (ct_node s) @
      [[(''event'', JStr ''no_rule''), (''bridge'', JStr bridge), (''in_port'', JInt (pe_in_port ev)),
        (''mac_src'', JStr (mac_bytes_to_str src)), (''mac_dst'', JStr (mac_bytes_to_str dst)),
        (''out_port'', JInt (uint port))]] \<and>
    ct_sent s' = ct_sent s @
      [PacketOut (pe_buffer_id ev) (pe_in_port ev)
        [if port = PORT_FLOOD \<or> port = PORT_NONE then OFPP_FLOOD (ce_ofproto E) else uint port]
        (if pe_buffer_id ev = OFP_NO_BUFFER (ce_ofproto E) then Some (pe_data ev) else None)]"
proof -
  have s1: "ct_node s1 = ct_node s" "ct_sent s1 = ct_sent s"
    using assms(4) by (auto simp: resolve_bridge_name_def look_up_bridge_def Let_def split: option.splits if_splits)
  have port: "uint port = PY_PORT_FLOOD \<or> uint port = PY_PORT_NONE \<longleftrightarrow> port = PORT_FLOOD \<or> port = PORT_NONE"
    by (simp add: PY_PORT_FLOOD_def PY_PORT_NONE_def PORT_FLOOD_def PORT_NONE_def word_uint_eq_iff)
  show ?thesis
    using s1 assms(6)
    by (simp add: controller_packet_in_def assms(3) act_bind_def act_lift_def assms(4) packet_texts [OF assms(1,2)]
        on_node_def node_packet_in_bytes [OF assms(1,2,5)] emit_def act_modify_def send_msg_def port)
qed

theorem packet_in_end_to_end_witness:
  "\<exists>s'. controller_packet_in sample_controller_env 5
      \<lparr>pe_dpid = 2, pe_in_port = 1, pe_buffer_id = 0xffffffff, pe_data = [1],
       pe_ethernet = Some (mac_bytes_to_str [0, 0, 0, 0, 0, 4], mac_bytes_to_str [0, 0, 0, 0, 0, 9], 0x800)\<rparr>
      (controller0\<lparr>ct_node := node0\<lparr>nd_process := sample_process 2\<rparr>\<rparr>) = (Inr (), s') \<and>
    ct_sent s' = [PacketOut 0xffffffff 1 [0xfffffffb] (Some [1])]"
proof -
  let ?s = "controller0\<lparr>ct_node := node0\<lparr>nd_process := sample_process 2\<rparr>\<rparr>"
  let ?ev = "\<lparr>pe_dpid = 2, pe_in_port = 1, pe_buffer_id = 0xffffffff, pe_data = [1],
       pe_ethernet = Some (mac_bytes_to_str [0, 0, 0, 0, 0, 4], mac_bytes_to_str [0, 0, 0, 0, 0, 9], 0x800)\<rparr>"
  let ?info = "packet_info 1 [0, 0, 0, 0, 0, 4] [0, 0, 0, 0, 0, 9] 0x800"
  obtain s1 where b: "resolve_bridge_name sample_controller_env 2 ?s = (Inr ''s2'', s1)"
    by (simp add: resolve_bridge_name_def look_up_bridge_def controller0_def sample_controller_env_def Let_def
        py_strip_def py_space_def py_strip_char_def)
  have "decide (learned_process 5 ''s2'' ?info (sample_process 2)) (info_mac_dst ?info) = PORT_FLOOD"
    by (simp add: decide_def learned_hosts packet_info_def daim_host_lookup_table table_lookup_def
        daim_host_learn_local_def daim_host_state_init_def local_record_def MAX_HOST_ENTRIES_def Let_def mac_eq_def
        MAC_ADDR_LEN_def)
  then obtain p where d: "daim_distributed_learning_app_packet_in (node_executor (ce_node sample_controller_env)) 5 ''s2'' ?info
      (nd_process (ct_node ?s)) = (PORT_FLOOD, p)"
    by (simp add: packet_in_handled Let_def)
  show ?thesis
    using packet_in_end_to_end [where src = "[0, 0, 0, 0, 0, 4]" and dst = "[0, 0, 0, 0, 0, 9]" and ev = ?ev and
        E = sample_controller_env and s = ?s and bridge = "''s2''" and now = 5 and port = PORT_FLOOD and p = p
        and ethertype = "0x800" and ?s1.0 = s1] b d
    by (auto simp: plain_name_def sample_controller_env_def sample_ofproto_def controller0_def)
qed

end
