(* ===== verification/Harness.thy ===== *)
theory Harness
  imports Py_Json Chain_Topology Synthetic_Peer
begin

text \<open>
  The world of the gate scripts: everything they do to the outside is an action that is logged and
  takes time, and everything they learn from it is a function of the actions so far. The functions are
  collected in \<open>env\<close>, which stands for the machine, the switches and the node processes.

  Also the parts of the gates that all of them use: recording events, the reader thread of a node
  process, and waiting for an event (\<open>record_raw\<close> and \<open>NodeProcess\<close> of
  \<open>network/distributed_prototype_gate.py\<close>).
\<close>

subsection \<open>Actions and time\<close>

datatype action =
    Run "string list"
  | HostCmd string string
  | Sleep rat
  | Clock
  | ReadEvents nat
  | SpawnNode nat "(string \<times> string) list" "string list"
  | PollNode nat
  | TerminateNode nat
  | KillNode nat
  | WaitNode nat rat
  | HostMAC string
  | HostIntf string
  | ConnectPeer string int
  | PeerWrote bytes
  | ClosePeer
  | StartNet
  | StopNet
  | RecordRaw string "(string \<times> json) list"
  | Print string
  | MakeTemp string
  | TouchFile string
  | RemoveFile string
  | FileExists string
  | ReadFile string
  | RunScript "(string \<times> string) list" "string list"
  | ReadLine
  | StartWatchdog rat
  | SetWatchdog

text \<open>
  \<open>en_delay\<close> is how long the last action of a history took, beyond what a sleep asks for;
  \<open>en_lines\<close> are the lines of a node's output that its reader thread read during the last
  action, each with the wall-clock and monotonic time of its recording. \<open>en_loads\<close> is \<open>json.loads\<close>.
  \<open>en_temp\<close>, \<open>en_file\<close>, \<open>en_exists\<close> and \<open>en_content\<close> are the outcomes of \<open>mkstemp\<close>, of touching or removing a file, of
  asking for one and of reading one; \<open>en_stderr\<close> is the error output of a command that was run. \<open>en_readline\<close> is a line
  read from the pipe of a process, and \<open>en_printed\<close> how many lines a process spawned last will have printed when it ends.
\<close>

record env =
  en_delay :: "action list \<Rightarrow> rat"
  en_run :: "action list \<Rightarrow> (int \<times> string) res"
  en_cmd :: "action list \<Rightarrow> string res"
  en_lines :: "action list \<Rightarrow> nat \<Rightarrow> (string \<times> rat \<times> rat) list"
  en_loads :: "string \<Rightarrow> json res"
  en_spawn :: "action list \<Rightarrow> unit res"
  en_exited :: "action list \<Rightarrow> bool"
  en_wait :: "action list \<Rightarrow> bool"
  en_pid :: "nat \<Rightarrow> int"
  en_name :: "action list \<Rightarrow> string res"
  en_run_id :: string
  en_connect :: "action list \<Rightarrow> socket res"
  en_ns :: "int \<Rightarrow> int"
  en_str :: "json \<Rightarrow> string"
  en_message :: "py_error \<Rightarrow> string"
  en_net :: "action list \<Rightarrow> unit res"
  en_randrange :: "int \<Rightarrow> nat \<Rightarrow> nat \<Rightarrow> int"
  en_temp :: "action list \<Rightarrow> string res"
  en_file :: "action list \<Rightarrow> unit res"
  en_exists :: "action list \<Rightarrow> bool"
  en_content :: "action list \<Rightarrow> string res"
  en_stderr :: "action list \<Rightarrow> string"
  en_readline :: "action list \<Rightarrow> string"
  en_printed :: "action list \<Rightarrow> nat"

record world =
  w_now :: rat
  w_log :: "action list"

definition duration :: "env \<Rightarrow> action list \<Rightarrow> action \<Rightarrow> rat" where
  "duration E hist a =
     max 0 (en_delay E (hist @ [a])) + (case a of Sleep d \<Rightarrow> max 0 d | _ \<Rightarrow> 0)"

definition perform :: "env \<Rightarrow> action \<Rightarrow> world \<Rightarrow> world" where
  "perform E a w = \<lparr>w_now = w_now w + duration E (w_log w) a, w_log = w_log w @ [a]\<rparr>"

definition do_action :: "env \<Rightarrow> action \<Rightarrow> (world, unit) act" where
  "do_action E a = act_modify (perform E a)"

text \<open>An action whose result is read off the history that ends with it.\<close>

definition ask :: "env \<Rightarrow> action \<Rightarrow> (action list \<Rightarrow> 'a res) \<Rightarrow> (world, 'a) act" where
  "ask E a f w = (let w' = perform E a w in (f (w_log w'), w'))"

definition sleep :: "env \<Rightarrow> rat \<Rightarrow> (world, unit) act" where
  "sleep E d = do_action E (Sleep d)"

definition monotonic :: "env \<Rightarrow> (world, rat) act" where
  "monotonic E w = (let w' = perform E Clock w in (Inr (w_now w'), w'))"

text \<open>The performance counter is the same clock in nanoseconds, rounded down.\<close>

definition perf_counter_ns :: "env \<Rightarrow> (world, int) act" where
  "perf_counter_ns E = act_bind (monotonic E) (\<lambda>t. act_return \<lfloor>t * 10 ^ 9\<rfloor>)"

definition run :: "env \<Rightarrow> string list \<Rightarrow> (world, int \<times> string) act" where
  "run E argv = ask E (Run argv) (en_run E)"

definition run_check :: "env \<Rightarrow> string list \<Rightarrow> (world, unit) act" where
  "run_check E argv = act_bind (run E argv) (\<lambda>(rc, out). if rc = 0 then act_return () else act_raise CalledProcessError)"

definition host_cmd :: "env \<Rightarrow> string \<Rightarrow> string \<Rightarrow> (world, string) act" where
  "host_cmd E h c = ask E (HostCmd h c) (en_cmd E)"

subsection \<open>Control flow\<close>

text \<open>\<open>try: m finally: f\<close> and \<open>try: m except E as e: h e\<close> for the exceptions \<open>h\<close> handles.\<close>

definition act_finally :: "('s, 'a) act \<Rightarrow> ('s, unit) act \<Rightarrow> ('s, 'a) act" where
  "act_finally m f s =
     (case m s of (r, s') \<Rightarrow> (case f s' of (Inl e, s'') \<Rightarrow> (Inl e, s'') | (Inr _, s'') \<Rightarrow> (r, s'')))"

definition act_catch :: "('s, 'a) act \<Rightarrow> (py_error \<Rightarrow> ('s, 'a) act option) \<Rightarrow> ('s, 'a) act" where
  "act_catch m h s =
     (case m s of
        (Inl e, s') \<Rightarrow> (case h e of None \<Rightarrow> (Inl e, s') | Some k \<Rightarrow> k s')
      | (Inr x, s') \<Rightarrow> (Inr x, s'))"

fun act_map :: "('a \<Rightarrow> ('s, 'b) act) \<Rightarrow> 'a list \<Rightarrow> ('s, 'b list) act" where
  "act_map f [] = act_return []"
| "act_map f (x # xs) = act_bind (f x) (\<lambda>y. act_bind (act_map f xs) (\<lambda>ys. act_return (y # ys)))"

fun act_each :: "('a \<Rightarrow> ('s, unit) act) \<Rightarrow> 'a list \<Rightarrow> ('s, unit) act" where
  "act_each f [] = act_return ()"
| "act_each f (x # xs) = act_bind (f x) (\<lambda>_. act_each f xs)"

subsection \<open>Events of a node\<close>

definition record_raw :: "string \<Rightarrow> string \<Rightarrow> rat \<Rightarrow> rat \<Rightarrow> json \<Rightarrow> dict res" where
  "record_raw run_id source wall mtime event =
     (case event of
        JObj d \<Rightarrow> Inr (dict_merge [(''run_id'', JStr run_id), (''source'', JStr source),
                    (''recorded_wall_time'', JFloat wall), (''recorded_monotonic_s'', JFloat mtime)] d)
      | _ \<Rightarrow> Inl TypeError)"

text \<open>
  \<open>_read_loop\<close> on the lines read so far: the recorded events, up to the first line whose
  exception ends the thread.
\<close>

fun read_loop :: "(string \<Rightarrow> json res) \<Rightarrow> string \<Rightarrow> string \<Rightarrow> (string \<times> rat \<times> rat) list \<Rightarrow> dict list" where
  "read_loop loads run_id source [] = []"
| "read_loop loads run_id source ((line, wall, mtime) # lines) =
     (let line = py_strip line
      in if line = [] then read_loop loads run_id source lines
         else case loads line of
           Inl JSONDecodeError \<Rightarrow> read_loop loads run_id source lines
         | Inl _ \<Rightarrow> []
         | Inr event \<Rightarrow>
             (case record_raw run_id source wall mtime event of
                Inl _ \<Rightarrow> []
              | Inr entry \<Rightarrow> entry # read_loop loads run_id source lines))"

text \<open>
  The events of a node belong to its last process: a spawn replaces the object that holds them, so the reading starts with
  the last spawn of the node in the history.
\<close>

fun spawns :: "nat \<Rightarrow> action \<Rightarrow> bool" where
  "spawns n (SpawnNode i e argv) = (i = n)"
| "spawns n _ = False"

definition spawned_at :: "action list \<Rightarrow> nat \<Rightarrow> nat" where
  "spawned_at hist n = length hist - length (takeWhile (\<lambda>a. \<not> spawns n a) (rev hist))"

definition lines_so_far :: "env \<Rightarrow> action list \<Rightarrow> nat \<Rightarrow> (string \<times> rat \<times> rat) list" where
  "lines_so_far E hist n = concat (map (\<lambda>k. en_lines E (take k hist) n) [spawned_at hist n..<length hist + 1])"

definition node_source :: "nat \<Rightarrow> string" where
  "node_source n = ''node'' @ nat_str 10 n"

definition node_events :: "env \<Rightarrow> action list \<Rightarrow> nat \<Rightarrow> dict list" where
  "node_events E hist n = read_loop (en_loads E) (en_run_id E) (node_source n) (lines_so_far E hist n)"

text \<open>A predicate on events may raise; the first event that satisfies it, and all that do.\<close>

type_synonym event_pred = "dict \<Rightarrow> bool res"

fun find_event :: "event_pred \<Rightarrow> dict list \<Rightarrow> dict option res" where
  "find_event P [] = Inr None"
| "find_event P (e # es) = res_bind (P e) (\<lambda>b. if b then Inr (Some e) else find_event P es)"

fun filter_events :: "event_pred \<Rightarrow> dict list \<Rightarrow> dict list res" where
  "filter_events P [] = Inr []"
| "filter_events P (e # es) =
     res_bind (P e) (\<lambda>b. res_bind (filter_events P es) (\<lambda>r. Inr (if b then e # r else r)))"

definition events_matching :: "env \<Rightarrow> nat \<Rightarrow> event_pred \<Rightarrow> (world, dict list) act" where
  "events_matching E n P = ask E (ReadEvents n) (\<lambda>hist. filter_events P (node_events E hist n))"

subsection \<open>Waiting\<close>

definition POLL_S :: rat where "POLL_S = 0.02"

lemma duration_nonneg: "0 \<le> duration E hist a"
  by (simp add: duration_def split: action.splits)

lemma perform_now: "w_now w \<le> w_now (perform E a w)"
  using duration_nonneg [of E "w_log w" a] by (simp add: perform_def)

lemma perform_sleep: "0 \<le> d \<Longrightarrow> w_now w + d \<le> w_now (perform E (Sleep d) w)"
  by (simp add: perform_def duration_def)

lemma perform_log [simp]: "w_log (perform E a w) = w_log w @ [a]"
  by (simp add: perform_def)

text \<open>A round of polling that takes at least \<open>d\<close> brings the deadline nearer; this ends the polling loops.\<close>

lemma poll_measure:
  assumes "w_now w < deadline" and "0 < d" and "w_now w + d \<le> w_now w'"
  shows "nat \<lceil>(deadline - w_now w') / d\<rceil> < nat \<lceil>(deadline - w_now w) / d\<rceil>"
proof -
  have "(deadline - w_now w') / d \<le> (deadline - w_now w - d) / d"
    using assms(2,3) by (intro divide_right_mono) auto
  also have "\<dots> = (deadline - w_now w) / d - 1" using assms(2) by (simp add: diff_divide_distrib)
  finally have "\<lceil>(deadline - w_now w') / d\<rceil> \<le> \<lceil>(deadline - w_now w) / d\<rceil> - 1" by linarith
  moreover have "0 < \<lceil>(deadline - w_now w) / d\<rceil>" using assms(1,2) by simp
  ultimately show ?thesis by linarith
qed

text \<open>
  The loop of \<open>wait_for\<close>: \<open>seen\<close> events have been tested. Every round sleeps, so the deadline is
  passed after finitely many rounds.
\<close>

function wait_loop :: "env \<Rightarrow> nat \<Rightarrow> event_pred \<Rightarrow> rat \<Rightarrow> nat \<Rightarrow> world \<Rightarrow> dict option res \<times> world" where
  "wait_loop E n P deadline seen w =
     (let w1 = perform E Clock w
      in if \<not> w_now w1 < deadline then (Inr None, w1)
         else
           let w2 = perform E (ReadEvents n) w1;
               events = node_events E (w_log w2) n
           in case find_event P (drop seen events) of
                Inl e \<Rightarrow> (Inl e, w2)
              | Inr (Some e) \<Rightarrow> (Inr (Some e), w2)
              | Inr None \<Rightarrow> wait_loop E n P deadline (length events) (perform E (Sleep POLL_S) w2))"
  by pat_completeness auto
termination
proof (relation "measure (\<lambda>(E, n, P, deadline, seen, w). nat \<lceil>(deadline - w_now w) / POLL_S\<rceil>)", goal_cases)
  case 1
  show ?case by simp
next
  case (2 E n P deadline seen w w1 w2 events x2)
  have pos: "(0 :: rat) < POLL_S" by (simp add: POLL_S_def)
  have lt: "w_now w < deadline" using 2(1,2) perform_now [of w E Clock] by auto
  have "w_now w + POLL_S \<le> w_now (perform E (Sleep POLL_S) w2)"
    using perform_sleep [of POLL_S w2 E] perform_now [of w1 E "ReadEvents n"] perform_now [of w E Clock] 2(1,3) pos
    by simp
  then show ?case using poll_measure [OF lt pos] by simp
qed

declare wait_loop.simps [simp del]

definition wait_for :: "env \<Rightarrow> nat \<Rightarrow> event_pred \<Rightarrow> rat \<Rightarrow> (world, dict option) act" where
  "wait_for E n P timeout_s = act_bind (monotonic E) (\<lambda>t. wait_loop E n P (t + timeout_s) 0)"

end
