(* ===== verification/Harness_Laws.thy ===== *)
theory Harness_Laws
  imports Harness
begin

text \<open>
  Laws of the harness: the events of a node only grow while no process is spawned, waiting with a cursor sees what a full scan
  would see, cleanup runs on every path, and what the reader thread records.
\<close>

subsection \<open>Control flow\<close>

lemma act_finally_runs:
  "act_finally m f s =
     (case m s of (r, s') \<Rightarrow> (case f s' of (Inl e, s'') \<Rightarrow> (Inl e, s'') | (Inr _, s'') \<Rightarrow> (r, s'')))"
  by (simp add: act_finally_def)

lemma act_each_append: "act_each f (xs @ ys) = act_bind (act_each f xs) (\<lambda>_. act_each f ys)"
  by (induction xs) (auto simp: fun_eq_iff act_bind_def act_return_def split: prod.splits sum.splits)

text \<open>Computations that leave a part of the state alone, whether they return or raise.\<close>

definition preserves :: "('s \<Rightarrow> 'v) \<Rightarrow> ('s, 'a) act \<Rightarrow> bool" where
  "preserves view m \<longleftrightarrow> (\<forall>s. view (snd (m s)) = view s)"

named_theorems preserves_intros \<open>computations that leave a view of the state alone\<close>

lemma preservesD: "preserves view m \<Longrightarrow> m s = (r, s') \<Longrightarrow> view s' = view s"
  unfolding preserves_def by (metis snd_conv)

lemma preserves_basic [preserves_intros, simp]:
  "preserves view (act_return x)" "preserves view (act_raise e)" "preserves view (act_lift r)" "preserves view (act_get h)"
  by (simp_all add: preserves_def act_return_def act_raise_def act_lift_def act_get_def)

lemma preserves_modify [preserves_intros]: "(\<And>s. view (f s) = view s) \<Longrightarrow> preserves view (act_modify f)"
  by (simp add: preserves_def act_modify_def)

lemma preserves_bind [preserves_intros]:
  assumes "preserves view m" and "\<And>x. preserves view (f x)"
  shows "preserves view (act_bind m f)"
  unfolding preserves_def
proof
  fix s
  obtain r s' where m: "m s = (r, s')" by (cases "m s")
  show "view (snd (act_bind m f s)) = view s"
    using m preservesD [OF assms(1) m] assms(2) by (cases r) (simp_all add: preserves_def)
qed

lemma preserves_finally [preserves_intros]:
  assumes "preserves view m" and "preserves view f"
  shows "preserves view (act_finally m f)"
  unfolding preserves_def
proof
  fix s
  obtain r s' where m: "m s = (r, s')" by (cases "m s")
  obtain r2 s'' where f: "f s' = (r2, s'')" by (cases "f s'")
  show "view (snd (act_finally m f s)) = view s"
    using m f preservesD [OF assms(1) m] preservesD [OF assms(2) f] by (cases r2) (simp_all add: act_finally_def)
qed

lemma preserves_catch [preserves_intros]:
  assumes "preserves view m" and "\<And>e k. h e = Some k \<Longrightarrow> preserves view k"
  shows "preserves view (act_catch m h)"
  unfolding preserves_def
proof
  fix s
  obtain r s' where m: "m s = (r, s')" by (cases "m s")
  show "view (snd (act_catch m h s)) = view s"
  proof (cases r)
    case (Inl e)
    then show ?thesis using m preservesD [OF assms(1) m] assms(2) [of e] by (cases "h e") (simp_all add: act_catch_def preserves_def)
  next
    case (Inr x)
    then show ?thesis using m preservesD [OF assms(1) m] by (simp add: act_catch_def)
  qed
qed

text \<open>Assertions about a computation: what holds when it returns, and what holds when it raises.\<close>

definition triple :: "('s \<Rightarrow> bool) \<Rightarrow> ('s, 'a) act \<Rightarrow> ('a \<Rightarrow> 's \<Rightarrow> bool) \<Rightarrow> ('s \<Rightarrow> bool) \<Rightarrow> bool" where
  "triple P m Q R \<longleftrightarrow> (\<forall>s. P s \<longrightarrow> (case m s of (Inr x, s') \<Rightarrow> Q x s' | (Inl e, s') \<Rightarrow> R s'))"

lemma tripleD: "triple P m (\<lambda>_. R) R \<Longrightarrow> P s \<Longrightarrow> m s = (r, s') \<Longrightarrow> R s'"
  unfolding triple_def by (cases r) fastforce+

lemma triple_bind:
  assumes "triple P m A R" and "\<And>x. triple (A x) (f x) Q R"
  shows "triple P (act_bind m f) Q R"
  unfolding triple_def
proof (intro allI impI)
  fix s assume "P s"
  obtain r s' where m: "m s = (r, s')" by (cases "m s")
  show "case act_bind m f s of (Inr x, s') \<Rightarrow> Q x s' | (Inl e, s') \<Rightarrow> R s'"
  proof (cases r)
    case (Inl e)
    with m assms(1) \<open>P s\<close> show ?thesis by (auto simp: triple_def)
  next
    case (Inr x)
    with m assms(1) \<open>P s\<close> have "A x s'" by (fastforce simp: triple_def)
    then show ?thesis using m Inr assms(2) [of x] by (simp add: triple_def)
  qed
qed

lemma triple_view:
  assumes "preserves view m" and "\<And>v. p v \<Longrightarrow> r v"
  shows "triple (\<lambda>s. p (view s)) m (\<lambda>_ s. p (view s)) (\<lambda>s. r (view s))"
  unfolding triple_def
proof (intro allI impI)
  fix s assume p: "p (view s)"
  obtain x s' where m: "m s = (x, s')" by (cases "m s")
  show "case m s of (Inr x, s') \<Rightarrow> p (view s') | (Inl e, s') \<Rightarrow> r (view s')"
    using p m preservesD [OF assms(1) m] assms(2) by (cases x) simp_all
qed

lemma triple_get: "triple P (act_get h) (\<lambda>x s. P s \<and> x = h s) R"
  by (simp add: triple_def act_get_def)

lemma triple_modify: "(\<And>s. P s \<Longrightarrow> Q () (f s)) \<Longrightarrow> triple P (act_modify f) Q R"
  by (simp add: triple_def act_modify_def)

lemma triple_return: "(\<And>s. P s \<Longrightarrow> Q x s) \<Longrightarrow> triple P (act_return x) Q R"
  by (simp add: triple_def act_return_def)

lemma triple_weaken:
  assumes "triple P m Q R" and "\<And>s. P' s \<Longrightarrow> P s" and "\<And>x s. Q x s \<Longrightarrow> Q' x s"
  shows "triple P' m Q' R"
  unfolding triple_def
proof (intro allI impI)
  fix s assume "P' s"
  obtain r s' where m: "m s = (r, s')" by (cases "m s")
  with assms(1) assms(2) [OF \<open>P' s\<close>] have "case r of Inr x \<Rightarrow> Q x s' | Inl e \<Rightarrow> R s'"
    unfolding triple_def by fastforce
  then show "case m s of (Inr x, s') \<Rightarrow> Q' x s' | (Inl e, s') \<Rightarrow> R s'"
    using m assms(3) by (cases r) simp_all
qed

lemma triple_bind_view:
  assumes "preserves view m" and "\<And>v. p v \<Longrightarrow> r v" and "\<And>x. triple (\<lambda>s. p (view s)) (f x) Q (\<lambda>s. r (view s))"
  shows "triple (\<lambda>s. p (view s)) (act_bind m f) Q (\<lambda>s. r (view s))"
  by (rule triple_bind [OF triple_view [OF assms(1,2)] assms(3)])

lemma triple_case_prod: "(\<And>a b. triple P (f a b) Q R) \<Longrightarrow> triple P (case x of (a, b) \<Rightarrow> f a b) Q R"
  by (cases x) simp

subsection \<open>Growing histories\<close>

text \<open>What a computation does to the world: it appends to the history and lets time pass.\<close>

definition extends :: "world \<Rightarrow> world \<Rightarrow> bool" where
  "extends w w' \<longleftrightarrow> prefix (w_log w) (w_log w') \<and> w_now w \<le> w_now w'"

lemma extends_refl [simp]: "extends w w"
  by (simp add: extends_def)

lemma extends_trans: "extends w w' \<Longrightarrow> extends w' w'' \<Longrightarrow> extends w w''"
  by (auto simp: extends_def)

lemma extends_perform [simp]: "extends w (perform E a w)"
  using perform_now by (simp add: extends_def)

text \<open>Computations that move the world along a relation; a reflexive and transitive relation is kept by all control flow.\<close>

definition moves :: "('s \<Rightarrow> 's \<Rightarrow> bool) \<Rightarrow> ('s, 'a) act \<Rightarrow> bool" where
  "moves R m \<longleftrightarrow> (\<forall>w. R w (snd (m w)))"

locale history =
  fixes R :: "'s \<Rightarrow> 's \<Rightarrow> bool"
  assumes refl: "R w w"
    and trans: "R w w' \<Longrightarrow> R w' w'' \<Longrightarrow> R w w''"
begin

lemma pure: "moves R (act_return x)" "moves R (act_raise e)" "moves R (act_lift r)" "moves R (Pair r)"
  by (simp_all add: moves_def refl)

lemma step: "moves R m \<Longrightarrow> m w = (r, w') \<Longrightarrow> R w w'"
  unfolding moves_def by (metis snd_conv)

lemma sequence: "moves R m \<Longrightarrow> (\<And>x. moves R (f x)) \<Longrightarrow> moves R (act_bind m f)"
  unfolding moves_def act_bind_def by (auto split: prod.splits sum.splits) (metis trans snd_conv)+

lemma for_each: "(\<And>x. moves R (f x)) \<Longrightarrow> moves R (act_each f xs)"
  by (induction xs) (auto intro: pure sequence)

lemma mapped: "(\<And>x. moves R (f x)) \<Longrightarrow> moves R (act_map f xs)"
  by (induction xs) (auto intro!: pure sequence)

lemma cleanup: "moves R m \<Longrightarrow> moves R f \<Longrightarrow> moves R (act_finally m f)"
  unfolding moves_def act_finally_def by (auto split: prod.splits sum.splits) (metis trans snd_conv)+

lemma handled: "moves R m \<Longrightarrow> (\<And>e k. h e = Some k \<Longrightarrow> moves R k) \<Longrightarrow> moves R (act_catch m h)"
  unfolding moves_def act_catch_def
  by (auto split: prod.splits sum.splits option.splits) (metis trans snd_conv)+

end

definition grows :: "(world, 'a) act \<Rightarrow> bool" where
  "grows m \<longleftrightarrow> (\<forall>w. extends w (snd (m w)))"

lemma grows_moves: "grows m = moves extends m"
  by (simp add: grows_def moves_def)

interpretation ext: history extends
  by unfold_locales (auto intro: extends_trans)

named_theorems grows_intros \<open>computations that only append to the history\<close>

lemma growsD: "grows m \<Longrightarrow> m w = (r, w') \<Longrightarrow> extends w w'"
  by (simp add: grows_moves ext.step)

lemma grows_basic [grows_intros, simp]:
  "grows (act_return x)" "grows (act_raise e)" "grows (act_lift r)" "grows (do_action E a)" "grows (ask E a f)"
  "grows (sleep E d)" "grows (monotonic E)" "grows (run E argv)" "grows (host_cmd E h c)"
  "grows (events_matching E n P)"
  by (simp_all add: grows_def do_action_def ask_def sleep_def monotonic_def run_def host_cmd_def
      events_matching_def Let_def)

lemma grows_pair [simp]: "grows (Pair r)"
  by (simp add: grows_def)

lemma grows_bind [grows_intros]: "grows m \<Longrightarrow> (\<And>x. grows (f x)) \<Longrightarrow> grows (act_bind m f)"
  by (simp add: grows_moves ext.sequence)

lemma grows_each [grows_intros]: "(\<And>x. grows (f x)) \<Longrightarrow> grows (act_each f xs)"
  by (simp add: grows_moves ext.for_each)

lemma grows_map [grows_intros]: "(\<And>x. grows (f x)) \<Longrightarrow> grows (act_map f xs)"
  by (simp add: grows_moves ext.mapped)

lemma grows_finally [grows_intros]: "grows m \<Longrightarrow> grows f \<Longrightarrow> grows (act_finally m f)"
  by (simp add: grows_moves ext.cleanup)

lemma grows_catch [grows_intros]:
  "grows m \<Longrightarrow> (\<And>e k. h e = Some k \<Longrightarrow> grows k) \<Longrightarrow> grows (act_catch m h)"
  by (simp add: grows_moves ext.handled)

lemma grows_check [grows_intros, simp]: "grows (run_check E argv)"
  by (auto simp: run_check_def intro!: grows_intros split: prod.splits)

lemma read_loop_prefix: "prefix xs ys \<Longrightarrow> prefix (read_loop loads rid src xs) (read_loop loads rid src ys)"
proof (induction loads rid src xs arbitrary: ys rule: read_loop.induct)
  case (2 loads rid src line wall mtime lines)
  then obtain zs where ys: "ys = (line, wall, mtime) # zs" "prefix lines zs" by (cases ys) auto
  show ?case
    using 2(1) [OF refl _ ys(2)] 2(2) [OF refl _ _ _ ys(2)] 2(3) [OF refl _ _ _ ys(2)]
    by (auto simp: ys(1) Let_def split: sum.splits py_error.splits)
qed simp

lemma spawned_at_append:
  assumes "list_all (\<lambda>a. \<not> spawns n a) t"
  shows "spawned_at (h @ t) n = spawned_at h n"
proof -
  have "takeWhile (\<lambda>a. \<not> spawns n a) (rev t @ rev h) = rev t @ takeWhile (\<lambda>a. \<not> spawns n a) (rev h)"
    using assms by (intro takeWhile_append2) (simp add: list_all_iff)
  then show ?thesis by (simp add: spawned_at_def)
qed

lemma lines_append:
  assumes "list_all (\<lambda>a. \<not> spawns n a) t"
  shows "prefix (lines_so_far E h n) (lines_so_far E (h @ t) n)"
proof -
  let ?s = "spawned_at h n"
  have "?s \<le> length h + 1" by (simp add: spawned_at_def)
  then have "[?s..<length (h @ t) + 1] = [?s..<length h + 1] @ [length h + 1..<length (h @ t) + 1]"
    using upt_add_eq_append [of ?s "length h + 1" "length t"] by (simp add: add_ac del: upt_Suc)
  moreover have "map (\<lambda>k. en_lines E (take k (h @ t)) n) [?s..<length h + 1] = map (\<lambda>k. en_lines E (take k h) n) [?s..<length h + 1]"
    by (rule map_cong [OF refl]) auto
  ultimately show ?thesis
    unfolding lines_so_far_def spawned_at_append [OF assms] by (metis concat_append map_append prefixI)
qed

lemma events_append: "list_all (\<lambda>a. \<not> spawns n a) t \<Longrightarrow> prefix (node_events E h n) (node_events E (h @ t) n)"
  by (simp add: node_events_def read_loop_prefix lines_append)

text \<open>From \<open>w\<close> to \<open>w'\<close> no process was spawned, so the nodes still have all the events they had.\<close>

definition same_nodes :: "world \<Rightarrow> world \<Rightarrow> bool" where
  "same_nodes w w' \<longleftrightarrow> (\<exists>t. w_log w' = w_log w @ t \<and> list_all (\<lambda>a. \<forall>n. \<not> spawns n a) t)"

lemma same_nodes_events: "same_nodes w w' \<Longrightarrow> prefix (node_events E (w_log w) n) (node_events E (w_log w') n)"
  using events_append by (fastforce simp: same_nodes_def list_all_iff)

lemma same_nodes_perform [intro]: "(\<And>n. \<not> spawns n a) \<Longrightarrow> same_nodes w (perform E a w)"
  by (simp add: same_nodes_def)

interpretation same: history same_nodes
proof
  show "same_nodes w w" for w by (simp add: same_nodes_def)
  show "same_nodes w w''" if "same_nodes w w'" "same_nodes w' w''" for w w' w''
    using that by (fastforce simp: same_nodes_def)
qed

lemma same_ask: "(\<And>n. \<not> spawns n a) \<Longrightarrow> moves same_nodes (ask E a f)"
  by (auto simp: moves_def ask_def Let_def)

subsection \<open>Waiting\<close>

lemma find_event_append:
  "find_event P (xs @ ys) = (case find_event P xs of Inr None \<Rightarrow> find_event P ys | r \<Rightarrow> r)"
proof (induction xs)
  case (Cons x xs)
  then show ?case by (cases "P x") (auto split: sum.splits option.splits)
qed simp

definition scanned :: "env \<Rightarrow> nat \<Rightarrow> event_pred \<Rightarrow> nat \<Rightarrow> action list \<Rightarrow> bool" where
  "scanned E n P seen h \<longleftrightarrow> seen \<le> length (node_events E h n) \<and> find_event P (take seen (node_events E h n)) = Inr None"

lemma scanned_step: "scanned E n P seen h \<Longrightarrow> \<not> spawns n a \<Longrightarrow> scanned E n P seen (h @ [a])"
  using events_append [of n "[a]" E h] by (auto simp: scanned_def prefix_def)

lemma scanned_all: "find_event P (node_events E h n) = Inr None \<Longrightarrow> scanned E n P (length (node_events E h n)) h"
  by (simp add: scanned_def)

lemma scan_rest:
  assumes "scanned E n P seen h"
  shows "find_event P (drop seen (node_events E h n)) = find_event P (node_events E h n)"
  using assms find_event_append [of P "take seen (node_events E h n)" "drop seen (node_events E h n)"]
  by (simp add: scanned_def)

text \<open>The polls of a history after its first \<open>k\<close> actions found nothing.\<close>

definition polls_found_nothing :: "env \<Rightarrow> nat \<Rightarrow> event_pred \<Rightarrow> action list \<Rightarrow> action list \<Rightarrow> bool" where
  "polls_found_nothing E n P h h' \<longleftrightarrow>
     (\<forall>k \<in> {length h<..length h'}. h' ! (k - 1) = ReadEvents n \<longrightarrow> find_event P (node_events E (take k h') n) = Inr None)"

lemma wait_loop_spec:
  assumes "scanned E n P seen (w_log w)" and "wait_loop E n P deadline seen w = (r, w')"
  shows "extends w w' \<and>
    (case r of
       Inr None \<Rightarrow> deadline \<le> w_now w' \<and> polls_found_nothing E n P (w_log w) (w_log w')
     | Inr (Some e) \<Rightarrow> find_event P (node_events E (w_log w') n) = Inr (Some e)
     | Inl e \<Rightarrow> find_event P (node_events E (w_log w') n) = Inl e)"
  using assms
proof (induction E n P deadline seen w arbitrary: r w' rule: wait_loop.induct)
  case (1 E n P deadline seen w)
  let ?w1 = "perform E Clock w"
  let ?w2 = "perform E (ReadEvents n) ?w1"
  let ?w3 = "perform E (Sleep POLL_S) ?w2"
  let ?ev = "node_events E (w_log ?w2) n"
  have x12: "extends w ?w2" by (rule extends_trans [OF extends_perform extends_perform])
  have sc: "scanned E n P seen (w_log ?w2)" using scanned_step [OF scanned_step [OF "1.prems"(1), of Clock], of "ReadEvents n"] by simp
  note rest = scan_rest [OF sc]
  show ?case
  proof (cases "w_now ?w1 < deadline")
    case False
    then have "r = Inr None" "w' = ?w1" using "1.prems"(2) by (subst (asm) wait_loop.simps, simp)+
    then show ?thesis using False by (auto simp: polls_found_nothing_def nth_append not_less)
  next
    case True
    show ?thesis
    proof (cases "find_event P ?ev")
      case (Inl e)
      then have "r = Inl e" "w' = ?w2" using "1.prems"(2) True rest by (subst (asm) wait_loop.simps, simp add: Let_def)+
      then show ?thesis using Inl x12 by simp
    next
      case (Inr o')
      show ?thesis
      proof (cases o')
        case (Some e)
        then have "r = Inr (Some e)" "w' = ?w2"
          using Inr "1.prems"(2) True rest by (subst (asm) wait_loop.simps, simp add: Let_def)+
        then show ?thesis using Inr Some x12 by simp
      next
        case None
        have go: "wait_loop E n P deadline (length ?ev) ?w3 = (r, w')"
          using None Inr "1.prems"(2) True rest by (subst (asm) wait_loop.simps) (simp add: Let_def)
        have "scanned E n P (length ?ev) (w_log ?w3)"
          using scanned_step [OF scanned_all, of P E "w_log ?w2" n "Sleep POLL_S"] Inr None by simp
        note ih = "1.IH" [OF refl _ refl refl _ _ this go]
        have f: "find_event P (drop seen ?ev) = Inr None" using rest Inr None by simp
        have ih': "extends ?w3 w' \<and> (case r of
            Inr None \<Rightarrow> deadline \<le> w_now w' \<and> polls_found_nothing E n P (w_log ?w3) (w_log w')
          | Inr (Some e) \<Rightarrow> find_event P (node_events E (w_log w') n) = Inr (Some e)
          | Inl e \<Rightarrow> find_event P (node_events E (w_log w') n) = Inl e)"
          using ih True f by simp
        have ext: "extends w w'" using ih' x12 extends_trans extends_perform by blast
        have "polls_found_nothing E n P (w_log w) (w_log w')" if "polls_found_nothing E n P (w_log ?w3) (w_log w')"
          unfolding polls_found_nothing_def
        proof (intro ballI impI)
          fix k assume k: "k \<in> {length (w_log w)<..length (w_log w')}" "w_log w' ! (k - 1) = ReadEvents n"
          obtain t where t: "w_log w' = w_log ?w3 @ t" using ih' by (auto simp: extends_def prefix_def)
          show "find_event P (node_events E (take k (w_log w')) n) = Inr None"
          proof (cases "length (w_log ?w3) < k")
            case True
            then show ?thesis using that k by (auto simp: polls_found_nothing_def)
          next
            case False
            then have "k \<in> {length (w_log w) + 1, length (w_log w) + 2, length (w_log w) + 3}" using k(1) by auto
            then have "k = length (w_log w) + 2" using k(2) by (auto simp: t nth_append)
            then have "take k (w_log w') = w_log ?w2" by (simp add: t)
            then show ?thesis using Inr None by simp
          qed
        qed
        with ih' ext show ?thesis by (auto split: sum.splits option.splits)
      qed
    qed
  qed
qed

lemma grows_wait [grows_intros, simp]: "grows (wait_for E n P t)"
  unfolding wait_for_def
proof (intro grows_bind)
  show "grows (wait_loop E n P (x + t) 0)" for x
    unfolding grows_def
  proof
    fix w
    obtain r w' where "wait_loop E n P (x + t) 0 w = (r, w')" by (cases "wait_loop E n P (x + t) 0 w")
    with wait_loop_spec [of E n P 0 w "x + t" r w'] show "extends w (snd (wait_loop E n P (x + t) 0 w))"
      by (simp add: scanned_def)
  qed
qed simp

lemma same_wait_loop: "moves same_nodes (wait_loop E n P deadline seen)"
  unfolding moves_def
proof
  fix w show "same_nodes w (snd (wait_loop E n P deadline seen w))"
  proof (induction E n P deadline seen w rule: wait_loop.induct)
    case (1 E n P deadline seen w)
    let ?w1 = "perform E Clock w"
    let ?w2 = "perform E (ReadEvents n) ?w1"
    have s: "same_nodes w ?w1" "same_nodes w ?w2" "same_nodes w (perform E (Sleep POLL_S) ?w2)"
      by (auto simp: same_nodes_def)
    show ?case
      using "1.IH" [OF refl _ refl refl] s same.trans [OF s(3)]
      by (subst wait_loop.simps) (auto simp: Let_def split: sum.splits option.splits)
  qed
qed

lemma same_wait_for: "moves same_nodes (wait_for E n P t)"
  unfolding wait_for_def by (intro same.sequence same_wait_loop) (auto simp: moves_def monotonic_def Let_def)

lemma polls_after_clock:
  assumes "polls_found_nothing E n P (h @ [Clock]) h'" and "prefix (h @ [Clock]) h'"
  shows "polls_found_nothing E n P h h'"
  unfolding polls_found_nothing_def
proof (intro ballI impI)
  fix k assume k: "k \<in> {length h<..length h'}" "h' ! (k - 1) = ReadEvents n"
  have "h' ! length h = Clock" using assms(2) by (auto simp: prefix_def nth_append)
  then have "k \<noteq> length h + 1" using k(2) by auto
  then have "k \<in> {length (h @ [Clock])<..length h'}" using k(1) by auto
  then show "find_event P (node_events E (take k h') n) = Inr None"
    using assms(1) k(2) by (simp only: polls_found_nothing_def)
qed

lemma wait_for_scan:
  "case wait_for E n P timeout_s w of
     (r, w') \<Rightarrow> extends w w' \<and>
       (case r of
          Inr None \<Rightarrow> w_now w + timeout_s \<le> w_now w' \<and> polls_found_nothing E n P (w_log w) (w_log w')
        | Inr (Some e) \<Rightarrow> find_event P (node_events E (w_log w') n) = Inr (Some e)
        | Inl e \<Rightarrow> find_event P (node_events E (w_log w') n) = Inl e)"
proof -
  let ?w = "perform E Clock w"
  obtain r w' where r: "wait_loop E n P (w_now ?w + timeout_s) 0 ?w = (r, w')"
    by (cases "wait_loop E n P (w_now ?w + timeout_s) 0 ?w")
  have spec: "extends ?w w' \<and> (case r of
      Inr None \<Rightarrow> w_now ?w + timeout_s \<le> w_now w' \<and> polls_found_nothing E n P (w_log ?w) (w_log w')
    | Inr (Some e) \<Rightarrow> find_event P (node_events E (w_log w') n) = Inr (Some e)
    | Inl e \<Rightarrow> find_event P (node_events E (w_log w') n) = Inl e)"
    using r by (intro wait_loop_spec [of E n P 0]) (simp_all add: scanned_def)
  have "polls_found_nothing E n P (w_log w) (w_log w')"
    if "polls_found_nothing E n P (w_log ?w) (w_log w')" "prefix (w_log ?w) (w_log w')"
    by (rule polls_after_clock) (use that in simp_all)
  then have "polls_found_nothing E n P (w_log w) (w_log w')"
    if "polls_found_nothing E n P (w_log ?w) (w_log w')" using that spec by (simp add: extends_def)
  note polls = this
  have go: "wait_for E n P timeout_s w = (r, w')"
    using r by (simp add: wait_for_def act_bind_def monotonic_def Let_def del: perform_log)
  have ext: "extends w w'" by (rule extends_trans [OF extends_perform conjunct1 [OF spec]])
  have now: "w_now w \<le> w_now ?w" by (rule perform_now)
  show ?thesis
  proof (cases r)
    case (Inl e)
    with spec ext show ?thesis unfolding go by simp
  next
    case (Inr o')
    show ?thesis
    proof (cases o')
      case None
      with Inr spec have "w_now ?w + timeout_s \<le> w_now w'" "polls_found_nothing E n P (w_log ?w) (w_log w')" by simp_all
      with None Inr ext now polls show ?thesis unfolding go by simp
    next
      case (Some e)
      with Inr spec ext show ?thesis unfolding go by simp
    qed
  qed
qed

subsection \<open>Properties\<close>

text \<open>
  Property C21 (waiting). \<open>wait_for\<close> always returns, and its cursor loses nothing: an event it
  returns is the first of all events of the node that satisfies the predicate, although it tests each event
  once; when it gives up, the timeout has passed and no poll it made found a match among all
  events the node had printed by then. An exception of the predicate is the one a full scan raises.
\<close>

theorem wait_for_complete:
  "case wait_for E n P timeout_s w of
     (r, w') \<Rightarrow> extends w w' \<and>
       (case r of
          Inr None \<Rightarrow> w_now w + timeout_s \<le> w_now w' \<and> polls_found_nothing E n P (w_log w) (w_log w')
        | Inr (Some e) \<Rightarrow> find_event P (node_events E (w_log w') n) = Inr (Some e)
        | Inl e \<Rightarrow> find_event P (node_events E (w_log w') n) = Inl e)"
  by (rule wait_for_scan)

text \<open>Lines after which the reader thread goes on, and lines that end it.\<close>

definition harmless :: "(string \<Rightarrow> json res) \<Rightarrow> string \<Rightarrow> bool" where
  "harmless loads line \<longleftrightarrow> py_strip line = [] \<or> loads (py_strip line) = Inl JSONDecodeError \<or>
     (\<exists>d. loads (py_strip line) = Inr (JObj d))"

lemma read_loop_append:
  assumes "\<forall>(line, wall, mtime) \<in> set pre. harmless loads line"
  shows "read_loop loads rid src (pre @ post) = read_loop loads rid src pre @ read_loop loads rid src post"
  using assms
proof (induction pre)
  case (Cons x pre)
  then show ?case
    by (cases x) (auto simp: harmless_def Let_def record_raw_def split: sum.splits py_error.splits)
qed simp

text \<open>
  After any number of blank lines, undecodable lines and objects, a line
  that holds a JSON object becomes exactly one event. It has every field of the object with its
  value; the run id, the source and the two time stamps are added, and a field of the object
  with the same name replaces them.
\<close>

theorem reader_records_objects:
  assumes "\<forall>(l, a, b) \<in> set pre. harmless loads l"
    and "py_strip line \<noteq> []" and "loads (py_strip line) = Inr (JObj d)" and "distinct (map fst d)"
  shows "\<exists>e. read_loop loads rid src (pre @ (line, wall, mtime) # post) =
      read_loop loads rid src pre @ e # read_loop loads rid src post \<and>
    (\<forall>k. map_of e k = (case map_of d k of Some v \<Rightarrow> Some v
      | None \<Rightarrow> map_of [(''run_id'', JStr rid), (''source'', JStr src), (''recorded_wall_time'', JFloat wall),
                  (''recorded_monotonic_s'', JFloat mtime)] k))"
proof -
  let ?s = "[(''run_id'', JStr rid), (''source'', JStr src), (''recorded_wall_time'', JFloat wall),
                  (''recorded_monotonic_s'', JFloat mtime)]"
  have "read_loop loads rid src ((line, wall, mtime) # post) = dict_merge ?s d # read_loop loads rid src post"
    using assms(2,3) by (simp add: record_raw_def Let_def)
  moreover have "map_of (dict_merge ?s d) k = (case map_of d k of Some v \<Rightarrow> Some v | None \<Rightarrow> map_of ?s k)" for k
    unfolding map_of_dict_merge [OF assms(4)] by (simp only: map_add_def)
  ultimately show ?thesis
    unfolding read_loop_append [OF assms(1)] by blast
qed

definition sample_loads :: "string \<Rightarrow> json res" where
  "sample_loads s =
     (if s = ''E'' then Inr (JObj [(''event'', JStr ''ready'')])
      else if s = ''42'' then Inr (JInt 42)
      else Inl JSONDecodeError)"

lemma sample_strip [simp]: "py_strip ''E'' = ''E''" "py_strip ''x'' = ''x''" "py_strip ''42'' = ''42''"
  by (simp_all add: py_strip_def py_space_def)

theorem reader_records_objects_witness:
  "\<exists>e. read_loop sample_loads ''r'' ''node1'' [(''x'', 1, 2), (''E'', 3, 4)] = [e] \<and>
    map_of e ''event'' = Some (JStr ''ready'') \<and> map_of e ''recorded_monotonic_s'' = Some (JFloat 4)"
  using reader_records_objects [of "[(''x'', 1, 2)]" sample_loads "''E''" "[(''event'', JStr ''ready'')]" "''r''" "''node1''" 3 4 "[]"]
  by (auto simp: harmless_def sample_loads_def)

text \<open>
  Property C22 (a silenced node). A line of output that is valid JSON but no object, such as a bare number,
  raises in the reader thread and ends it: nothing the node prints from then on is recorded, so
  no later wait on this node can succeed by it.
\<close>

theorem reader_silenced_by_scalar:
  assumes "\<forall>(l, a, b) \<in> set pre. harmless loads l"
    and "py_strip line \<noteq> []" and "loads (py_strip line) = Inr v" and "\<nexists>d. v = JObj d"
  shows "read_loop loads rid src (pre @ (line, wall, mtime) # post) = read_loop loads rid src pre"
proof -
  have "read_loop loads rid src ((line, wall, mtime) # post) = []"
    using assms(2-4) by (cases v) (auto simp: record_raw_def Let_def)
  then show ?thesis unfolding read_loop_append [OF assms(1)] by simp
qed

theorem reader_silenced_by_scalar_witness:
  "read_loop sample_loads ''r'' ''node1'' [(''x'', 1, 2), (''42'', 3, 4), (''E'', 5, 6)] = []"
  using reader_silenced_by_scalar [of "[(''x'', 1, 2)]" sample_loads "''42''" "JInt 42" "''r''" "''node1''" 3 4 "[(''E'', 5, 6)]"]
  by (simp add: harmless_def sample_loads_def)

text \<open>An environment in which everything succeeds and nothing is printed.\<close>

definition quiet_env :: env where
  "quiet_env = \<lparr>en_delay = \<lambda>_. 0, en_run = \<lambda>_. Inr (0, []), en_cmd = \<lambda>_. Inr [], en_lines = \<lambda>_ _. [],
     en_loads = sample_loads, en_spawn = \<lambda>_. Inr (), en_exited = \<lambda>_. False, en_wait = \<lambda>_. True, en_pid = int,
     en_name = \<lambda>_. Inr ''h1-eth0'', en_run_id = ''r'', en_connect = \<lambda>_. Inl ConnectionError, en_ns = \<lambda>_. 5,
     en_str = \<lambda>_. [], en_message = \<lambda>_. [], en_net = \<lambda>_. Inr (), en_randrange = \<lambda>_ _ _. 0,
     en_temp = \<lambda>_. Inr ''/tmp/daim_g7_barrier_x'', en_file = \<lambda>_. Inr (), en_exists = \<lambda>_. False,
     en_content = \<lambda>_. Inl FileNotFoundError, en_stderr = \<lambda>_. [], en_readline = \<lambda>_. [], en_printed = \<lambda>_. 0\<rparr>"

definition quiet_world :: world where
  "quiet_world = \<lparr>w_now = 0, w_log = []\<rparr>"

end
