(* ===== verification/Gate_Cluster.thy ===== *)
theory Gate_Cluster
  imports Harness_Laws Node_Launch
begin

text \<open>
  The life of the node processes in \<open>network/distributed_prototype_gate.py\<close>: spawning them with
  their environment, waiting until they are ready, stopping them; and the scripted peer that
  drives the gates G2 to G4.
\<close>

subsection \<open>Node processes\<close>

definition READY_TIMEOUT_S :: rat where "READY_TIMEOUT_S = 90"

definition ofp_port :: "nat \<Rightarrow> int" where "ofp_port n = OFP_BASE_PORT + int n"
definition peer_port :: "nat \<Rightarrow> int" where "peer_port n = PEER_BASE_PORT + int n"

text \<open>\<open>NodeProcess.__init__\<close>: the path of the controller application is \<open>app\<close>.\<close>

definition spawn_node :: "env \<Rightarrow> environ \<Rightarrow> string \<Rightarrow> nat \<Rightarrow> int \<Rightarrow> string list \<Rightarrow> (world, unit) act" where
  "spawn_node E os_environ app n owner_ep addrs =
     ask E (SpawnNode n (node_environ os_environ (int n) owner_ep addrs)
              [''osken-manager'', app, ''--ofp-tcp-listen-port'', py_str (ofp_port n)]) (en_spawn E)"

definition node_kill :: "env \<Rightarrow> nat \<Rightarrow> (world, unit) act" where
  "node_kill E n =
     act_bind (do_action E (KillNode n)) (\<lambda>_.
       ask E (WaitNode n 5) (\<lambda>hist. if en_wait E hist then Inr () else Inl TimeoutExpired))"

definition node_terminate :: "env \<Rightarrow> nat \<Rightarrow> (world, unit) act" where
  "node_terminate E n =
     act_bind (ask E (PollNode n) (\<lambda>hist. Inr (en_exited E hist))) (\<lambda>exited.
       if exited then act_return ()
       else act_bind (do_action E (TerminateNode n)) (\<lambda>_.
         act_catch (ask E (WaitNode n 5) (\<lambda>hist. if en_wait E hist then Inr () else Inl TimeoutExpired))
           (\<lambda>e. if e = TimeoutExpired then Some (do_action E (KillNode n)) else None)))"

definition stop_cluster :: "env \<Rightarrow> nat list \<Rightarrow> (world, unit) act" where
  "stop_cluster E nodes = act_each (node_terminate E) nodes"

subsection \<open>Starting the cluster\<close>

text \<open>Python's truth value and equality on the result of \<open>e.get(k)\<close>, as the gates' lambdas use them.\<close>

definition has :: "dict \<Rightarrow> string \<Rightarrow> json \<Rightarrow> bool" where
  "has e k v = py_eq (dict_get e k) v"

definition is_ready :: event_pred where
  "is_ready e = Inr (has e ''event'' (JStr ''ready''))"

definition cluster_nodes :: "nat list" where
  "cluster_nodes = [1..<N_NODES + 1]"

definition default_epochs :: "(nat \<times> int) list" where
  "default_epochs = map (\<lambda>i. (i, DEFAULT_OWNER_EPOCH)) cluster_nodes"

fun spawn_nodes :: "env \<Rightarrow> environ \<Rightarrow> string \<Rightarrow> (nat \<times> int) list \<Rightarrow> nat list \<Rightarrow> (world, unit) act" where
  "spawn_nodes E os_environ app owner_epochs [] = act_return ()"
| "spawn_nodes E os_environ app owner_epochs (i # is) =
     act_bind (act_lift (case map_of owner_epochs i of None \<Rightarrow> Inl (KeyError (nat_str 10 i)) | Some ep \<Rightarrow> Inr ep)) (\<lambda>ep.
     act_bind (spawn_node E os_environ app i ep (peer_addrs_by_node (int i))) (\<lambda>_.
     act_bind (sleep E 0.5) (\<lambda>_. spawn_nodes E os_environ app owner_epochs is)))"

definition set_controller :: "env \<Rightarrow> nat \<Rightarrow> (world, unit) act" where
  "set_controller E i = run_check E [''ovs-vsctl'', ''set-controller'', switch_name i,
     ''tcp:127.0.0.1:'' @ py_str (ofp_port i)]"

definition await_ready :: "env \<Rightarrow> nat \<Rightarrow> (world, unit) act" where
  "await_ready E i =
     act_bind (wait_for E i is_ready READY_TIMEOUT_S) (\<lambda>ready.
       case ready of None \<Rightarrow> act_raise (RuntimeError (''node'' @ nat_str 10 i @ '' never became ready''))
       | Some _ \<Rightarrow> act_return ())"

definition start_cluster :: "env \<Rightarrow> environ \<Rightarrow> string \<Rightarrow> (nat \<times> int) list \<Rightarrow> (world, nat list) act" where
  "start_cluster E os_environ app owner_epochs =
     (let epochs = (if owner_epochs = [] then default_epochs else owner_epochs);
          nodes = cluster_nodes
      in act_bind (spawn_nodes E os_environ app epochs nodes) (\<lambda>_.
         act_bind (act_catch (act_bind (act_each (set_controller E) nodes) (\<lambda>_. act_each (await_ready E) nodes))
                     (\<lambda>e. Some (act_bind (stop_cluster E nodes) (\<lambda>_. act_raise e)))) (\<lambda>_.
         act_return nodes)))"

subsection \<open>The scripted peer\<close>

text \<open>A method call on the peer; what it wrote to its socket is logged.\<close>

definition written :: "synthetic_peer \<Rightarrow> bytes list" where
  "written p = (case sp_sock p of None \<Rightarrow> [] | Some sk \<Rightarrow> sk_tx sk)"

definition on_peer :: "env \<Rightarrow> (synthetic_peer, 'a) act \<Rightarrow> synthetic_peer \<Rightarrow> (world, 'a \<times> synthetic_peer) act" where
  "on_peer E m p w =
     (case m p of
        (r, p') \<Rightarrow>
          (res_bind r (\<lambda>x. Inr (x, p')),
           fold (\<lambda>bs. perform E (PeerWrote bs)) (drop (length (written p)) (written p')) w))"

fun send_updates :: "env \<Rightarrow> bytes \<Rightarrow> (int \<times> int) list \<Rightarrow> synthetic_peer \<Rightarrow> (world, synthetic_peer) act" where
  "send_updates E m [] p = act_return p"
| "send_updates E m ((owner_ep, sq) # rest) p =
     act_bind (on_peer E (send_host_location_update (en_ns E) (en_ns E 0) m 999 9999 1 owner_ep sq True None) p) (\<lambda>(_, p').
     act_bind (sleep E 0.2) (\<lambda>_. send_updates E m rest p'))"

definition synthetic_sequence :: "env \<Rightarrow> int \<Rightarrow> u8 \<Rightarrow> (int \<times> int) list \<Rightarrow> (world, bytes) act" where
  "synthetic_sequence E target_peer_port mac_suffix sequence_events =
     (let m = [0, 0, 0, 0, 0, mac_suffix];
          p = SyntheticPeer_init 999 1
      in act_bind (ask E (ConnectPeer ''127.0.0.1'' target_peer_port) (en_connect E)) (\<lambda>sk.
         act_bind (on_peer E (peer_connect (Inr sk)) p) (\<lambda>(_, p).
         act_bind (on_peer E (handshake_and_drain_snapshot (en_ns E)) p) (\<lambda>(_, p).
         act_bind (send_updates E m sequence_events p) (\<lambda>p.
         act_bind (sleep E 0.3) (\<lambda>_.
         act_bind (do_action E ClosePeer) (\<lambda>_.
           act_return m)))))))"

end
