(* ===== verification/Sample_Stats.thy ===== *)
theory Sample_Stats
  imports Py_Json "HOL-Library.Multiset"
begin

text \<open>
  The statistics of the gates (\<open>percentile\<close>, \<open>bootstrap_median_ci\<close> and \<open>latency_summary\<close> of
  \<open>network/distributed_prototype_gate.py\<close>) over exact rational numbers. The random generator is a
  parameter: \<open>randrange seed k n\<close> is the result of the k-th call \<open>rng.randrange(n)\<close>.
\<close>

subsection \<open>Definitions\<close>

definition py_trunc :: "rat \<Rightarrow> int" where
  "py_trunc r = (if r \<ge> 0 then \<lfloor>r\<rfloor> else \<lceil>r\<rceil>)"

definition rank_position :: "nat \<Rightarrow> rat \<Rightarrow> rat" where
  "rank_position n q = of_nat (n - 1) * q"

definition percentile :: "rat list \<Rightarrow> rat \<Rightarrow> rat option res" where
  "percentile values q =
     (let ordered = sort values
      in if ordered = [] then Inr None
         else
           let position = rank_position (length ordered) q;
               lower = py_trunc position;
               upper = min (lower + 1) (int (length ordered) - 1);
               fraction = position - of_int lower
           in res_bind (py_index ordered lower) (\<lambda>a.
              res_bind (py_index ordered upper) (\<lambda>b. Inr (Some (a + (b - a) * fraction)))))"

text \<open>\<open>statistics.median\<close> of a non-empty list.\<close>

definition median :: "rat list \<Rightarrow> rat" where
  "median values =
     (let data = sort values; n = length data
      in if n mod 2 = 1 then data ! (n div 2)
         else (data ! (n div 2 - 1) + data ! (n div 2)) / 2)"

type_synonym random_source = "int \<Rightarrow> nat \<Rightarrow> nat \<Rightarrow> int"

definition resample :: "random_source \<Rightarrow> int \<Rightarrow> rat list \<Rightarrow> nat \<Rightarrow> rat list res" where
  "resample randrange seed values r =
     res_map (\<lambda>j. py_index values (randrange seed (r * length values + j) (length values))) [0..<length values]"

definition bootstrap_median_ci :: "random_source \<Rightarrow> rat list \<Rightarrow> int \<Rightarrow> nat \<Rightarrow> (rat option \<times> rat option) option res" where
  "bootstrap_median_ci randrange values seed repetitions =
     (if values = [] then Inr None
      else
        res_bind (res_map (\<lambda>r. res_bind (resample randrange seed values r) (\<lambda>s. Inr (median s))) [0..<repetitions]) (\<lambda>medians.
        res_bind (percentile medians 0.025) (\<lambda>lo.
        res_bind (percentile medians 0.975) (\<lambda>hi. Inr (Some (lo, hi))))))"

definition opt_float :: "rat option \<Rightarrow> json" where
  "opt_float r = (case r of None \<Rightarrow> JNull | Some x \<Rightarrow> JFloat x)"

definition latency_summary :: "random_source \<Rightarrow> rat list \<Rightarrow> int \<Rightarrow> dict res" where
  "latency_summary randrange values seed =
     (if values = [] then
        Inr [(''n'', JInt 0), (''median'', JNull), (''p95'', JNull), (''p99'', JNull), (''maximum'', JNull),
             (''median_bootstrap_95_ci'', JNull)]
      else
        res_bind (percentile values 0.95) (\<lambda>p95.
        res_bind (percentile values 0.99) (\<lambda>p99.
        res_bind (bootstrap_median_ci randrange values seed 2000) (\<lambda>ci.
          Inr [(''n'', JInt (int (length values))), (''median'', JFloat (median values)),
               (''p95'', opt_float p95), (''p99'', opt_float p99), (''maximum'', JFloat (Max (set values))),
               (''median_bootstrap_95_ci'',
                case ci of None \<Rightarrow> JNull | Some (lo, hi) \<Rightarrow> JList [opt_float lo, opt_float hi])]))))"

subsection \<open>Interpolation between order statistics\<close>

text \<open>The value at position \<open>p\<close> of a sorted list, linear between the neighbours.\<close>

definition interp :: "rat list \<Rightarrow> rat \<Rightarrow> rat" where
  "interp xs p =
     (let l = nat \<lfloor>p\<rfloor>; u = min (l + 1) (length xs - 1)
      in xs ! l + (xs ! u - xs ! l) * (p - of_nat l))"

lemma position_bounds:
  assumes "0 \<le> q" and "q \<le> 1" and "xs \<noteq> []"
  defines "p \<equiv> rank_position (length xs) q"
  shows "0 \<le> p" and "nat \<lfloor>p\<rfloor> < length xs" and "of_nat (nat \<lfloor>p\<rfloor>) \<le> p" and "p < of_nat (nat \<lfloor>p\<rfloor>) + 1"
    and "nat \<lfloor>p\<rfloor> + 1 < length xs \<or> p = of_nat (nat \<lfloor>p\<rfloor>)"
proof -
  show p0: "0 \<le> p" using assms by (simp add: p_def rank_position_def)
  have p1: "p \<le> of_nat (length xs - 1)" using assms by (simp add: p_def rank_position_def mult_left_le)
  have f: "of_nat (nat \<lfloor>p\<rfloor>) = (of_int \<lfloor>p\<rfloor> :: rat)" using p0 by simp
  show l: "of_nat (nat \<lfloor>p\<rfloor>) \<le> p" "p < of_nat (nat \<lfloor>p\<rfloor>) + 1" unfolding f by linarith+
  have "of_nat (nat \<lfloor>p\<rfloor>) \<le> (of_nat (length xs - 1) :: rat)" using l p1 by linarith
  then have n: "nat \<lfloor>p\<rfloor> \<le> length xs - 1" by (simp only: of_nat_le_iff)
  then show "nat \<lfloor>p\<rfloor> < length xs" using assms(3) by (cases xs) auto
  show "nat \<lfloor>p\<rfloor> + 1 < length xs \<or> p = of_nat (nat \<lfloor>p\<rfloor>)"
  proof (cases "nat \<lfloor>p\<rfloor> = length xs - 1")
    case True
    with l p1 show ?thesis by auto
  qed (use n in auto)
qed

lemma percentile_interp:
  assumes "0 \<le> q" and "q \<le> 1" and "values \<noteq> []"
  shows "percentile values q = Inr (Some (interp (sort values) (rank_position (length values) q)))"
proof -
  let ?xs = "sort values" and ?p = "rank_position (length values) q"
  have ne: "?xs \<noteq> []" using assms(3) by (metis length_0_conv length_sort)
  note b = position_bounds [OF assms(1,2) ne, unfolded length_sort]
  have t: "py_trunc ?p = int (nat \<lfloor>?p\<rfloor>)" using b(1) by (simp add: py_trunc_def)
  have u: "min (int (nat \<lfloor>?p\<rfloor>) + 1) (int (length values) - 1) = int (min (nat \<lfloor>?p\<rfloor> + 1) (length values - 1))"
  proof -
    have "min (int k + 1) (int n - 1) = int (min (k + 1) (n - 1))" if "0 < n" for k n :: nat
      using that by auto
    moreover have "0 < length values" using assms(3) by simp
    ultimately show ?thesis by blast
  qed
  have "py_index ?xs (int (nat \<lfloor>?p\<rfloor>)) = Inr (?xs ! nat \<lfloor>?p\<rfloor>)"
    using b(2) by (intro py_index_nat) simp
  moreover have "py_index ?xs (int (min (nat \<lfloor>?p\<rfloor> + 1) (length values - 1))) =
      Inr (?xs ! min (nat \<lfloor>?p\<rfloor> + 1) (length values - 1))"
    using assms(3) by (intro py_index_nat) (cases "values"; simp)
  moreover have "(of_int (int (nat \<lfloor>?p\<rfloor>)) :: rat) = of_nat (nat \<lfloor>?p\<rfloor>)" by simp
  ultimately show ?thesis
    using ne unfolding percentile_def Let_def length_sort t u by (simp only: if_False res_bind_simps interp_def Let_def length_sort)
qed

lemma interp_between:
  assumes "sorted xs" and "0 \<le> q" and "q \<le> 1" and "xs \<noteq> []"
  defines "p \<equiv> rank_position (length xs) q"
  defines "l \<equiv> nat \<lfloor>p\<rfloor>"
  shows "xs ! l \<le> interp xs p" and "interp xs p \<le> xs ! min (l + 1) (length xs - 1)"
proof -
  note b = position_bounds [OF assms(2-4), folded p_def, folded l_def]
  have d: "0 \<le> xs ! min (l + 1) (length xs - 1) - xs ! l"
    using sorted_nth_mono [OF assms(1), of l "min (l + 1) (length xs - 1)"] b(2) by auto
  have i: "interp xs p = xs ! l + (xs ! min (l + 1) (length xs - 1) - xs ! l) * (p - of_nat l)"
    by (simp add: interp_def Let_def l_def)
  show "xs ! l \<le> interp xs p" using d b(3) by (simp add: i)
  have "(xs ! min (l + 1) (length xs - 1) - xs ! l) * (p - of_nat l) \<le>
      (xs ! min (l + 1) (length xs - 1) - xs ! l) * 1"
    using d b(4) by (intro mult_left_mono) auto
  then show "interp xs p \<le> xs ! min (l + 1) (length xs - 1)" by (simp add: i)
qed

lemma interp_mono:
  assumes "sorted xs" and "0 \<le> q" and "q \<le> q'" and "q' \<le> 1" and "xs \<noteq> []"
  shows "interp xs (rank_position (length xs) q) \<le> interp xs (rank_position (length xs) q')"
proof -
  let ?p = "rank_position (length xs) q" and ?p' = "rank_position (length xs) q'"
  let ?l = "nat \<lfloor>?p\<rfloor>" and ?l' = "nat \<lfloor>?p'\<rfloor>"
  have q: "q \<le> 1" "0 \<le> q'" using assms by auto
  have pp: "?p \<le> ?p'" using assms(3) unfolding rank_position_def by (intro mult_left_mono) auto
  then have ll: "?l \<le> ?l'" by (intro nat_mono floor_mono)
  note b = position_bounds [OF assms(2) q(1) assms(5)] and b' = position_bounds [OF q(2) assms(4,5)]
  show ?thesis
  proof (cases "?l = ?l'")
    case True
    have "0 \<le> xs ! min (?l + 1) (length xs - 1) - xs ! ?l"
      using sorted_nth_mono [OF assms(1), of ?l "min (?l + 1) (length xs - 1)"] b(2) by auto
    then have "(xs ! min (?l + 1) (length xs - 1) - xs ! ?l) * (?p - of_nat ?l) \<le>
        (xs ! min (?l + 1) (length xs - 1) - xs ! ?l) * (?p' - of_nat ?l)"
      using pp by (intro mult_left_mono) auto
    then show ?thesis unfolding interp_def Let_def True [symmetric] by simp
  next
    case False
    then have "min (?l + 1) (length xs - 1) \<le> ?l'" "?l' < length xs" using ll b'(2) by auto
    then have "xs ! min (?l + 1) (length xs - 1) \<le> xs ! ?l'" by (intro sorted_nth_mono [OF assms(1)])
    with interp_between(2) [OF assms(1,2) q(1) assms(5)] interp_between(1) [OF assms(1) q(2) assms(4,5)]
    show ?thesis by linarith
  qed
qed

lemma sorted_range:
  assumes "i < length values"
  shows "Min (set values) \<le> sort values ! i" and "sort values ! i \<le> Max (set values)"
proof -
  have "sort values ! i \<in> set values" using assms nth_mem [of i "sort values"] by simp
  then show "Min (set values) \<le> sort values ! i" "sort values ! i \<le> Max (set values)" by simp_all
qed

lemma interp_range:
  assumes "0 \<le> q" and "q \<le> 1" and "values \<noteq> []"
  shows "Min (set values) \<le> interp (sort values) (rank_position (length values) q)"
    and "interp (sort values) (rank_position (length values) q) \<le> Max (set values)"
proof -
  let ?xs = "sort values"
  let ?l = "nat \<lfloor>rank_position (length values) q\<rfloor>"
  have ne: "?xs \<noteq> []" using assms(3) by (metis length_0_conv length_sort)
  have l: "?l < length values" using position_bounds(2) [OF assms(1,2) ne] by simp
  then have u: "min (?l + 1) (length values - 1) < length values" by auto
  show "Min (set values) \<le> interp ?xs (rank_position (length values) q)"
    using interp_between(1) [OF sorted_sort assms(1,2) ne] sorted_range(1) [OF l] by simp
  show "interp ?xs (rank_position (length values) q) \<le> Max (set values)"
    using interp_between(2) [OF sorted_sort assms(1,2) ne] sorted_range(2) [OF u] by simp
qed


lemma sort_ends:
  assumes "values \<noteq> []"
  shows "sort values ! 0 = Min (set values)" and "sort values ! (length values - 1) = Max (set values)"
proof -
  let ?xs = "sort values"
  have len: "0 < length ?xs" using assms by simp
  have at: "\<exists>i < length ?xs. ?xs ! i = v" if "v \<in> set values" for v
    using that by (metis set_sort in_set_conv_nth)
  have "?xs ! 0 \<in> set values" "?xs ! (length values - 1) \<in> set values"
    using nth_mem [of 0 ?xs] nth_mem [of "length values - 1" ?xs] len by simp_all
  moreover have "?xs ! 0 \<le> v \<and> v \<le> ?xs ! (length values - 1)" if "v \<in> set values" for v
    using at [OF that] sorted_nth_mono [OF sorted_sort, of 0 _ "values"]
      sorted_nth_mono [OF sorted_sort, of _ "length values - 1" "values"] by auto
  ultimately show "?xs ! 0 = Min (set values)" "?xs ! (length values - 1) = Max (set values)"
    by (auto intro!: Min_eqI [symmetric] Max_eqI [symmetric])
qed

lemma interp_half:
  assumes "values \<noteq> []"
  shows "interp (sort values) (rank_position (length values) (1 / 2)) = median values"
proof -
  let ?n = "length values" and ?xs = "sort values"
  have n: "0 < ?n" using assms by simp
  show ?thesis
  proof (cases "?n mod 2 = 1")
    case True
    then have k: "?n - 1 = 2 * (?n div 2)" by presburger
    have "rank_position ?n (1 / 2) = of_nat (?n div 2)" unfolding rank_position_def k by simp
    moreover have "nat \<lfloor>(of_nat (?n div 2) :: rat)\<rfloor> = ?n div 2" by simp
    ultimately show ?thesis using True by (simp add: interp_def Let_def median_def del: of_nat_div)
  next
    case False
    with n have "\<exists>k. ?n = 2 * k + 2" by presburger
    then obtain k where k: "?n = 2 * k + 2" by blast
    have p: "rank_position ?n (1 / 2) = of_nat k + 1 / 2" unfolding rank_position_def k by simp
    have "\<lfloor>(of_nat k + 1 / 2 :: rat)\<rfloor> = int k" by (intro floor_unique) simp_all
    then have f: "nat \<lfloor>(of_nat k + 1 / 2 :: rat)\<rfloor> = k" by (simp only: nat_int)
    have u: "min (k + 1) (length ?xs - 1) = k + 1" by (simp add: k)
    have "interp ?xs (of_nat k + 1 / 2) = ?xs ! k + (?xs ! (k + 1) - ?xs ! k) * (of_nat k + 1 / 2 - of_nat k)"
      unfolding interp_def Let_def f u ..
    also have "\<dots> = (?xs ! k + ?xs ! (k + 1)) / 2" by (simp add: field_simps)
    also have "\<dots> = median values" using False by (simp add: median_def Let_def k)
    finally show ?thesis unfolding p .
  qed
qed

lemma median_range:
  assumes "values \<noteq> []"
  shows "Min (set values) \<le> median values" and "median values \<le> Max (set values)"
  using interp_range [of "1 / 2" "values"] interp_half [OF assms] assms by simp_all

lemma res_map_all:
  assumes "\<And>x. x \<in> set xs \<Longrightarrow> \<exists>y. f x = Inr y \<and> P y"
  shows "\<exists>ys. res_map f xs = Inr ys \<and> length ys = length xs \<and> list_all P ys"
  using assms
proof (induction xs)
  case (Cons x xs)
  then obtain y ys where "f x = Inr y" "P y" "res_map f xs = Inr ys" "length ys = length xs" "list_all P ys"
    by (metis list.set_intros)
  then show ?case by simp
qed simp

subsection \<open>Properties\<close>

text \<open>
  Property C20 (percentiles). For a non-empty sample and a rank between 0 and 1 the
  percentile exists and lies between the least and the greatest value; it grows with the rank, is the least value at rank 0,
  the greatest at rank 1, and depends only on which values the sample holds, not on their order.
\<close>

theorem percentile_sound:
  assumes "values \<noteq> []" and "0 \<le> q" and "q \<le> q'" and "q' \<le> 1"
  shows "\<exists>x y. percentile values q = Inr (Some x) \<and> percentile values q' = Inr (Some y) \<and>
    Min (set values) \<le> x \<and> x \<le> y \<and> y \<le> Max (set values) \<and>
    (q = 0 \<longrightarrow> x = Min (set values)) \<and> (q' = 1 \<longrightarrow> y = Max (set values)) \<and>
    (\<forall>values'. mset values' = mset values \<longrightarrow> percentile values' q = Inr (Some x))"
proof -
  have q: "q \<le> 1" "0 \<le> q'" using assms by auto
  let ?xs = "sort values"
  have len: "length ?xs = length values" by simp
  have ne: "?xs \<noteq> []" using assms(1) by (metis length_0_conv length_sort)
  let ?x = "interp ?xs (rank_position (length values) q)" and ?y = "interp ?xs (rank_position (length values) q')"
  have "?x \<le> ?y" using interp_mono [OF sorted_sort assms(2-4) ne] by simp
  moreover have "?x = Min (set values)" if "q = 0"
    using sort_ends(1) [OF assms(1)] that by (simp add: rank_position_def interp_def)
  moreover have "?y = Max (set values)" if "q' = 1"
  proof -
    have p: "rank_position (length values) 1 = of_nat (length values - 1)" by (simp only: rank_position_def mult_1_right)
    have f: "nat \<lfloor>rat_of_nat (length values - 1)\<rfloor> = length values - 1" by (simp only: floor_of_nat nat_int)
    have "?y = ?xs ! (length values - 1)"
      unfolding that p interp_def Let_def f by (simp only: diff_self mult_zero_right add_0_right)
    then show ?thesis using sort_ends(2) [OF assms(1)] by simp
  qed
  moreover have "percentile values' q = Inr (Some ?x)" if "mset values' = mset values" for values'
  proof -
    have "sort values' = ?xs" using that by (metis properties_for_sort mset_sort sorted_sort)
    moreover have "length values' = length values" using mset_eq_length [OF that] .
    moreover have "values' \<noteq> []" using assms(1) that by auto
    ultimately show ?thesis using percentile_interp [OF assms(2) q(1), of values'] by simp
  qed
  ultimately show ?thesis
    using percentile_interp [OF assms(2) q(1) assms(1)] percentile_interp [OF q(2) assms(4,1)]
      interp_range(1) [OF assms(2) q(1) assms(1)] interp_range(2) [OF q(2) assms(4,1)] by blast
qed

theorem percentile_sound_witness:
  "\<exists>x y. percentile [3, 1, 2] 0.5 = Inr (Some x) \<and> percentile [3, 1, 2] 0.95 = Inr (Some y) \<and> 1 \<le> x \<and> x \<le> y \<and> y \<le> 3"
  using percentile_sound [of "[3, 1, 2]" "0.5" "0.95"] by auto

text \<open>
  Two medians. The percentile of rank one half is \<open>statistics.median\<close>: the reports
  mix both, and they agree on every non-empty sample.
\<close>

theorem half_percentile_is_median:
  assumes "values \<noteq> []"
  shows "percentile values (1 / 2) = Inr (Some (median values))"
  using percentile_interp [of "1 / 2" "values"] interp_half [OF assms] assms by simp

theorem half_percentile_is_median_witness:
  "percentile [4, 1, 3, 2] (1 / 2) = Inr (Some (median [4, 1, 3, 2]))"
  using half_percentile_is_median [of "[4, 1, 3, 2]"] by simp

lemma res_map_length: "res_map f xs = Inr ys \<Longrightarrow> length ys = length xs"
  by (induction xs arbitrary: ys) (auto simp: res_bind_Inr_conv)

lemma resample_in:
  assumes "\<forall>k n. 0 < n \<longrightarrow> 0 \<le> randrange seed k n \<and> randrange seed k n < int n" and "values \<noteq> []"
  shows "\<exists>s. resample randrange seed values r = Inr s \<and> s \<noteq> [] \<and> set s \<subseteq> set values"
proof -
  have "\<exists>ys. res_map (\<lambda>j. py_index values (randrange seed (r * length values + j) (length values))) [0..<length values] = Inr ys \<and>
      length ys = length [0..<length values] \<and> list_all (\<lambda>y. y \<in> set values) ys"
  proof (rule res_map_all)
    fix j
    let ?i = "randrange seed (r * length values + j) (length values)"
    have "0 \<le> ?i" "?i < int (length values)" using assms by auto
    then show "\<exists>y. py_index values ?i = Inr y \<and> y \<in> set values" by (auto simp: py_index_def)
  qed
  then show ?thesis using assms(2) by (auto simp: resample_def list_all_iff)
qed

text \<open>
  For every random generator that keeps \<open>randrange\<close>'s promise, the
  bootstrap interval of a non-empty sample exists for every positive number of repetitions, its
  ends are in order, and both lie within the sample's range; so the summary of a sample never fails.
\<close>

theorem bootstrap_interval_sound:
  assumes "\<forall>k n. 0 < n \<longrightarrow> 0 \<le> randrange seed k n \<and> randrange seed k n < int n"
    and "values \<noteq> []" and "0 < repetitions"
  shows "\<exists>lo hi. bootstrap_median_ci randrange values seed repetitions = Inr (Some (Some lo, Some hi)) \<and>
    Min (set values) \<le> lo \<and> lo \<le> hi \<and> hi \<le> Max (set values)"
proof -
  let ?f = "\<lambda>r. res_bind (resample randrange seed values r) (\<lambda>s. Inr (median s))"
  have "\<exists>ms. res_map ?f [0..<repetitions] = Inr ms \<and> length ms = length [0..<repetitions] \<and>
      list_all (\<lambda>m. Min (set values) \<le> m \<and> m \<le> Max (set values)) ms"
  proof (rule res_map_all)
    fix r
    obtain s where s: "resample randrange seed values r = Inr s" "s \<noteq> []" "set s \<subseteq> set values"
      using resample_in [of randrange seed "values" r] assms(1,2) by auto
    have "Min (set values) \<le> Min (set s)" "Max (set s) \<le> Max (set values)"
      using s(2,3) by (auto intro: Min_antimono Max_mono)
    with s(1) median_range [OF s(2)] show "\<exists>y. ?f r = Inr y \<and> Min (set values) \<le> y \<and> y \<le> Max (set values)"
      by auto
  qed
  then obtain ms where ms: "res_map ?f [0..<repetitions] = Inr ms" "length ms = repetitions"
      "\<forall>m \<in> set ms. Min (set values) \<le> m \<and> m \<le> Max (set values)"
    by (auto simp: list_all_iff)
  have ne: "ms \<noteq> []" using ms(2) assms(3) by auto
  let ?lo = "interp (sort ms) (rank_position (length ms) 0.025)" and ?hi = "interp (sort ms) (rank_position (length ms) 0.975)"
  have "percentile ms 0.025 = Inr (Some ?lo)" "percentile ms 0.975 = Inr (Some ?hi)"
    using percentile_interp [OF _ _ ne, of "0.025"] percentile_interp [OF _ _ ne, of "0.975"] by simp_all
  then have "bootstrap_median_ci randrange values seed repetitions = Inr (Some (Some ?lo, Some ?hi))"
    using ms(1) assms(2) by (simp add: bootstrap_median_ci_def)
  moreover have "?lo \<le> ?hi"
    using interp_mono [OF sorted_sort, of "0.025" "0.975" ms] ne
    by (simp add: length_sort) (metis length_0_conv length_sort)
  moreover have "Min (set ms) \<le> ?lo" "?hi \<le> Max (set ms)"
    using interp_range(1) [OF _ _ ne, of "0.025"] interp_range(2) [OF _ _ ne, of "0.975"] by simp_all
  moreover have "Min (set values) \<le> Min (set ms)" "Max (set ms) \<le> Max (set values)"
    using ms(3) ne by simp_all
  ultimately show ?thesis by (meson order_trans)
qed

theorem bootstrap_interval_sound_witness:
  "\<exists>lo hi. bootstrap_median_ci (\<lambda>seed k n. (seed + int k) mod int n) [2, 7, 5] 20260809 2000 = Inr (Some (Some lo, Some hi)) \<and>
    2 \<le> lo \<and> lo \<le> hi \<and> hi \<le> 7"
  using bootstrap_interval_sound [of "\<lambda>seed k n. (seed + int k) mod int n" 20260809 "[2, 7, 5]" 2000] by simp

end
