(* ===== verification/Gate_Checks.thy ===== *)
theory Gate_Checks
  imports Gate_Cluster Sample_Stats
begin

text \<open>
  The gates G1 to G6 and G8 of \<open>network/distributed_prototype_gate.py\<close>, action by action, and the
  verdicts they reach. A gate returns its report as a dictionary; \<open>pass\<close> is its verdict.
\<close>

subsection \<open>Predicates and text\<close>

definition p_and :: "event_pred \<Rightarrow> event_pred \<Rightarrow> event_pred" where
  "p_and P Q e = res_bind (P e) (\<lambda>b. if b then Q e else Inr False)"

definition p_has :: "string \<Rightarrow> json \<Rightarrow> event_pred" where
  "p_has k v e = Inr (has e k v)"

definition p_one_of :: "string \<Rightarrow> json list \<Rightarrow> event_pred" where
  "p_one_of k vs e = Inr (py_in (dict_get e k) vs)"

definition p_after :: "rat \<Rightarrow> event_pred" where
  "p_after t e = res_bind (py_number (dict_get_or e ''recorded_monotonic_s'' (JInt 0))) (\<lambda>r. Inr (r > t))"

definition p_apply :: event_pred where "p_apply = p_has ''event'' (JStr ''apply'')"
definition p_lifecycle :: event_pred where "p_lifecycle = p_has ''event'' (JStr ''lifecycle'')"
definition p_no_rule :: event_pred where "p_no_rule = p_has ''event'' (JStr ''no_rule'')"

definition host_ip :: "nat \<Rightarrow> string" where
  "host_ip i = (case map_of HOST_IPS i of Some ip \<Rightarrow> ip | None \<Rightarrow> [])"

definition ping_cmd :: "nat \<Rightarrow> nat \<Rightarrow> string" where
  "ping_cmd n dst = ''ping -c '' @ nat_str 10 n @ '' -W 1 '' @ host_ip dst"

definition del_flows_argv :: "string \<Rightarrow> string \<Rightarrow> string list" where
  "del_flows_argv sw match = [''ovs-ofctl'', ''-O'', ''OpenFlow13'', ''del-flows'', sw, match]"

definition dump_flows_argv :: "string \<Rightarrow> string list" where
  "dump_flows_argv sw = [''ovs-ofctl'', ''-O'', ''OpenFlow13'', ''dump-flows'', sw]"

text \<open>A value inside an f-string.\<close>

definition py_format :: "env \<Rightarrow> json \<Rightarrow> string" where
  "py_format E v = (case v of JStr s \<Rightarrow> s | _ \<Rightarrow> en_str E v)"

definition values_equal :: "json list \<Rightarrow> json list \<Rightarrow> bool" where
  "values_equal xs ys \<longleftrightarrow> list_all2 py_eq xs ys"

definition opt_truth :: "dict option \<Rightarrow> bool" where
  "opt_truth e = (case e of None \<Rightarrow> False | Some d \<Rightarrow> d \<noteq> [])"

definition no_packet_loss :: "string \<Rightarrow> bool" where
  "no_packet_loss output = py_substring ''0% packet loss'' output"

subsection \<open>G1: propagation\<close>

definition ns_item :: "dict \<Rightarrow> string \<Rightarrow> rat res" where
  "ns_item e k = res_bind (dict_item e k) py_number"

definition propagation_latency_ms :: "dict \<Rightarrow> rat res" where
  "propagation_latency_ms e =
     res_bind (ns_item e ''applied_at_ns'') (\<lambda>a. res_bind (ns_item e ''learned_at_ns'') (\<lambda>l. Inr ((a - l) / 1000000)))"

definition g1_repetition :: "env \<Rightarrow> (world, unit) act" where
  "g1_repetition E =
     act_bind (run E (del_flows_argv ''s4'' ''in_port=1'')) (\<lambda>_.
     act_bind (host_cmd E ''h4'' (ping_cmd 1 1)) (\<lambda>_. sleep E 0.15))"

definition g1_samples :: "env \<Rightarrow> nat \<Rightarrow> (world, (nat \<times> rat) list) act" where
  "g1_samples E target =
     act_bind (events_matching E target (p_and p_apply (p_and (p_has ''origin_node_id'' (JInt 4))
                  (p_one_of ''result'' [JStr ''new'', JStr ''updated''])))) (\<lambda>events.
     act_lift (res_map (\<lambda>e. res_bind (propagation_latency_ms e) (\<lambda>ms. Inr (target, ms))) events))"

definition distinct_pids :: "env \<Rightarrow> nat list \<Rightarrow> bool" where
  "distinct_pids E nodes \<longleftrightarrow> card (set (map (en_pid E) nodes)) = N_NODES"

definition gate_g1 :: "env \<Rightarrow> int \<Rightarrow> nat list \<Rightarrow> nat \<Rightarrow> (world, dict) act" where
  "gate_g1 E seed nodes repetitions =
     act_bind (act_each (\<lambda>_. g1_repetition E) [0..<repetitions]) (\<lambda>_.
     act_bind (act_map (g1_samples E) [1, 2, 3]) (\<lambda>per_target.
       let samples = concat per_target
       in act_bind (act_lift (latency_summary (en_randrange E) (map snd samples) seed)) (\<lambda>summary.
         act_return
           [(''gate'', JStr ''G1''),
            (''description'', JStr ''valid update propagates between 4 independent processes''),
            (''pass'', JBool (set (map fst samples) = {1, 2, 3} \<and> distinct_pids E nodes)),
            (''n_repetitions_sent'', JInt (int repetitions)),
            (''n_apply_events_observed'', JInt (int (length samples))),
            (''samples'', JList (map (\<lambda>(target, ms). JObj [(''observing_node'', JInt (int target)),
                                        (''propagation_latency_ms'', JFloat ms)]) samples)),
            (''node_pids'', JObj (map (\<lambda>i. (nat_str 10 i, JInt (en_pid E i))) nodes)),
            (''distinct_pids'', JBool (distinct_pids E nodes)),
            (''latency_summary_ms'', JObj summary)])))"

subsection \<open>G2, G3, G4: scripted updates\<close>

definition gate_mac_str :: "bytes \<Rightarrow> string" where
  "gate_mac_str m = py_join (CHR '':'') (map (\<lambda>b. hex_pad 2 (unat b)) m)"

text \<open>The common body: the script, and the results node 1 printed for its address.\<close>

definition scripted_results :: "env \<Rightarrow> u8 \<Rightarrow> (int \<times> int) list \<Rightarrow> (world, json list) act" where
  "scripted_results E mac_suffix sequence_events =
     act_bind (synthetic_sequence E (peer_port 1) mac_suffix sequence_events) (\<lambda>m.
     act_bind (events_matching E 1 (p_and p_apply (p_has ''mac'' (JStr (gate_mac_str m))))) (\<lambda>events.
     act_lift (res_map (\<lambda>e. dict_item e ''result'') events)))"

definition scripted_report :: "string \<Rightarrow> string \<Rightarrow> string list \<Rightarrow> json list \<Rightarrow> dict" where
  "scripted_report gate description expected results =
     [(''gate'', JStr gate), (''description'', JStr description),
      (''pass'', JBool (values_equal results (map JStr expected))), (''observed_results'', JList results)]"

definition gate_g2 :: "env \<Rightarrow> (world, dict) act" where
  "gate_g2 E = act_bind (scripted_results E 0xA1 [(1, 100), (1, 100)]) (\<lambda>results.
     act_return (scripted_report ''G2'' ''duplicate update rejected'' [''new'', ''duplicate''] results))"

definition gate_g3 :: "env \<Rightarrow> (world, dict) act" where
  "gate_g3 E = act_bind (scripted_results E 0xA2 [(1, 200), (1, 150)]) (\<lambda>results.
     act_return (scripted_report ''G3'' ''stale (lower-sequence, same-epoch) update rejected''
       [''new'', ''stale_rejected''] results))"

definition gate_g4 :: "env \<Rightarrow> (world, dict) act" where
  "gate_g4 E = act_bind (scripted_results E 0xA3 [(1, 300), (0, 999999), (2, 1)]) (\<lambda>results.
     act_return (scripted_report ''G4'' ''newer epoch accepted, older epoch rejected despite sequence''
       [''new'', ''stale_rejected'', ''updated''] results))"

subsection \<open>G5: failure isolation\<close>

definition flush_toward :: "env \<Rightarrow> json \<Rightarrow> (world, unit) act" where
  "flush_toward E h4_mac =
     (if \<not> py_truth h4_mac then act_return ()
      else
        act_bind (run E (del_flows_argv ''s1'' (''in_port=1,dl_dst='' @ py_format E h4_mac))) (\<lambda>_.
        act_bind (ask E (HostIntf ''h1'') (en_name E)) (\<lambda>intf.
        act_bind (host_cmd E ''h1'' (''ip neigh replace '' @ host_ip 4 @ '' lladdr '' @ py_format E h4_mac @ '' dev '' @ intf)) (\<lambda>_.
          act_return ()))))"

definition usable_decision :: "json \<Rightarrow> dict \<Rightarrow> bool" where
  "usable_decision h4_mac e \<longleftrightarrow>
     py_eq (dict_get e ''mac_dst'') h4_mac \<and> \<not> py_in (dict_get e ''out_port'') [JInt 0xFFFB, JInt 0xFFFE]"

definition gate_g5 :: "env \<Rightarrow> (world, dict) act" where
  "gate_g5 E =
     act_bind (events_matching E 1 (p_and p_apply (p_and (p_has ''origin_node_id'' (JInt 4))
                  (p_one_of ''result'' [JStr ''new'', JStr ''updated''])))) (\<lambda>pre.
     act_bind (act_lift (if pre \<noteq> [] then dict_item (last pre) ''mac'' else Inr JNull)) (\<lambda>h4_mac.
     act_bind (node_kill E 4) (\<lambda>_.
     act_bind (sleep E 0.3) (\<lambda>_.
     act_bind (host_cmd E ''h2'' (ping_cmd 2 3)) (\<lambda>unrelated_ping.
     act_bind (flush_toward E h4_mac) (\<lambda>_.
     act_bind (events_matching E 1 p_no_rule) (\<lambda>before.
     act_bind (host_cmd E ''h1'' (ping_cmd 1 4)) (\<lambda>_.
     act_bind (sleep E 0.3) (\<lambda>_.
     act_bind (events_matching E 1 p_no_rule) (\<lambda>after_events.
     act_bind (run E (dump_flows_argv ''s1'')) (\<lambda>(rc, flow_dump).
       let unrelated_ok = no_packet_loss unrelated_ping;
           had_h4_cached = (pre \<noteq> []);
           cached_decision_made = (\<exists>e \<in> set (drop (length before) after_events). usable_decision h4_mac e);
           flow_installed = (py_truth h4_mac \<and> py_substring (''dl_dst='' @ py_format E h4_mac) flow_dump)
       in act_return
         [(''gate'', JStr ''G5''), (''description'', JStr ''surviving nodes keep deciding during a peer failure''),
          (''pass'', JBool (unrelated_ok \<and> had_h4_cached \<and> cached_decision_made \<and> flow_installed)),
          (''had_h4_cached_before_kill'', JBool had_h4_cached),
          (''unrelated_traffic_ok_after_kill'', JBool unrelated_ok),
          (''cached_decision_made_after_kill'', JBool cached_decision_made),
          (''flow_installed_after_kill'', JBool flow_installed)])))))))))))"

subsection \<open>G6: partition and reconvergence\<close>

definition iptables_rule :: "string \<Rightarrow> int \<Rightarrow> string list" where
  "iptables_rule op port =
     [''sudo'', ''iptables'', op, ''INPUT'', ''-p'', ''tcp'', ''--dport'', py_str port, ''-j'', ''DROP'']"

text \<open>What happens while the rule is in place.\<close>

definition g6_partitioned :: "env \<Rightarrow> rat \<Rightarrow> (world, string \<times> dict option \<times> rat option \<times> bool) act" where
  "g6_partitioned E partition_start =
     act_bind (run E (del_flows_argv ''s2'' ''in_port=1'')) (\<lambda>_.
     act_bind (host_cmd E ''h2'' (ping_cmd 1 1)) (\<lambda>source_traffic.
     act_bind (wait_for E 2 (p_and p_lifecycle (p_and (p_has ''name'' (JStr ''disconnected'')) (p_after partition_start))) 15) (\<lambda>disconnect_seen.
     act_bind (if opt_truth disconnect_seen then act_bind (monotonic E) (\<lambda>t. act_return (Some (t - partition_start)))
               else act_return None) (\<lambda>detection_s.
     act_bind (events_matching E 4 (p_and p_apply (p_and (p_has ''origin_node_id'' (JInt 2)) (p_after partition_start)))) (\<lambda>known.
       act_return (source_traffic, disconnect_seen, detection_s, known \<noteq> []))))))"

text \<open>What happens after the rule is gone, and the report.\<close>

definition g6_reconverge :: "env \<Rightarrow> string \<times> dict option \<times> rat option \<times> bool \<Rightarrow> (world, dict) act" where
  "g6_reconverge E = (\<lambda>(source_traffic, disconnect_seen, detection_s, known_during).
     act_bind (monotonic E) (\<lambda>reconnect_start.
     act_bind (wait_for E 4 (p_and p_lifecycle (p_and (p_has ''name'' (JStr ''connected'')) (p_after reconnect_start))) 30) (\<lambda>reconnected.
     act_bind (wait_for E 4 (p_and p_lifecycle (p_and (p_one_of ''name'' [JStr ''snapshot_received'', JStr ''snapshot_sent''])
                 (p_after reconnect_start))) 30) (\<lambda>snapshot_done.
     act_bind (wait_for E 4 (p_and p_apply (p_and (p_has ''origin_node_id'' (JInt 2)) (p_after reconnect_start))) 10) (\<lambda>known_after.
     act_bind (act_lift (case known_after of
                 Some e \<Rightarrow> if e \<noteq> [] then res_bind (ns_item e ''recorded_monotonic_s'') (\<lambda>t. Inr (Some (t - reconnect_start))) else Inr None
               | None \<Rightarrow> Inr None)) (\<lambda>reconvergence_s.
       act_return
         [(''gate'', JStr ''G6''), (''description'', JStr ''partition detected, then reconnect + snapshot convergence''),
          (''pass'', JBool (opt_truth disconnect_seen \<and> \<not> known_during \<and> opt_truth reconnected \<and>
             opt_truth snapshot_done \<and> opt_truth known_after)),
          (''detection_time_s'', opt_float detection_s), (''reconvergence_time_s'', opt_float reconvergence_s),
          (''did_not_falsely_know_during_partition'', JBool (\<not> known_during)),
          (''knows_after_reconvergence'', JBool (opt_truth known_after)),
          (''source_traffic_during_partition_output'', JStr source_traffic)]))))))"

definition gate_g6 :: "env \<Rightarrow> (world, dict) act" where
  "gate_g6 E =
     act_bind (run_check E (iptables_rule ''-A'' (peer_port 4))) (\<lambda>_.
     act_bind (monotonic E) (\<lambda>partition_start.
     act_bind (act_finally (g6_partitioned E partition_start)
                 (act_bind (run E (iptables_rule ''-D'' (peer_port 4))) (\<lambda>_. act_return ())))
       (g6_reconverge E)))"

end
