(* ===== verification/Py_Dumps.thy ===== *)
theory Py_Dumps
  imports Py_Json
begin

text \<open>
  \<open>json.dumps(value, indent=2)\<close> and \<open>str.splitlines\<close>, as the scripts use them to pass results to each other on
  standard output: every line of the text after the first is indented or closes the outermost bracket.
  Characters are those with codes below 256; how a float is written is a parameter.
\<close>

subsection \<open>Writing\<close>

definition NL :: char where "NL = CHR 0x0A"
definition QUOTE :: char where "QUOTE = CHR 0x22"
definition BACKSLASH :: char where "BACKSLASH = CHR 0x5C"

definition json_escape :: "char \<Rightarrow> string" where
  "json_escape c =
     (if c = QUOTE \<or> c = BACKSLASH then [BACKSLASH, c]
      else if c = CHR 0x08 then BACKSLASH # ''b''
      else if c = CHR 0x0C then BACKSLASH # ''f''
      else if c = CHR 0x0A then BACKSLASH # ''n''
      else if c = CHR 0x0D then BACKSLASH # ''r''
      else if c = CHR 0x09 then BACKSLASH # ''t''
      else if 32 \<le> (of_char c :: nat) \<and> (of_char c :: nat) < 127 then [c]
      else BACKSLASH # CHR ''u'' # hex_pad 4 (of_char c))"

definition json_string :: "string \<Rightarrow> string" where
  "json_string s = QUOTE # concat (map json_escape s) @ [QUOTE]"

definition new_line :: "nat \<Rightarrow> string" where
  "new_line n = NL # replicate (2 * n) CHR '' ''"

fun join_with :: "string \<Rightarrow> string list \<Rightarrow> string" where
  "join_with sep [] = []"
| "join_with sep [x] = x"
| "join_with sep (x # y # xs) = x @ sep @ join_with sep (y # xs)"

definition bracketed :: "char \<Rightarrow> char \<Rightarrow> nat \<Rightarrow> string list \<Rightarrow> string" where
  "bracketed op cl n items =
     (if items = [] then [op, cl]
      else op # new_line (n + 1) @ join_with ('','' @ new_line (n + 1)) items @ new_line n @ [cl])"

text \<open>A value inside \<open>n\<close> brackets.\<close>

primrec json_dumps :: "(rat \<Rightarrow> string) \<Rightarrow> json \<Rightarrow> nat \<Rightarrow> string" where
  "json_dumps fl JNull = (\<lambda>n. ''null'')"
| "json_dumps fl (JBool b) = (\<lambda>n. if b then ''true'' else ''false'')"
| "json_dumps fl (JInt i) = (\<lambda>n. py_str i)"
| "json_dumps fl (JFloat r) = (\<lambda>n. fl r)"
| "json_dumps fl (JStr s) = (\<lambda>n. json_string s)"
| "json_dumps fl (JList vs) = (\<lambda>n. bracketed CHR ''['' CHR '']'' n (map (\<lambda>f. f (n + 1)) (map (json_dumps fl) vs)))"
| "json_dumps fl (JObj d) = (\<lambda>n. bracketed CHR ''{'' CHR ''}'' n
     (map (\<lambda>(k, f). json_string k @ '': '' @ f (n + 1)) (map (map_prod (\<lambda>k. k) (json_dumps fl)) d)))"

subsection \<open>Lines\<close>

text \<open>\<open>s.splitlines()\<close>; a carriage return and the line feed behind it are one break.\<close>

definition line_break :: "char \<Rightarrow> bool" where
  "line_break c \<longleftrightarrow> (of_char c :: nat) \<in> {10, 11, 12, 13, 28, 29, 30, 133}"

lemma printable: "32 \<le> (of_char c :: nat) \<Longrightarrow> (of_char c :: nat) < 127 \<Longrightarrow> \<not> line_break c"
  by (auto simp: line_break_def)

fun py_splitlines :: "string \<Rightarrow> string list" where
  "py_splitlines [] = []"
| "py_splitlines (c # s) =
     (if c = CHR 0x0D \<and> s \<noteq> [] \<and> hd s = NL then [] # py_splitlines (tl s)
      else if line_break c then [] # py_splitlines s
      else case py_splitlines s of [] \<Rightarrow> [[c]] | l # ls \<Rightarrow> (c # l) # ls)"

lemma split_nonempty: "s \<noteq> [] \<Longrightarrow> py_splitlines s \<noteq> []"
  by (cases s) (auto split: list.splits)

lemma split_append: "py_splitlines ((p @ [NL]) @ t) = py_splitlines (p @ [NL]) @ py_splitlines t"
proof (induction p rule: py_splitlines.induct)
  case 1
  show ?case by (simp add: NL_def line_break_def)
next
  case (2 c s)
  have ne: "py_splitlines (s @ [NL]) \<noteq> []" using split_nonempty by simp
  show ?case
  proof (cases "c = CHR 0x0D \<and> s @ [NL] \<noteq> [] \<and> hd (s @ [NL]) = NL")
    case True
    then show ?thesis using 2(1) by (cases s) (auto simp: line_break_def NL_def)
  next
    case no: False
    then have no': "\<not> (c = CHR 0x0D \<and> (s @ NL # t) \<noteq> [] \<and> hd (s @ NL # t) = NL)" by (cases s) auto
    show ?thesis
    proof (cases "line_break c")
      case True
      then show ?thesis using 2(2) no no' by (cases s) (auto simp: line_break_def NL_def)
    next
      case False
      then have "py_splitlines (s @ NL # t) = py_splitlines (s @ [NL]) @ py_splitlines t" using 2(3) no by (cases s) auto
      then show ?thesis using False no no' ne by (auto split: list.splits)
    qed
  qed
qed

text \<open>Every line break is a newline, and a character of \<open>P\<close> follows it.\<close>

fun breaks_then :: "(char \<Rightarrow> bool) \<Rightarrow> string \<Rightarrow> bool" where
  "breaks_then P [] = True"
| "breaks_then P (c # s) \<longleftrightarrow> (line_break c \<longrightarrow> c = NL \<and> s \<noteq> [] \<and> P (hd s)) \<and> breaks_then P s"

lemma breaks_then_append [intro]: "breaks_then P s \<Longrightarrow> breaks_then P t \<Longrightarrow> breaks_then P (s @ t)"
  by (induction s) auto

lemma breaks_then_mono: "breaks_then P s \<Longrightarrow> (\<And>c. P c \<Longrightarrow> Q c) \<Longrightarrow> breaks_then Q s"
  by (induction s) auto

lemma breaks_then_none: "\<forall>c \<in> set s. \<not> line_break c \<Longrightarrow> breaks_then P s"
  by (induction s) auto

lemma nat_str_no_break: "2 \<le> b \<Longrightarrow> b \<le> 36 \<Longrightarrow> c \<in> set (nat_str b n) \<Longrightarrow> \<not> line_break c"
  using nat_str_chars [of b c n] by (auto simp: line_break_def)

lemma hex_pad_no_break: "c \<in> set (hex_pad w n) \<Longrightarrow> \<not> line_break c"
  using nat_str_no_break [of 16 c n] by (auto simp: hex_pad_def Let_def line_break_def)

lemma py_str_no_break: "c \<in> set (py_str i) \<Longrightarrow> \<not> line_break c"
  using nat_str_no_break [of 10 c] by (auto simp: py_str_def line_break_def [of "CHR ''-''"] split: if_splits)

lemma json_escape_no_break: "c \<in> set (json_escape x) \<Longrightarrow> \<not> line_break c"
proof -
  assume c: "c \<in> set (json_escape x)"
  show ?thesis
  proof (cases "c \<in> set (hex_pad 4 (of_char x))")
    case False
    have special: "\<not> line_break QUOTE" "\<not> line_break BACKSLASH" "\<not> line_break CHR ''u''" "\<not> line_break CHR ''b''" "\<not> line_break CHR ''f''"
        "\<not> line_break CHR ''n''" "\<not> line_break CHR ''r''" "\<not> line_break CHR ''t''"
      by (simp_all add: line_break_def QUOTE_def BACKSLASH_def)
    from c False show ?thesis
      unfolding json_escape_def by (auto simp: special printable split: if_splits)
  qed (rule hex_pad_no_break)
qed

lemma json_string_no_break: "c \<in> set (json_string s) \<Longrightarrow> \<not> line_break c"
  using json_escape_no_break by (auto simp: json_string_def line_break_def [of "CHR 0x22"] QUOTE_def)

subsection \<open>The lines of a written value\<close>

text \<open>What follows a newline inside a value at depth \<open>n\<close>.\<close>

definition inner :: "nat \<Rightarrow> char \<Rightarrow> bool" where
  "inner n c \<longleftrightarrow> c = CHR '' '' \<or> n = 0 \<and> c \<in> {CHR ''}'', CHR '']''}"

lemma new_line_breaks: "breaks_then (inner n) (new_line (Suc m))"
  by (simp add: new_line_def inner_def breaks_then_none line_break_def)

lemma join_breaks:
  assumes "\<forall>x \<in> set items. breaks_then (inner n) x"
  shows "breaks_then (inner n) (join_with ('','' @ new_line (n + 1)) items)"
  using assms
proof (induction "'','' @ new_line (n + 1)" items rule: join_with.induct)
  case (3 x y xs)
  have sep: "breaks_then (inner n) ('','' @ new_line (n + 1))"
    using new_line_breaks [of n n] by (simp add: line_break_def)
  have "breaks_then (inner n) (join_with ('','' @ new_line (n + 1)) (y # xs))" using 3 by simp
  from breaks_then_append [OF sep this] have "breaks_then (inner n) (x @ ('','' @ new_line (n + 1)) @ join_with ('','' @ new_line (n + 1)) (y # xs))"
    using "3.prems" by (intro breaks_then_append [of _ x]) simp_all
  then show ?case by simp
qed simp_all

lemma bracketed_breaks:
  assumes "\<forall>x \<in> set items. breaks_then (inner (n + 1)) x" and "cl \<in> {CHR ''}'', CHR '']''}" and "\<not> line_break op"
  shows "breaks_then (inner n) (bracketed op cl n items)"
proof (cases "items = []")
  case True
  with assms(2,3) show ?thesis by (auto simp: bracketed_def line_break_def)
next
  case False
  have "breaks_then (inner n) x" if "x \<in> set items" for x
    using that assms(1) breaks_then_mono [of "inner (n + 1)" x "inner n"] by (auto simp: inner_def)
  then have "breaks_then (inner n) (new_line (n + 1) @ join_with ('','' @ new_line (n + 1)) items)"
    using join_breaks [of items n] new_line_breaks [of n n] by auto
  moreover have "breaks_then (inner n) (new_line n @ [cl])"
    using assms(2) by (cases n) (auto simp: new_line_def inner_def breaks_then_append breaks_then_none line_break_def)
  ultimately have "breaks_then (inner n) ((new_line (n + 1) @ join_with ('','' @ new_line (n + 1)) items) @ (new_line n @ [cl]))" by blast
  then show ?thesis using False assms(3) by (simp add: bracketed_def)
qed

lemma json_dumps_breaks:
  assumes "\<And>r c. c \<in> set (fl r) \<Longrightarrow> \<not> line_break c"
  shows "breaks_then (inner n) (json_dumps fl v n)"
proof (induction v arbitrary: n)
  case (JList vs)
  then show ?case by (auto simp: line_break_def intro!: bracketed_breaks)
next
  case (JObj d)
  have "breaks_then (inner (n + 1)) (json_string k @ '': '' @ json_dumps fl v (n + 1))" if "(k, v) \<in> set d" for k v
    using JObj that json_string_no_break by (intro breaks_then_append) (auto simp: line_break_def intro: breaks_then_none)
  then show ?case by (force simp: line_break_def intro!: bracketed_breaks)
next
  case (JInt i)
  show ?case by (simp add: breaks_then_none py_str_no_break)
next
  case (JFloat r)
  show ?case by (simp add: breaks_then_none assms)
next
  case (JStr s)
  show ?case by (simp add: breaks_then_none json_string_no_break)
qed (auto simp: line_break_def)

lemma split_breaks:
  "breaks_then P s \<Longrightarrow> (\<And>c. P c \<Longrightarrow> \<not> line_break c) \<Longrightarrow> \<exists>f rest. py_splitlines (s @ [NL]) = f # rest \<and> py_join NL (f # rest) = s \<and>
     (\<forall>l \<in> set rest. l \<noteq> [] \<and> P (hd l)) \<and> (s \<noteq> [] \<and> \<not> line_break (hd s) \<longrightarrow> f \<noteq> [] \<and> hd f = hd s)"
proof (induction s)
  case Nil
  show ?case by (simp add: NL_def line_break_def)
next
  case (Cons c s)
  then obtain f rest where ih: "py_splitlines (s @ [NL]) = f # rest" "py_join NL (f # rest) = s"
      "\<forall>l \<in> set rest. l \<noteq> [] \<and> P (hd l)" "s \<noteq> [] \<and> \<not> line_break (hd s) \<longrightarrow> f \<noteq> [] \<and> hd f = hd s"
    by auto
  show ?case
  proof (cases "line_break c")
    case True
    then have c: "c = NL" "s \<noteq> []" "P (hd s)" using Cons.prems by auto
    then have f: "f \<noteq> []" "hd f = hd s" using ih(4) Cons.prems(2) by blast+
    have split: "py_splitlines ((c # s) @ [NL]) = [] # f # rest" using ih(1) by (simp add: c(1) NL_def line_break_def)
    have join: "py_join NL ([] # f # rest) = c # s" using ih(2) c(1) by simp
    have after: "\<forall>l \<in> set (f # rest). l \<noteq> [] \<and> P (hd l)" using ih(3) f c(3) by simp
    have other: "c # s \<noteq> [] \<and> \<not> line_break (hd (c # s)) \<longrightarrow> [] \<noteq> ([] :: string) \<and> hd [] = hd (c # s)" using True by simp
    show ?thesis by (rule exI, rule exI, rule conjI [OF split], rule conjI [OF join], rule conjI [OF after other])
  next
    case False
    then have cr: "c \<noteq> CHR 0x0D" by (auto simp: line_break_def)
    have split: "py_splitlines ((c # s) @ [NL]) = (c # f) # rest" using ih(1) False cr by simp
    have join: "py_join NL ((c # f) # rest) = c # s" unfolding ih(2) [symmetric] by (cases rest) simp_all
    show ?thesis by (rule exI, rule exI, rule conjI [OF split], rule conjI [OF join], rule conjI [OF ih(3)]) simp
  qed
qed

text \<open>The written object is read back, line by line, as an opening bracket and lines that are no opening bracket.\<close>

lemma json_dumps_lines:
  assumes "\<And>r c. c \<in> set (fl r) \<Longrightarrow> \<not> line_break c" and "d \<noteq> []"
  obtains rest where "py_splitlines (json_dumps fl (JObj d) 0 @ [NL]) = ''{'' # rest"
    and "py_join NL (''{'' # rest) = json_dumps fl (JObj d) 0" and "''{'' \<notin> set rest"
proof -
  let ?t = "json_dumps fl (JObj d) 0"
  have "breaks_then (inner 0) ?t" using assms(1) by (rule json_dumps_breaks)
  moreover have "\<And>c. inner 0 c \<Longrightarrow> \<not> line_break c" by (auto simp: inner_def line_break_def)
  ultimately obtain f rest where lines: "py_splitlines (?t @ [NL]) = f # rest" "py_join NL (f # rest) = ?t"
      "\<forall>l \<in> set rest. l \<noteq> [] \<and> inner 0 (hd l)"
    using split_breaks by blast
  obtain s where "?t = CHR ''{'' # NL # s" using assms(2) by (auto simp: bracketed_def new_line_def)
  then have "py_splitlines (?t @ [NL]) = ''{'' # py_splitlines (s @ [NL])"
    by (simp add: line_break_def NL_def)
  with lines(1) have "f = ''{''" by simp
  moreover have "''{'' \<notin> set rest" using lines(3) by (fastforce simp: inner_def)
  ultimately show thesis using that lines by simp
qed

end
