(* ===== verification/Gate_Conflict.thy ===== *)
theory Gate_Conflict
  imports Gate_Checks Py_Dumps
begin

text \<open>
  Gate G8, the ownership conflict, with the reading of flow dumps it needs
  (\<open>network/distributed_prototype_gate.py\<close>).
\<close>

subsection \<open>Flow dumps\<close>

definition CONFLICT_MAC :: string where "CONFLICT_MAC = ''02:00:00:00:99:99''"

definition flow_lines :: "string \<Rightarrow> string \<Rightarrow> string list" where
  "flow_lines m dump = map py_strip (filter (\<lambda>line. py_substring (''dl_dst='' @ m) line) (py_splitlines dump))"

definition dump_flows_for :: "env \<Rightarrow> string \<Rightarrow> (world, (string \<times> string list) list) act" where
  "dump_flows_for E m =
     act_map (\<lambda>i. act_bind (run E (dump_flows_argv (switch_name i))) (\<lambda>(rc, dump).
       act_return (switch_name i, flow_lines m dump))) cluster_nodes"

text \<open>
  \<open>re.search(pat + r"(\d+)", s)\<close> with its group as an int: the leftmost place where the literal
  is followed by a digit, and there the longest run of digits.
\<close>

fun search_number :: "string \<Rightarrow> string \<Rightarrow> nat option" where
  "search_number pat [] = None"
| "search_number pat (c # s) =
     (let ds = takeWhile is_digit (drop (length pat) (c # s))
      in if prefix pat (c # s) \<and> ds \<noteq> [] then Some (digits_nat ds) else search_number pat s)"

definition flow_in_out_port :: "string \<Rightarrow> nat option \<times> nat option" where
  "flow_in_out_port flow_line = (search_number ''in_port='' flow_line, search_number ''actions=output:'' flow_line)"

subsection \<open>The gate\<close>

definition set_host_mac :: "env \<Rightarrow> string \<Rightarrow> string \<Rightarrow> (world, unit) act" where
  "set_host_mac E h m =
     act_bind (ask E (HostIntf h) (en_name E)) (\<lambda>intf.
     act_bind (host_cmd E h (''ip link set '' @ intf @ '' down'')) (\<lambda>_.
     act_bind (host_cmd E h (''ip link set '' @ intf @ '' address '' @ m)) (\<lambda>_.
     act_bind (host_cmd E h (''ip link set '' @ intf @ '' up'')) (\<lambda>_. act_return ()))))"

definition p_conflict :: "rat \<Rightarrow> event_pred" where
  "p_conflict start = p_and p_apply (p_and (p_has ''mac'' (JStr CONFLICT_MAC))
     (p_and (p_has ''result'' (JStr ''ownership_conflict'')) (p_after start)))"

text \<open>One pass over the nodes that were not seen yet.\<close>

fun conflict_scan :: "env \<Rightarrow> rat \<Rightarrow> nat list \<Rightarrow> nat set \<Rightarrow> (world, nat set) act" where
  "conflict_scan E start [] seen = act_return seen"
| "conflict_scan E start (i # is) seen =
     (if i \<in> seen then conflict_scan E start is seen
      else act_bind (events_matching E i (p_conflict start)) (\<lambda>found.
        conflict_scan E start is (if found \<noteq> [] then insert i seen else seen)))"

lemma grows_scan: "grows (conflict_scan E start is seen)"
  by (induction "is" arbitrary: seen) (auto intro!: grows_intros)

function conflict_loop :: "env \<Rightarrow> rat \<Rightarrow> rat \<Rightarrow> nat set \<Rightarrow> world \<Rightarrow> nat set res \<times> world" where
  "conflict_loop E start deadline seen w =
     (let w1 = perform E Clock w
      in if \<not> w_now w1 < deadline \<or> seen = set cluster_nodes then (Inr seen, w1)
         else case conflict_scan E start cluster_nodes seen w1 of
           (Inl e, w2) \<Rightarrow> (Inl e, w2)
         | (Inr seen', w2) \<Rightarrow> conflict_loop E start deadline seen' (perform E (Sleep 0.05) w2))"
  by pat_completeness auto
termination
proof (relation "measure (\<lambda>(E, start, deadline, seen, w). nat \<lceil>(deadline - w_now w) / 0.05\<rceil>)", goal_cases)
  case 1
  show ?case by simp
next
  case (2 E start deadline seen w w1 r w2 seen')
  have lt: "w_now w < deadline" using 2(1,2) perform_now [of w E Clock] by auto
  have "extends w1 w2" using 2(3,4) by (metis growsD grows_scan)
  then have "w_now w + 0.05 \<le> w_now (perform E (Sleep 0.05) w2)"
    using perform_sleep [of "0.05" w2 E] perform_now [of w E Clock] 2(1) by (simp add: extends_def)
  then show ?case using poll_measure [OF lt, of "0.05"] by simp
qed

declare conflict_loop.simps [simp del]

type_synonym flow_table = "(string \<times> string list) list"

definition one_output :: "flow_table \<Rightarrow> bool" where
  "one_output flows \<longleftrightarrow> (\<forall>(sw, lines) \<in> set flows. card (set (map (snd \<circ> flow_in_out_port) lines)) \<le> 1)"

text \<open>\<open>dict(pairs)\<close> keeps the last output of an input port.\<close>

definition port_dict :: "string list \<Rightarrow> (nat option \<times> nat option) list" where
  "port_dict lines = dict_merge [] (map flow_in_out_port lines)"

definition flows_kept :: "flow_table \<Rightarrow> flow_table \<Rightarrow> bool" where
  "flows_kept flows_before flows_after \<longleftrightarrow>
     (\<forall>(sw, lines) \<in> set flows_before.
        set (port_dict lines) \<subseteq> set (port_dict (case map_of flows_after sw of Some l \<Rightarrow> l | None \<Rightarrow> [])))"

record conflict_run =
  cr_node1_claimed :: bool
  cr_node4_claimed :: bool
  cr_seen :: "nat set"
  cr_before :: flow_table
  cr_after :: flow_table
  cr_unrelated_ok :: bool

definition g8_claim :: "env \<Rightarrow> string \<Rightarrow> nat \<Rightarrow> nat \<Rightarrow> (world, bool) act" where
  "g8_claim E h dst n =
     act_bind (host_cmd E h (ping_cmd 1 dst)) (\<lambda>_.
     act_bind (wait_for E n (p_and p_no_rule (p_and (p_has ''mac_src'' (JStr CONFLICT_MAC)) (p_has ''in_port'' (JInt 1)))) 10) (\<lambda>claimed.
       act_return (opt_truth claimed)))"

definition g8_conflict :: "env \<Rightarrow> (world, conflict_run) act" where
  "g8_conflict E =
     act_bind (act_each (\<lambda>i. act_bind (run E (del_flows_argv (switch_name i) (''dl_dst='' @ CONFLICT_MAC))) (\<lambda>_. act_return ()))
                 cluster_nodes) (\<lambda>_.
     act_bind (set_host_mac E ''h1'' CONFLICT_MAC) (\<lambda>_.
     act_bind (set_host_mac E ''h4'' CONFLICT_MAC) (\<lambda>_.
     act_bind (sleep E 0.3) (\<lambda>_.
     act_bind (monotonic E) (\<lambda>conflict_start.
     act_bind (g8_claim E ''h1'' 3 1) (\<lambda>node1_claimed.
     act_bind (dump_flows_for E CONFLICT_MAC) (\<lambda>flows_before.
     act_bind (g8_claim E ''h4'' 2 4) (\<lambda>node4_claimed.
     act_bind (monotonic E) (\<lambda>t.
     act_bind (conflict_loop E conflict_start (t + 10) {}) (\<lambda>seen.
     act_bind (sleep E 0.5) (\<lambda>_.
     act_bind (dump_flows_for E CONFLICT_MAC) (\<lambda>flows_after.
     act_bind (host_cmd E ''h2'' (ping_cmd 2 3)) (\<lambda>unrelated_ping.
       act_return \<lparr>cr_node1_claimed = node1_claimed, cr_node4_claimed = node4_claimed, cr_seen = seen,
          cr_before = flows_before, cr_after = flows_after, cr_unrelated_ok = no_packet_loss unrelated_ping\<rparr>)))))))))))))"

definition g8_pass :: "conflict_run \<Rightarrow> bool" where
  "g8_pass r \<longleftrightarrow> cr_node1_claimed r \<and> cr_node4_claimed r \<and> cr_seen r = set cluster_nodes \<and>
     one_output (cr_after r) \<and> flows_kept (cr_before r) (cr_after r) \<and> cr_unrelated_ok r"

definition json_flows :: "flow_table \<Rightarrow> json" where
  "json_flows flows = JObj (map (\<lambda>(sw, lines). (sw, JList (map JStr lines))) flows)"

definition gate_g8 :: "env \<Rightarrow> (world, dict) act" where
  "gate_g8 E =
     act_bind (ask E (HostMAC ''h1'') (en_name E)) (\<lambda>h1_orig_mac.
     act_bind (ask E (HostMAC ''h4'') (en_name E)) (\<lambda>h4_orig_mac.
     act_bind (act_finally (g8_conflict E)
                 (act_bind (set_host_mac E ''h1'' h1_orig_mac) (\<lambda>_. set_host_mac E ''h4'' h4_orig_mac))) (\<lambda>r.
       act_return
         [(''gate'', JStr ''G8''),
          (''description'', JStr (''ownership conflict (two nodes claim the same MAC) is detected and '' @
             ''rejected on every node that sees both, not silently resolved or '' @
             ''corrupted -- detection only, resolution out of scope'')),
          (''pass'', JBool (g8_pass r)), (''conflict_mac'', JStr CONFLICT_MAC),
          (''node1_claimed_locally'', JBool (cr_node1_claimed r)),
          (''node4_claimed_locally'', JBool (cr_node4_claimed r)),
          (''nodes_observing_conflict'', JList (map (\<lambda>n. JInt (int n)) (sorted_list_of_set (cr_seen r)))),
          (''all_expected_nodes_observed_conflict'', JBool (cr_seen r = set cluster_nodes)),
          (''no_duplicate_flows_installed'', JBool (one_output (cr_after r))),
          (''flows_unchanged_by_rejected_claim'', JBool (flows_kept (cr_before r) (cr_after r))),
          (''unrelated_traffic_ok'', JBool (cr_unrelated_ok r)),
          (''flows_before'', json_flows (cr_before r)), (''flows_after'', json_flows (cr_after r))])))"

end
