(* ===== verification/Gate_Main.thy ===== *)
theory Gate_Main
  imports Gate_Conflict
begin

text \<open>
  The run of the mechanism gate: \<open>main\<close> of \<open>network/distributed_prototype_gate.py\<close>. What is
  written to files is the value returned: the results, the fatal error and the parts of the
  manifest that depend on them. Time stamps, checksums, the traceback text and the description of
  the platform are left out.
\<close>

subsection \<open>Exceptions as evidence\<close>

fun exc_type :: "py_error \<Rightarrow> string" where
  "exc_type AssertionError = ''AssertionError''"
| "exc_type StructError = ''error''"
| "exc_type ConnectionError = ''ConnectionError''"
| "exc_type ValueError = ''ValueError''"
| "exc_type TypeError = ''TypeError''"
| "exc_type IndexError = ''IndexError''"
| "exc_type (KeyError k) = ''KeyError''"
| "exc_type ZeroDivisionError = ''ZeroDivisionError''"
| "exc_type AttributeError = ''AttributeError''"
| "exc_type (RuntimeError m) = ''RuntimeError''"
| "exc_type FileNotFoundError = ''FileNotFoundError''"
| "exc_type TimeoutError = ''TimeoutError''"
| "exc_type JSONDecodeError = ''JSONDecodeError''"
| "exc_type CalledProcessError = ''CalledProcessError''"
| "exc_type TimeoutExpired = ''TimeoutExpired''"

definition exc_str :: "env \<Rightarrow> py_error \<Rightarrow> string" where
  "exc_str E e = (case e of RuntimeError m \<Rightarrow> m | _ \<Rightarrow> en_message E e)"

definition fatal_record :: "env \<Rightarrow> py_error \<Rightarrow> dict" where
  "fatal_record E e = [(''type'', JStr (exc_type e)), (''message'', JStr (exc_str E e))]"

subsection \<open>Bringing the cluster up\<close>

definition max_attempts :: nat where "max_attempts = 3"

definition pkill_argv :: "string \<Rightarrow> string list" where
  "pkill_argv app = [''pkill'', ''-9'', ''-f'', app]"

definition is_runtime_error :: "py_error \<Rightarrow> bool" where
  "is_runtime_error e = (case e of RuntimeError _ \<Rightarrow> True | _ \<Rightarrow> False)"

text \<open>The attempts numbered \<open>attempt\<close> and up, of which \<open>left\<close> remain after this one.\<close>

fun start_attempts :: "env \<Rightarrow> environ \<Rightarrow> string \<Rightarrow> nat \<Rightarrow> nat \<Rightarrow> (world, nat list) act" where
  "start_attempts E os_environ app attempt left =
     act_catch (start_cluster E os_environ app []) (\<lambda>exc.
       if \<not> is_runtime_error exc then None
       else Some (
         act_bind (do_action E (RecordRaw ''gate_driver''
             [(''event'', JStr ''cluster_start_attempt_failed''), (''attempt'', JInt (int attempt)),
              (''max_attempts'', JInt (int max_attempts)), (''detail'', JStr (exc_str E exc))])) (\<lambda>_.
         act_bind (run E (pkill_argv app)) (\<lambda>_.
         act_bind (sleep E 1) (\<lambda>_.
           case left of 0 \<Rightarrow> act_raise exc
           | Suc left' \<Rightarrow> start_attempts E os_environ app (attempt + 1) left')))))"

subsection \<open>The run\<close>

text \<open>
  The variables \<open>net\<close>, \<open>nodes\<close> and \<open>results\<close> are assigned inside the try block and read after it,
  so the body runs on the world with these variables.
\<close>

record gate_state =
  gs_world :: world
  gs_net :: bool
  gs_nodes :: "nat list"
  gs_results :: "(string \<times> dict) list"

definition on_world :: "(world, 'a) act \<Rightarrow> (gate_state, 'a) act" where
  "on_world m s = (case m (gs_world s) of (r, w) \<Rightarrow> (r, s\<lparr>gs_world := w\<rparr>))"

definition gate_step :: "env \<Rightarrow> string \<Rightarrow> string \<Rightarrow> (world, dict) act \<Rightarrow> (gate_state, unit) act" where
  "gate_step E name message gate =
     act_bind (on_world (do_action E (Print message))) (\<lambda>_.
     act_bind (on_world gate) (\<lambda>report.
       act_modify (\<lambda>s. s\<lparr>gs_results := dict_put name report (gs_results s)\<rparr>)))"

definition main_body :: "env \<Rightarrow> environ \<Rightarrow> string \<Rightarrow> int \<Rightarrow> bool \<Rightarrow> (gate_state, unit) act" where
  "main_body E os_environ app seed include_g8 =
     act_bind (on_world (run E [''mn'', ''-c''])) (\<lambda>_.
     act_bind (on_world (run E (pkill_argv app))) (\<lambda>_.
     act_bind (on_world (sleep E 0.3)) (\<lambda>_.
     act_bind (act_lift (ChainTopo_build N_NODES)) (\<lambda>_.
     act_bind (act_modify (\<lambda>s. s\<lparr>gs_net := True\<rparr>)) (\<lambda>_.
     act_bind (on_world (ask E StartNet (en_net E))) (\<lambda>_.
     act_bind (on_world (start_attempts E os_environ app 1 (max_attempts - 1))) (\<lambda>nodes.
     act_bind (act_modify (\<lambda>s. s\<lparr>gs_nodes := nodes\<rparr>)) (\<lambda>_.
     act_bind (gate_step E ''G1'' ''running G1 (propagation)...'' (gate_g1 E seed nodes 100)) (\<lambda>_.
     act_bind (gate_step E ''G2'' ''running G2 (duplicate rejection)...'' (gate_g2 E)) (\<lambda>_.
     act_bind (gate_step E ''G3'' ''running G3 (stale rejection)...'' (gate_g3 E)) (\<lambda>_.
     act_bind (gate_step E ''G4'' ''running G4 (epoch ordering)...'' (gate_g4 E)) (\<lambda>_.
     act_bind (gate_step E ''G6'' ''running G6 (partition/reconvergence)...'' (gate_g6 E)) (\<lambda>_.
     act_bind (if include_g8 then gate_step E ''G8'' ''running G8 (ownership conflict)...'' (gate_g8 E)
               else act_return ()) (\<lambda>_.
       gate_step E ''G5'' ''running G5 (failure isolation)...'' (gate_g5 E)))))))))))))))"

definition main_cleanup :: "env \<Rightarrow> (gate_state, unit) act" where
  "main_cleanup E s =
     act_bind (if gs_nodes s \<noteq> [] then on_world (stop_cluster E (gs_nodes s)) else act_return ()) (\<lambda>_.
     act_bind (if gs_net s then on_world (ask E StopNet (en_net E)) else act_return ()) (\<lambda>_.
     act_bind (on_world (run E [''mn'', ''-c''])) (\<lambda>_. act_return ()))) s"

definition main_try :: "env \<Rightarrow> environ \<Rightarrow> string \<Rightarrow> int \<Rightarrow> bool \<Rightarrow> (gate_state, dict option) act" where
  "main_try E os_environ app seed include_g8 =
     act_finally
       (act_catch (act_bind (main_body E os_environ app seed include_g8) (\<lambda>_. act_return None)) (\<lambda>exc.
          let fatal = fatal_record E exc
          in Some (act_bind (on_world (do_action E (RecordRaw ''gate_driver'' (dict_merge [(''event'', JStr ''fatal_error'')] fatal))))
               (\<lambda>_. act_return (Some fatal)))))
       (main_cleanup E)"

definition report_passes :: "dict \<Rightarrow> bool res" where
  "report_passes r = res_bind (dict_item r ''pass'') (\<lambda>v. Inr (py_truth v))"

text \<open>\<open>all(...)\<close> stops at the first failing report.\<close>

fun all_pass :: "dict list \<Rightarrow> bool res" where
  "all_pass [] = Inr True"
| "all_pass (r # rs) = res_bind (report_passes r) (\<lambda>b. if b then all_pass rs else Inr False)"

definition all_gates_passed :: "dict option \<Rightarrow> bool \<Rightarrow> (string \<times> dict) list \<Rightarrow> bool res" where
  "all_gates_passed fatal include_g8 results =
     (if fatal = None \<and> length results = (if include_g8 then 7 else 6) then all_pass (map snd results) else Inr False)"

record gate_manifest =
  gm_results :: "(string \<times> dict) list"
  gm_fatal :: "dict option"
  gm_all_passed :: bool
  gm_gate_pass :: "(string \<times> json) list"

definition gate_main :: "env \<Rightarrow> environ \<Rightarrow> string \<Rightarrow> int \<Rightarrow> bool \<Rightarrow> (world, gate_manifest) act" where
  "gate_main E os_environ app seed include_g8 w =
     (case main_try E os_environ app seed include_g8 \<lparr>gs_world = w, gs_net = False, gs_nodes = [], gs_results = []\<rparr> of
        (Inl e, s) \<Rightarrow> (Inl e, gs_world s)
      | (Inr fatal, s) \<Rightarrow>
          (res_bind (all_gates_passed fatal include_g8 (gs_results s)) (\<lambda>passed.
           res_bind (res_map (\<lambda>(g, r). res_bind (dict_item r ''pass'') (\<lambda>v. Inr (g, v))) (gs_results s)) (\<lambda>gate_pass.
             Inr \<lparr>gm_results = gs_results s, gm_fatal = fatal, gm_all_passed = passed, gm_gate_pass = gate_pass\<rparr>)),
           gs_world s))"

end
