(* ===== verification/Gate_Laws.thy ===== *)
theory Gate_Laws
  imports Gate_Main
begin

text \<open>
  What the gates guarantee whatever their environment does: cleanup, the meaning of a passing
  run, the reading of flow dumps, and the weakness of the packet-loss test.
\<close>

subsection \<open>Histories\<close>

lemma grows_node_terminate [grows_intros]: "grows (node_terminate E n)"
  by (auto simp: node_terminate_def intro!: grows_intros split: if_splits)

lemma grows_stop [grows_intros]: "grows (stop_cluster E ns)"
  by (auto simp: stop_cluster_def intro!: grows_intros)

lemma grows_await [grows_intros]: "grows (await_ready E i)"
  by (auto simp: await_ready_def intro!: grows_intros split: option.splits)

lemma grows_spawn [grows_intros]: "grows (spawn_nodes E env app eps is)"
  by (induction "is") (auto simp: spawn_node_def intro!: grows_intros)

lemma grows_set_host_mac [grows_intros]: "grows (set_host_mac E h m)"
  by (auto simp: set_host_mac_def intro!: grows_intros)

lemma act_bind_cases:
  assumes "act_bind m f s = (r, s'')"
  obtains (Raise) e where "m s = (Inl e, s'')" "r = Inl e"
  | (Go) x s' where "m s = (Inr x, s')" "f x s' = (r, s'')"
  using assms by (auto simp: act_bind_def split: prod.splits sum.splits)

lemma act_finally_cases:
  assumes "act_finally m f s = (r, s'')"
  obtains r1 s1 r2 where "m s = (r1, s1)" "f s1 = (r2, s'')" "r = (case r2 of Inl e \<Rightarrow> Inl e | Inr _ \<Rightarrow> r1)"
  using assms by (auto simp: act_finally_def split: prod.splits sum.splits)

subsection \<open>Starting the cluster\<close>

text \<open>Node \<open>n\<close> has announced itself in the history \<open>h\<close>.\<close>

definition announced :: "env \<Rightarrow> action list \<Rightarrow> nat \<Rightarrow> bool" where
  "announced E h n \<longleftrightarrow> (\<exists>e \<in> set (node_events E h n). has e ''event'' (JStr ''ready''))"

lemma find_event_in: "find_event P es = Inr (Some e) \<Longrightarrow> e \<in> set es \<and> P e = Inr True"
  by (induction es) (auto simp: res_bind_Inr_conv split: if_splits)

lemma announced_grow: "announced E (w_log w) n \<Longrightarrow> same_nodes w w' \<Longrightarrow> announced E (w_log w') n"
  using same_nodes_events [of w w' E n] set_mono_prefix by (fastforce simp: announced_def)

lemma same_await: "moves same_nodes (await_ready E i)"
  unfolding await_ready_def by (intro same.sequence same_wait_for) (auto split: option.splits intro: same.pure)

lemma await_ready_announced:
  assumes "await_ready E n w = (Inr (), w')"
  shows "announced E (w_log w') n"
proof -
  obtain o' where w: "wait_for E n is_ready READY_TIMEOUT_S w = (Inr o', w')" "o' \<noteq> None"
    using assms unfolding await_ready_def by (auto elim!: act_bind_cases simp: act_return_def act_raise_def split: option.splits)
  then obtain e where "o' = Some e" by auto
  with w(1) wait_for_scan [where E = E and n = n and P = is_ready and timeout_s = READY_TIMEOUT_S and w = w] show ?thesis
    using find_event_in [of is_ready _ e] by (auto simp: announced_def is_ready_def)
qed

lemma each_ready:
  "act_each (await_ready E) ns w = (Inr (), w') \<Longrightarrow> \<forall>n \<in> set ns. announced E (w_log w') n"
proof (induction ns arbitrary: w)
  case (Cons n ns)
  then obtain w1 where w1: "await_ready E n w = (Inr (), w1)" "act_each (await_ready E) ns w1 = (Inr (), w')"
    by (auto simp: act_bind_Inr)
  have "same_nodes w1 w'" using same.step [OF same.for_each [OF same_await] w1(2)] .
  then show ?case using Cons.IH [OF w1(2)] announced_grow [OF await_ready_announced [OF w1(1)]] by auto
qed simp

fun spawn_action :: "action \<Rightarrow> bool" where
  "spawn_action (SpawnNode n e argv) = True"
| "spawn_action (Sleep d) = True"
| "spawn_action _ = False"

lemma spawn_log:
  "spawn_nodes E env app eps is w = (r, w') \<Longrightarrow>
   \<exists>t. w_log w' = w_log w @ t \<and> list_all spawn_action t"
proof (induction "is" arbitrary: w)
  case Nil
  then show ?case by (auto simp: act_return_def)
next
  case (Cons i "is")
  show ?case
  proof (cases "map_of eps i")
    case None
    with Cons.prems show ?thesis by (auto simp: act_bind_def act_lift_def)
  next
    case (Some ep)
    let ?w1 = "perform E (SpawnNode i (node_environ env (int i) ep (peer_addrs_by_node (int i)))
        [''osken-manager'', app, ''--ofp-tcp-listen-port'', py_str (ofp_port i)]) w"
    let ?w2 = "perform E (Sleep 0.5) ?w1"
    show ?thesis
    proof (cases "en_spawn E (w_log ?w1)")
      case (Inl e)
      with Some Cons.prems have "w' = ?w1"
        by (simp add: act_bind_def act_lift_def spawn_node_def ask_def Let_def)
      then show ?thesis by auto
    next
      case (Inr u)
      with Some Cons.prems have "spawn_nodes E env app eps is ?w2 = (r, w')"
        by (simp add: act_bind_def act_lift_def spawn_node_def ask_def Let_def sleep_def do_action_def act_modify_def)
      from Cons.IH [OF this] show ?thesis by auto
    qed
  qed
qed

text \<open>
  Property C24 (starting the cluster). If spawning a node process raises, the start ends with this
  exception and nothing but spawning and sleeping has happened: the processes spawned before are not stopped.
  Otherwise a successful start means that every node has announced itself, and an unsuccessful one
  that it ended by stopping all the nodes, or by an exception of stopping them.
\<close>

theorem cluster_start_outcome:
  "case start_cluster E os_environ app [] w of
     (r, w') \<Rightarrow>
       (case spawn_nodes E os_environ app default_epochs cluster_nodes w of
          (Inl e, w1) \<Rightarrow> r = Inl e \<and> w' = w1 \<and> (\<exists>t. w_log w' = w_log w @ t \<and> list_all spawn_action t)
        | (Inr _, w1) \<Rightarrow>
            (case r of
               Inr nodes \<Rightarrow> nodes = cluster_nodes \<and> list_all (announced E (w_log w')) nodes
             | Inl e \<Rightarrow> \<exists>w2. prefix (w_log w1) (w_log w2) \<and> snd (stop_cluster E cluster_nodes w2) = w'))"
proof -
  let ?ns = cluster_nodes
  let ?ready = "act_bind (act_each (set_controller E) ?ns) (\<lambda>_. act_each (await_ready E) ?ns)"
  obtain r1 w1 where sp: "spawn_nodes E os_environ app default_epochs ?ns w = (r1, w1)"
    by (cases "spawn_nodes E os_environ app default_epochs ?ns w")
  obtain r2 w2 where rd: "?ready w1 = (r2, w2)" by (cases "?ready w1")
  have start: "start_cluster E os_environ app [] w = (case r1 of Inl e \<Rightarrow> (Inl e, w1) | Inr _ \<Rightarrow>
      (case r2 of Inr _ \<Rightarrow> (Inr ?ns, w2)
       | Inl e \<Rightarrow> (case stop_cluster E ?ns w2 of (Inl e', w3) \<Rightarrow> (Inl e', w3) | (Inr _, w3) \<Rightarrow> (Inl e, w3))))"
    using sp rd
    unfolding start_cluster_def Let_def
    by (cases r1; cases r2; cases "stop_cluster E ?ns w2"; cases "fst (stop_cluster E ?ns w2)")
      (auto simp: act_catch_def act_return_def act_raise_def act_bind_def [of "spawn_nodes E os_environ app eps ns" for eps ns]
        act_bind_def [of "act_catch m h" for m h] act_bind_def [of "stop_cluster E ns" for ns])
  show ?thesis
  proof (cases r1)
    case (Inl e)
    with start sp spawn_log [OF sp] show ?thesis by simp
  next
    case (Inr u)
    have "grows ?ready" by (auto simp: set_controller_def intro!: grows_intros)
    then have pre: "prefix (w_log w1) (w_log w2)" using growsD rd by (fastforce simp: extends_def)
    show ?thesis
    proof (cases r2)
      case r2: (Inl e)
      have "start_cluster E os_environ app [] w = (case stop_cluster E ?ns w2 of (Inl e', w3) \<Rightarrow> (Inl e', w3) | (Inr _, w3) \<Rightarrow> (Inl e, w3))"
        using start Inr r2 by simp
      then show ?thesis using sp Inr pre by (auto split: prod.splits sum.splits)
    next
      case r2: (Inr v)
      obtain w3 where "act_each (await_ready E) ?ns w3 = (Inr (), w2)"
        using rd r2 by (auto simp: act_bind_Inr)
      from each_ready [OF this] show ?thesis using start sp Inr r2 by (simp add: list_all_iff)
    qed
  qed
qed

subsection \<open>Cleanup of the gates\<close>

text \<open>A cleanup that performs \<open>a\<close> leaves it in the history, after whatever the body did.\<close>

lemma cleanup_logged:
  assumes "grows m" and "\<And>w. prefix (w_log w @ [a]) (w_log (snd (f w)))" and "\<And>x. grows (k x)"
    and "act_bind (act_finally m f) k w = (r, w')"
  shows "\<exists>h. prefix (w_log w) h \<and> prefix (h @ [a]) (w_log w')"
proof -
  obtain r1 w1 where m: "m w = (r1, w1)" by (cases "m w")
  obtain r2 w2 where f: "f w1 = (r2, w2)" by (cases "f w1")
  obtain r3 where fin: "act_finally m f w = (r3, w2)"
    using m f by (cases r2) (simp_all add: act_finally_def)
  have "prefix (w_log w2) (w_log w')"
  proof (cases r3)
    case (Inl e)
    with fin assms(4) show ?thesis by simp
  next
    case (Inr x)
    with fin assms(4) have "k x w2 = (r, w')" by simp
    then show ?thesis using growsD [OF assms(3)] by (auto simp: extends_def)
  qed
  moreover have "prefix (w_log w) (w_log w1)" using growsD [OF assms(1) m] by (simp add: extends_def)
  moreover have "prefix (w_log w1 @ [a]) (w_log w2)" using assms(2) [of w1] f by simp
  ultimately show ?thesis by (blast intro: prefix_order.trans)
qed

lemma grows_g6 [grows_intros]: "grows (g6_partitioned E t)" "grows (g6_reconverge E x)"
  by (auto simp: g6_partitioned_def g6_reconverge_def intro!: grows_intros split: prod.splits)

text \<open>
  Once gate G6 has inserted the rule that cuts node 4 off, the
  rule's deletion is issued on every path: after traffic that fails, waits that time out, predicates that
  raise. When inserting the rule fails, the gate ends at once and touches nothing else.
\<close>

theorem partition_always_lifted:
  "case gate_g6 E w of
     (r, w') \<Rightarrow>
       (case run_check E (iptables_rule ''-A'' (peer_port 4)) w of
          (Inl e, w1) \<Rightarrow> r = Inl e \<and> w' = w1
        | (Inr _, w1) \<Rightarrow> \<exists>h. prefix (w_log w1) h \<and> prefix (h @ [Run (iptables_rule ''-D'' (peer_port 4))]) (w_log w'))"
proof -
  let ?del = "act_bind (run E (iptables_rule ''-D'' (peer_port 4))) (\<lambda>_. act_return ())"
  obtain r1 w1 where add: "run_check E (iptables_rule ''-A'' (peer_port 4)) w = (r1, w1)"
    by (cases "run_check E (iptables_rule ''-A'' (peer_port 4)) w")
  obtain r w' where g: "gate_g6 E w = (r, w')" by (cases "gate_g6 E w")
  show ?thesis
  proof (cases r1)
    case (Inl e)
    with add g show ?thesis by (simp add: gate_g6_def act_bind_def)
  next
    case (Inr u)
    let ?w2 = "perform E Clock w1"
    have "act_bind (act_finally (g6_partitioned E (w_now ?w2)) ?del) (g6_reconverge E) ?w2 = (r, w')"
      using g add Inr by (simp add: gate_g6_def monotonic_def act_bind_def [of "run_check E a" for a]
          act_bind_def [of "monotonic E"] Let_def)
    then have "\<exists>h. prefix (w_log ?w2) h \<and> prefix (h @ [Run (iptables_rule ''-D'' (peer_port 4))]) (w_log w')"
      by (rule cleanup_logged [rotated 3])
        (auto simp: act_bind_def run_def ask_def Let_def act_return_def intro!: grows_intros split: sum.splits)
    then show ?thesis using add Inr g by (auto dest: append_prefixD)
  qed
qed

lemma grows_conflict_loop: "grows (conflict_loop E start deadline seen)"
proof -
  have "extends w (snd (conflict_loop E start deadline seen w))" for w
  proof (induction E start deadline seen w rule: conflict_loop.induct)
    case (1 E start deadline seen w)
    let ?w1 = "perform E Clock w"
    show ?case
    proof (cases "\<not> w_now ?w1 < deadline \<or> seen = set cluster_nodes")
      case True
      then show ?thesis by (subst conflict_loop.simps) (auto simp: Let_def)
    next
      case False
      obtain r w2 where s: "conflict_scan E start cluster_nodes seen ?w1 = (r, w2)"
        by (cases "conflict_scan E start cluster_nodes seen ?w1")
      have w2: "extends w w2" using extends_trans [OF extends_perform growsD [OF grows_scan s]] .
      show ?thesis
      proof (cases r)
        case (Inl e)
        with False s w2 show ?thesis by (subst conflict_loop.simps) (simp add: Let_def)
      next
        case (Inr seen')
        then have "extends (perform E (Sleep 0.05) w2) (snd (conflict_loop E start deadline seen' (perform E (Sleep 0.05) w2)))"
          using "1.IH" [OF refl False s [symmetric]] by simp
        then have "extends w (snd (conflict_loop E start deadline seen' (perform E (Sleep 0.05) w2)))"
          using w2 extends_trans extends_perform by blast
        with False s Inr show ?thesis by (subst conflict_loop.simps) (simp add: Let_def)
      qed
    qed
  qed
  then show ?thesis by (simp add: grows_def)
qed

lemma set_host_mac_run:
  assumes "\<forall>h. \<exists>x. en_cmd E h = Inr x" and "en_name E (w_log w @ [HostIntf h]) = Inr intf"
  shows "\<exists>w'. set_host_mac E h m w = (Inr (), w') \<and> w_log w' = w_log w @
    [HostIntf h, HostCmd h (''ip link set '' @ intf @ '' down''), HostCmd h (''ip link set '' @ intf @ '' address '' @ m),
     HostCmd h (''ip link set '' @ intf @ '' up'')]"
proof -
  let ?w1 = "perform E (HostIntf h) w"
  let ?w2 = "perform E (HostCmd h (''ip link set '' @ intf @ '' down'')) ?w1"
  let ?w3 = "perform E (HostCmd h (''ip link set '' @ intf @ '' address '' @ m)) ?w2"
  let ?w4 = "perform E (HostCmd h (''ip link set '' @ intf @ '' up'')) ?w3"
  obtain x y z where "en_cmd E (w_log ?w2) = Inr x" "en_cmd E (w_log ?w3) = Inr y" "en_cmd E (w_log ?w4) = Inr z"
    using assms(1) by meson
  then have "set_host_mac E h m w = (Inr (), ?w4)"
    using assms(2) by (simp add: set_host_mac_def host_cmd_def ask_def Let_def)
  then show ?thesis by simp
qed

text \<open>
  Property C25 (addresses are restored). If the hosts answer, gate G8 ends on every path (a missing
  switch tool, a wait that times out, a predicate that raises) by giving the hosts 1 and 4 the
  addresses back that they had when it began, host 1 first; nothing happens after that.
\<close>

theorem addresses_restored:
  assumes "\<forall>h. \<exists>x. en_cmd E h = Inr x" and "\<forall>h. \<exists>x. en_name E h = Inr x"
  shows "\<exists>m1 m4 i1 i4 h. en_name E (w_log w @ [HostMAC ''h1'']) = Inr m1 \<and>
    en_name E (w_log w @ [HostMAC ''h1'', HostMAC ''h4'']) = Inr m4 \<and>
    w_log (snd (gate_g8 E w)) = w_log w @ h @
      [HostIntf ''h1'', HostCmd ''h1'' (''ip link set '' @ i1 @ '' down''),
       HostCmd ''h1'' (''ip link set '' @ i1 @ '' address '' @ m1), HostCmd ''h1'' (''ip link set '' @ i1 @ '' up''),
       HostIntf ''h4'', HostCmd ''h4'' (''ip link set '' @ i4 @ '' down''),
       HostCmd ''h4'' (''ip link set '' @ i4 @ '' address '' @ m4), HostCmd ''h4'' (''ip link set '' @ i4 @ '' up'')]"
proof -
  let ?w1 = "perform E (HostMAC ''h1'') w"
  let ?w2 = "perform E (HostMAC ''h4'') ?w1"
  obtain m1 m4 where m: "en_name E (w_log ?w1) = Inr m1" "en_name E (w_log ?w2) = Inr m4" using assms(2) by meson
  let ?f = "act_bind (set_host_mac E ''h1'' m1) (\<lambda>_. set_host_mac E ''h4'' m4)"
  obtain r3 w3 where g: "g8_conflict E ?w2 = (r3, w3)" by (cases "g8_conflict E ?w2")
  have "grows (act_each (\<lambda>i. act_bind (run E (del_flows_argv (switch_name i) (''dl_dst='' @ CONFLICT_MAC))) (\<lambda>_. act_return ())) cluster_nodes)"
    by (intro grows_intros)
  then have "grows (g8_conflict E)"
    unfolding g8_conflict_def g8_claim_def dump_flows_for_def
    by (intro grows_intros grows_conflict_loop) (auto intro!: grows_intros split: prod.splits)
  from growsD [OF this g] obtain t where t: "w_log w3 = w_log ?w2 @ t" by (auto simp: extends_def prefix_def)
  obtain i1 where i1: "en_name E (w_log w3 @ [HostIntf ''h1'']) = Inr i1" using assms(2) by blast
  obtain w4 where w4: "set_host_mac E ''h1'' m1 w3 = (Inr (), w4)" "w_log w4 = w_log w3 @
    [HostIntf ''h1'', HostCmd ''h1'' (''ip link set '' @ i1 @ '' down''),
     HostCmd ''h1'' (''ip link set '' @ i1 @ '' address '' @ m1), HostCmd ''h1'' (''ip link set '' @ i1 @ '' up'')]"
    using set_host_mac_run [OF assms(1) i1, of m1] by blast
  obtain i4 where i4: "en_name E (w_log w4 @ [HostIntf ''h4'']) = Inr i4" using assms(2) by blast
  obtain w5 where w5: "set_host_mac E ''h4'' m4 w4 = (Inr (), w5)" "w_log w5 = w_log w4 @
    [HostIntf ''h4'', HostCmd ''h4'' (''ip link set '' @ i4 @ '' down''),
     HostCmd ''h4'' (''ip link set '' @ i4 @ '' address '' @ m4), HostCmd ''h4'' (''ip link set '' @ i4 @ '' up'')]"
    using set_host_mac_run [OF assms(1) i4, of m4] by blast
  have fin: "act_finally (g8_conflict E) ?f ?w2 = (r3, w5)"
    using g w4(1) w5(1) by (simp add: act_finally_def)
  have mac: "ask E (HostMAC ''h1'') (en_name E) w = (Inr m1, ?w1)" "ask E (HostMAC ''h4'') (en_name E) ?w1 = (Inr m4, ?w2)"
    using m by (simp_all add: ask_def Let_def)
  have "snd (gate_g8 E w) = w5"
    unfolding gate_g8_def
    by (simp add: act_bind_def [of "ask E a f" for a f] mac)
      (cases r3; simp add: act_bind_def [of "act_finally m f" for m f] fin)
  then show ?thesis using m w4(2) w5(2) t
    by (intro exI [of _ m1] exI [of _ m4] exI [of _ i1] exI [of _ i4] exI [of _ "[HostMAC ''h1'', HostMAC ''h4''] @ t"]) simp
qed

theorem addresses_restored_witness:
  "\<exists>h i1 i4. w_log (snd (gate_g8 quiet_env quiet_world)) = h @
      [HostIntf ''h1'', HostCmd ''h1'' (''ip link set '' @ i1 @ '' down''),
       HostCmd ''h1'' (''ip link set '' @ i1 @ '' address h1-eth0''), HostCmd ''h1'' (''ip link set '' @ i1 @ '' up''),
       HostIntf ''h4'', HostCmd ''h4'' (''ip link set '' @ i4 @ '' down''),
       HostCmd ''h4'' (''ip link set '' @ i4 @ '' address h1-eth0''), HostCmd ''h4'' (''ip link set '' @ i4 @ '' up'')]"
proof -
  have names: "en_name quiet_env h = Inr ''h1-eth0''" for h by (simp add: quiet_env_def)
  have "\<forall>h. \<exists>x. en_cmd quiet_env h = Inr x" by (simp add: quiet_env_def)
  from addresses_restored [OF this, of quiet_world] show ?thesis
    unfolding names by (force simp: quiet_world_def)
qed

subsection \<open>The verdict of a run\<close>

lemma on_world_results: "on_world m s = (r, s') \<Longrightarrow> gs_results s' = gs_results s"
  by (auto simp: on_world_def split: prod.splits)

lemma gate_step_results:
  "gate_step E name msg gate s = (Inr (), s') \<Longrightarrow> \<exists>rep. gs_results s' = dict_put name rep (gs_results s)"
  by (auto simp: gate_step_def act_bind_Inr act_modify_def dest!: on_world_results)

lemma dict_put_new: "k \<notin> fst ` set d \<Longrightarrow> dict_put k v d = d @ [(k, v)]"
  by (induction k v d rule: dict_put.induct) auto

definition gate_order :: "bool \<Rightarrow> string list" where
  "gate_order include_g8 = [''G1'', ''G2'', ''G3'', ''G4'', ''G6''] @ (if include_g8 then [''G8''] else []) @ [''G5'']"

lemma main_body_results:
  assumes "main_body E env app seed include_g8 s = (Inr (), s')" and "gs_results s = []"
  shows "map fst (gs_results s') = gate_order include_g8"
proof -
  show ?thesis
    using assms unfolding main_body_def
    by (cases include_g8)
      (auto simp: act_bind_Inr act_modify_def act_lift_def act_return_def gate_order_def dest!: on_world_results gate_step_results)
qed

lemma preserves_on_world [preserves_intros]: "preserves gs_results (on_world m)"
  by (simp add: preserves_def on_world_def split: prod.splits)

lemma main_cleanup_results: "main_cleanup E s = (r, s') \<Longrightarrow> gs_results s' = gs_results s"
proof -
  have "preserves gs_results (act_bind (if b then on_world (stop_cluster E ns) else act_return ()) (\<lambda>_.
     act_bind (if c then on_world (ask E StopNet (en_net E)) else act_return ()) (\<lambda>_.
     act_bind (on_world (run E [''mn'', ''-c''])) (\<lambda>_. act_return ()))))" for b c ns
    by (auto intro!: preserves_intros)
  then show "main_cleanup E s = (r, s') \<Longrightarrow> gs_results s' = gs_results s"
    unfolding main_cleanup_def by (rule preservesD)
qed

lemma act_finally_eq:
  "m s = (r, s') \<Longrightarrow> act_finally m f s = (case f s' of (Inl e, s'') \<Rightarrow> (Inl e, s'') | (Inr _, s'') \<Rightarrow> (r, s''))"
  by (simp add: act_finally_def)

lemma act_catch_eq:
  "m s = (r, s') \<Longrightarrow> act_catch m h s =
    (case r of Inl e \<Rightarrow> (case h e of None \<Rightarrow> (Inl e, s') | Some k \<Rightarrow> k s') | Inr x \<Rightarrow> (Inr x, s'))"
  by (auto simp: act_catch_def split: sum.splits)

lemma on_world_logged: "act_bind (on_world (do_action E a)) (\<lambda>_. act_return x) s = (Inr x, s\<lparr>gs_world := perform E a (gs_world s)\<rparr>)"
  by (simp add: on_world_def do_action_def act_modify_def act_return_def act_bind_def)

lemma main_try_run:
  assumes "main_body E env app seed include_g8 s = (r1, s1)"
  obtains s2 where "main_try E env app seed include_g8 s =
    (case main_cleanup E s2 of
       (Inl e, s3) \<Rightarrow> (Inl e, s3)
     | (Inr _, s3) \<Rightarrow> (case r1 of Inl e \<Rightarrow> Inr (Some (fatal_record E e)) | Inr _ \<Rightarrow> Inr None, s3))"
    "gs_results s2 = gs_results s1"
proof -
  let ?body = "act_bind (main_body E env app seed include_g8) (\<lambda>_. act_return None)"
  have body: "?body s = (case r1 of Inl e \<Rightarrow> Inl e | Inr _ \<Rightarrow> Inr None, s1)"
    using assms by (cases r1) (simp_all add: act_bind_def [of "main_body E env app seed include_g8"] act_return_def)
  let ?log = "\<lambda>e. perform E (RecordRaw ''gate_driver'' (dict_merge [(''event'', JStr ''fatal_error'')] (fatal_record E e)))"
  let ?s2 = "case r1 of Inl e \<Rightarrow> s1\<lparr>gs_world := ?log e (gs_world s1)\<rparr> | Inr _ \<Rightarrow> s1"
  let ?r2 = "case r1 of Inl e \<Rightarrow> Inr (Some (fatal_record E e)) | Inr _ \<Rightarrow> Inr None"
  have catch: "act_catch ?body (\<lambda>exc. let fatal = fatal_record E exc
          in Some (act_bind (on_world (do_action E (RecordRaw ''gate_driver'' (dict_merge [(''event'', JStr ''fatal_error'')] fatal))))
               (\<lambda>_. act_return (Some fatal)))) s = (?r2, ?s2)"
    unfolding act_catch_eq [where m = ?body and s = s, OF body] Let_def on_world_logged
    by (cases r1) (simp_all add: on_world_logged)
  have "main_try E env app seed include_g8 s =
    (case main_cleanup E ?s2 of (Inl e, s3) \<Rightarrow> (Inl e, s3) | (Inr _, s3) \<Rightarrow> (?r2, s3))"
    unfolding main_try_def using catch by (rule act_finally_eq)
  then show ?thesis by (rule that) (cases r1; simp)
qed

lemma main_try_results:
  assumes "main_try E env app seed include_g8 s = (Inr None, s')" and "gs_results s = []"
  shows "map fst (gs_results s') = gate_order include_g8"
proof -
  obtain r1 s1 where b: "main_body E env app seed include_g8 s = (r1, s1)" by (cases "main_body E env app seed include_g8 s")
  obtain s2 where s2: "main_try E env app seed include_g8 s =
    (case main_cleanup E s2 of
       (Inl e, s3) \<Rightarrow> (Inl e, s3)
     | (Inr _, s3) \<Rightarrow> (case r1 of Inl e \<Rightarrow> Inr (Some (fatal_record E e)) | Inr _ \<Rightarrow> Inr None, s3))"
    "gs_results s2 = gs_results s1" by (rule main_try_run [OF b])
  obtain u s3 where c: "main_cleanup E s2 = (u, s3)" by (cases "main_cleanup E s2")
  have "r1 = Inr ()" "s3 = s'"
    using assms(1) s2(1) c by (auto split: sum.splits)
  then show ?thesis using main_body_results b assms(2) main_cleanup_results [OF c] s2(2) by metis
qed

lemma all_pass_list:
  "res_map (\<lambda>(g, r). res_bind (dict_item r ''pass'') (\<lambda>v. Inr (g, v))) rs = Inr gp \<Longrightarrow>
   all_pass (map snd rs) = Inr (list_all (\<lambda>(g, r). py_truth (dict_get r ''pass'')) rs) \<and>
   gp = map (\<lambda>(g, r). (g, dict_get r ''pass'')) rs"
proof (induction rs arbitrary: gp)
  case (Cons x rs)
  obtain g r where x: "x = (g, r)" by (cases x)
  with Cons.prems obtain v gp' where v: "dict_item r ''pass'' = Inr v"
      "res_map (\<lambda>(g, r). res_bind (dict_item r ''pass'') (\<lambda>v. Inr (g, v))) rs = Inr gp'" "gp = (g, v) # gp'"
    by (auto simp: res_bind_Inr_conv)
  then have "dict_get r ''pass'' = v" by (simp add: dict_item_def dict_get_def split: option.splits)
  then show ?case using v x Cons.IH [OF v(2)] by (simp add: report_passes_def)
qed simp

text \<open>
  Property C26 (a passing run). When the run ends with a manifest, it counts as passed exactly when there was
  no fatal error and every report in it has a true verdict; and without a fatal error the reports are those of
  all the gates, in the order G1, G2, G3, G4, G6, G8 if asked for, G5. So a run that stopped early never counts as
  passed, and the verdicts in the manifest are those of the reports.
\<close>

theorem passed_means_all_gates:
  "case gate_main E os_environ app seed include_g8 w of
     (Inl e, w') \<Rightarrow> True
   | (Inr m, w') \<Rightarrow>
       gm_all_passed m = (gm_fatal m = None \<and> list_all (\<lambda>(g, r). py_truth (dict_get r ''pass'')) (gm_results m)) \<and>
       (if gm_fatal m = None then map fst (gm_results m) = gate_order include_g8 else \<not> gm_all_passed m) \<and>
       gm_gate_pass m = map (\<lambda>(g, r). (g, dict_get r ''pass'')) (gm_results m)"
proof -
  let ?s = "\<lparr>gs_world = w, gs_net = False, gs_nodes = [], gs_results = []\<rparr>"
  obtain r s where t: "main_try E os_environ app seed include_g8 ?s = (r, s)" by (cases "main_try E os_environ app seed include_g8 ?s")
  show ?thesis
  proof (cases "gate_main E os_environ app seed include_g8 w")
    case (Pair r' w')
    show ?thesis
    proof (cases r')
      case (Inl e)
      with Pair show ?thesis by simp
    next
      case (Inr m)
      obtain fatal passed gp where m: "r = Inr fatal" "all_gates_passed fatal include_g8 (gs_results s) = Inr passed"
          "res_map (\<lambda>(g, r). res_bind (dict_item r ''pass'') (\<lambda>v. Inr (g, v))) (gs_results s) = Inr gp"
          "m = \<lparr>gm_results = gs_results s, gm_fatal = fatal, gm_all_passed = passed, gm_gate_pass = gp\<rparr>"
        using Pair Inr t by (auto simp: gate_main_def res_bind_Inr_conv split: sum.splits)
      have keys: "map fst (gs_results s) = gate_order include_g8" if "fatal = None"
        using t m(1) that by (intro main_try_results [of E os_environ app seed include_g8 ?s]) simp_all
      have len: "length (gs_results s) = (if include_g8 then 7 else 6)" if "fatal = None"
        using arg_cong [OF keys [OF that], of length] by (simp add: gate_order_def)
      show ?thesis
        using Pair Inr m(2,4) all_pass_list [OF m(3)] keys len by (cases fatal) (auto simp: all_gates_passed_def)
    qed
  qed
qed

end
