(* ===== verification/Gate_Scripts.thy ===== *)
theory Gate_Scripts
  imports Gate_Checks Transport_Laws
begin

text \<open>
  The gates G2 to G4 from end to end: the updates the scripted Python peer writes to its socket, read
  by the C transport of the node, judged by the C host table, named as the node prints the results,
  and compared with what the gate expects. The table behaves like one register that holds the
  newest version.
\<close>

subsection \<open>The abstract register\<close>

fun judge :: "version option \<Rightarrow> version \<Rightarrow> daim_host_apply_result" where
  "judge None v = DAIM_HOST_APPLY_NEW"
| "judge (Some r) v =
     (if v = r then DAIM_HOST_APPLY_DUPLICATE else if v < r then DAIM_HOST_APPLY_STALE_REJECTED
      else DAIM_HOST_APPLY_UPDATED)"

fun keep :: "version option \<Rightarrow> version \<Rightarrow> version" where
  "keep None v = v"
| "keep (Some r) v = max r v"

fun script_results :: "version option \<Rightarrow> version list \<Rightarrow> daim_host_apply_result list" where
  "script_results r [] = []"
| "script_results r (v # vs) = judge r v # script_results (Some (keep r v)) vs"

subsection \<open>The table refines the register\<close>

text \<open>The content of a table at one address, as an update of origin \<open>o'\<close> finds it.\<close>

definition holds :: "u64 \<Rightarrow> bytes \<Rightarrow> daim_host_location list \<Rightarrow> version option \<Rightarrow> bool" where
  "holds from m t r \<longleftrightarrow>
     (case r of
        None \<Rightarrow> table_lookup t m = None \<and> length t < MAX_HOST_ENTRIES
      | Some v \<Rightarrow> \<exists>e. table_lookup t m = Some e \<and> origin_node_id e = from \<and> loc_version e = v)"

lemma judge_apply:
  assumes "holds (origin_node_id u) (mac u) t r" and "origin_node_id u \<noteq> 0" and "origin_node_id u \<noteq> me"
  shows "fst (apply_table me now u t) = judge r (loc_version u)"
    and "holds (origin_node_id u) (mac u) (snd (apply_table me now u t)) (Some (keep r (loc_version u)))"
proof -
  have room: "has_room (mac u) t"
    using assms(1) by (auto simp: holds_def has_room_def table_lookup_def split: option.splits)
  note look = table_lookup_apply [OF room, of me now "mac u"]
  show "fst (apply_table me now u t) = judge r (loc_version u)"
  proof (cases r)
    case None
    with assms show ?thesis by (simp add: holds_def apply_table_def table_lookup_def)
  next
    case (Some v)
    with assms obtain i where "find_index t (mac u) = Some i" "origin_node_id (t ! i) = origin_node_id u"
        "loc_version (t ! i) = v" by (auto simp: holds_def table_lookup_def)
    with Some assms show ?thesis
      by (auto simp: apply_table_def Let_def is_newer_version duplicate_version)
  qed
  show "holds (origin_node_id u) (mac u) (snd (apply_table me now u t)) (Some (keep r (loc_version u)))"
  proof (cases r)
    case None
    with assms look show ?thesis by (simp add: holds_def reg_step_def)
  next
    case (Some v)
    with assms obtain e where e: "table_lookup t (mac u) = Some e" "origin_node_id e = origin_node_id u" "loc_version e = v"
      by (auto simp: holds_def)
    with Some assms look show ?thesis
      by (auto simp: holds_def reg_step_def max_def)
  qed
qed

text \<open>The frames of a script: updates for one address from one origin.\<close>

definition update_frame :: "u64 \<Rightarrow> bytes \<Rightarrow> c_frame \<Rightarrow> version \<Rightarrow> bool" where
  "update_frame from m f v \<longleftrightarrow> small_frame f \<and> message_type (fst f) = 3 \<and>
     (\<exists>l. daim_peer_decode_host_location (snd f) = Inr l \<and> origin_node_id l = from \<and> mac l = m \<and> loc_version l = v)"

lemma steady_script:
  assumes "list_all2 (update_frame from m) fs vs" and "holds from m (table (ls_hosts s)) r"
    and "ready (ls_hosts s)" and "from \<noteq> 0" and "from \<noteq> node_id (ls_hosts s)"
  shows "\<exists>applied. ls_applied (steady_loop clock (concat (map frame_bytes fs)) s) = ls_applied s @ applied \<and>
    map (snd \<circ> snd) applied = script_results r vs \<and> (\<forall>(p, l, x) \<in> set applied. mac l = m)"
  using assms
proof (induction fs vs arbitrary: s r rule: list_all2_induct)
  case Nil
  then show ?case by (subst steady_loop.simps) (simp add: recv_framed_def DAIM_PEER_HEADER_SIZE_def)
next
  case (Cons f fs v vs)
  then obtain l where f: "small_frame f" "message_type (fst f) = 3" and
    l: "daim_peer_decode_host_location (snd f) = Inr l" "origin_node_id l = from" "mac l = m" "loc_version l = v"
    by (auto simp: update_frame_def)
  let ?s = "count_received (fst f) s"
  let ?s1 = "apply_and_report clock daim_host_apply_remote (hdr_origin_node_id (fst f)) l ?s"
  have s: "ls_hosts ?s = ls_hosts s" "ls_applied ?s = ls_applied s" by (simp_all add: count_received_def upd_stats_def)
  have step: "steady_loop clock (concat (map frame_bytes (f # fs))) s = steady_loop clock (concat (map frame_bytes fs)) ?s1"
    by (subst steady_loop.simps) (simp add: recv_framed_frame [OF f(1)] handle_message_def f(2) l(1))
  define u where "u = apply_table (node_id (ls_hosts s)) (clock (ls_ticks ?s)) l (table (ls_hosts s))"
  have s1: "ls_applied ?s1 = ls_applied s @ [(hdr_origin_node_id (fst f), l\<lparr>applied_at_ns := clock (ls_ticks ?s + 1)\<rparr>, fst u)]"
      "table (ls_hosts ?s1) = snd u" "ready (ls_hosts ?s1)" "node_id (ls_hosts ?s1) = node_id (ls_hosts s)"
    using Cons.prems(2) s by (simp_all add: apply_and_report_def daim_host_apply_remote_def apply_locked_def u_def split_def)
  have "fst u = judge r v" "holds from m (snd u) (Some (keep r v))"
    using judge_apply [of l "table (ls_hosts s)" r "node_id (ls_hosts s)" "clock (ls_ticks ?s)"] Cons.prems l
    by (simp_all add: u_def)
  then obtain applied where "ls_applied (steady_loop clock (concat (map frame_bytes fs)) ?s1) = ls_applied ?s1 @ applied"
      "map (snd \<circ> snd) applied = script_results (Some (keep r v)) vs" "\<forall>(p, l, x) \<in> set applied. mac l = m"
    using Cons.IH [of ?s1 "Some (keep r v)"] Cons.prems(3,4) s1(2-4) by metis
  then show ?case unfolding step using s1(1) l(3) \<open>fst u = judge r v\<close>
    by (intro exI [of _ "(hdr_origin_node_id (fst f), l\<lparr>applied_at_ns := clock (ls_ticks ?s + 1)\<rparr>, fst u) # applied"]) (simp add: comp_def)
qed

subsection \<open>What the scripted peer writes\<close>

definition script_version :: "int \<times> int \<Rightarrow> version" where
  "script_version = (\<lambda>(owner_ep, sq). Version (word_of_int owner_ep) (word_of_int sq))"

lemma send_update_frame:
  assumes "sp_sock p = Some sk" and "peer_in_range clock (Suc n) p" and "length m = 6" and "fits 8 ep" and "fits 8 sq"
    and "fits 8 now"
  shows "\<exists>f p' sk'. send_host_location_update clock now m 999 9999 1 ep sq True None p = (Inr (), p') \<and>
    sp_sock p' = Some sk' \<and> sk_tx sk' = sk_tx sk @ [frame_bytes f] \<and> peer_in_range clock n p' \<and>
    update_frame 999 m f (script_version (ep, sq))"
proof -
  let ?l = "location_words m 999 9999 1 ep sq True now 0"
  let ?pl = "daim_peer_encode_host_location ?l"
  let ?h = "frame_header 1 3 (sp_node_id p) (sp_next_message_id p) (int (length ?pl)) (clock (sp_next_message_id p))"
  have wf: "location_wf ?l" using assms(3) by (simp add: location_wf_def location_words_def MAC_ADDR_LEN_def)
  have len: "length ?pl = 59"
    using wf by (simp add: location_codec.encode_length DAIM_PEER_HOST_LOCATION_WIRE_SIZE_def)
  have enc: "encode_host_location m 999 9999 1 ep sq True now 0 = Inr ?pl"
    using assms by (simp add: python_location_bytes location_fits_def fits_def)
  have "header_fits 1 3 (sp_node_id p) (sp_next_message_id p) (int (length ?pl)) (clock (sp_next_message_id p))"
    by (rule peer_in_range_header [OF assms(2)]) (simp_all add: fits_def len)
  from peer_send_ok [where payload = ?pl and mtype = 3 and clock = clock, OF assms(1) this]
  have "send_host_location_update clock now m 999 9999 1 ep sq True None p = (Inr (), p\<lparr>sp_next_message_id := sp_next_message_id p + 1,
     sp_sock := Some (sk\<lparr>sk_tx := sk_tx sk @ [frame_bytes (?h, ?pl)]\<rparr>)\<rparr>)"
    by (simp add: send_host_location_update_def enc MSG_HOST_LOCATION_UPDATE_def frame_bytes_def)
  moreover have "origin_node_id ?l = 999" "mac ?l = m" "loc_version ?l = script_version (ep, sq)"
    by (simp_all add: location_words_def loc_version_def script_version_def)
  then have "update_frame 999 m (?h, ?pl) (script_version (ep, sq))"
    using wf by (simp add: update_frame_def small_frame_def frame_ok_def frame_header_def len location_roundtrip
        DAIM_PEER_PROTOCOL_VERSION_def DAIM_PEER_MAX_PAYLOAD_SIZE_def)
  moreover have "peer_in_range clock n (p\<lparr>sp_next_message_id := sp_next_message_id p + 1,
     sp_sock := Some (sk\<lparr>sk_tx := sk_tx sk @ [frame_bytes (?h, ?pl)]\<rparr>)\<rparr>)"
    using assms(2) by (simp add: peer_in_range_def)
  ultimately show ?thesis by fastforce
qed

lemma send_updates_frames:
  assumes "sp_sock p = Some sk" and "peer_in_range (en_ns E) (length evs) p" and "length m = 6"
    and "\<forall>(ep, sq) \<in> set evs. fits 8 ep \<and> fits 8 sq"
  shows "\<exists>p' w' fs. send_updates E m evs p w = (Inr p', w') \<and> written p' = written p @ map frame_bytes fs \<and>
    list_all2 (update_frame 999 m) fs (map script_version evs)"
  using assms
proof (induction evs arbitrary: p sk w)
  case Nil
  then show ?case by (intro exI [of _ p] exI [of _ w] exI [of _ "[]"]) (simp add: act_return_def)
next
  case (Cons ev evs)
  obtain ep sq where ev: "ev = (ep, sq)" by (cases ev)
  have range: "peer_in_range (en_ns E) (Suc (length evs)) p" "fits 8 ep" "fits 8 sq" "fits 8 (en_ns E 0)"
    using Cons.prems ev by (auto simp: peer_in_range_def)
  obtain f p1 sk1 where p1: "send_host_location_update (en_ns E) (en_ns E 0) m 999 9999 1 ep sq True None p = (Inr (), p1)"
      "sp_sock p1 = Some sk1" "sk_tx sk1 = sk_tx sk @ [frame_bytes f]" "peer_in_range (en_ns E) (length evs) p1"
      "update_frame 999 m f (script_version (ep, sq))"
    using send_update_frame [OF Cons.prems(1) range(1) Cons.prems(3) range(2-4)] by blast
  obtain w1 where w1: "on_peer E (send_host_location_update (en_ns E) (en_ns E 0) m 999 9999 1 ep sq True None) p w = (Inr ((), p1), w1)"
    by (simp add: on_peer_def p1(1))
  obtain p' w' fs where ih: "send_updates E m evs p1 (perform E (Sleep 0.2) w1) = (Inr p', w')"
      "written p' = written p1 @ map frame_bytes fs" "list_all2 (update_frame 999 m) fs (map script_version evs)"
    using Cons.IH [OF p1(2,4) Cons.prems(3)] Cons.prems(4) by fastforce
  have "send_updates E m (ev # evs) p w = (Inr p', w')"
    using ih(1) by (simp add: ev w1 sleep_def do_action_def)
  then show ?case
    using ih(2,3) p1(3,5) Cons.prems(1) p1(2) ev
    by (intro exI [of _ p'] exI [of _ w'] exI [of _ "f # fs"]) (simp add: written_def)
qed

text \<open>
  Property C23 (scripted updates). Take a peer that is connected and a node that does not know the script's
  address yet. Every sequence of versions the peer sends is judged by the node like a register that
  keeps the newest version: the first one is new, an equal one a duplicate, a lower one stale, a
  higher one an update. The gate's verdict on the names the node prints for them is that of its expected list.
\<close>

theorem scripted_updates_judged:
  assumes "sp_sock p = Some sk" and "peer_in_range (en_ns E) (length evs) p" and "length m = 6"
    and "\<forall>(ep, sq) \<in> set evs. fits 8 ep \<and> fits 8 sq"
    and "ready (ls_hosts s)" and "node_id (ls_hosts s) \<noteq> 999" and "daim_host_lookup (ls_hosts s) m = None"
    and "length (table (ls_hosts s)) < MAX_HOST_ENTRIES"
  shows "\<exists>p' w' frames applied. send_updates E m evs p w = (Inr p', w') \<and> written p' = written p @ frames \<and>
    ls_applied (steady_loop clock (concat frames) s) = ls_applied s @ applied \<and>
    (\<forall>(from, l, r) \<in> set applied. mac l = m) \<and>
    map (\<lambda>(from, l, r). r) applied = script_results None (map script_version evs) \<and>
    dict_get (scripted_report gate description expected (map (\<lambda>(from, l, r). JStr (result_name r)) applied)) ''pass'' =
      JBool (map result_name (script_results None (map script_version evs)) = expected)"
proof -
  obtain p' w' fs where sent: "send_updates E m evs p w = (Inr p', w')" "written p' = written p @ map frame_bytes fs"
      "list_all2 (update_frame 999 m) fs (map script_version evs)"
    using send_updates_frames [OF assms(1-4)] by blast
  have "holds 999 m (table (ls_hosts s)) None"
    using assms(5,7,8) by (simp add: holds_def daim_host_lookup_table)
  then obtain applied where got: "ls_applied (steady_loop clock (concat (map frame_bytes fs)) s) = ls_applied s @ applied"
      "map (snd \<circ> snd) applied = script_results None (map script_version evs)" "\<forall>(p, l, x) \<in> set applied. mac l = m"
    using steady_script [OF sent(3), of s None clock] assms(5,6) by auto
  have names: "map (\<lambda>(from, l, r). JStr (result_name r)) applied = map (JStr \<circ> result_name) (script_results None (map script_version evs))"
    unfolding got(2) [symmetric] by (simp add: comp_def split_def)
  have eq: "values_equal (map JStr xs) (map JStr ys) \<longleftrightarrow> xs = ys" for xs ys
    unfolding values_equal_def
  proof (induction xs arbitrary: ys)
    case (Cons x xs)
    then show ?case by (cases ys) (auto simp: py_eq_def)
  qed (simp_all add: eq_commute)
  show ?thesis
    using sent(1,2) got names eq [of "map result_name (script_results None (map script_version evs))" expected]
    by (intro exI [of _ p'] exI [of _ w'] exI [of _ "map frame_bytes fs"] exI [of _ applied])
      (simp add: scripted_report_def dict_get_def comp_def split_def)
qed

definition script_node :: host_state where
  "script_node = daim_host_state_init 1 1 g_state0"

definition script_link :: link_state where
  "script_link = \<lparr>ls_hosts = script_node, ls_node_id = 1, ls_next_message_id = 0, ls_active = True, ls_ready = True,
     ls_peer_node_id = 999, ls_writable = True, ls_out = [], ls_applied = [], ls_lifecycle = [],
     ls_stats = zero_transport_stats, ls_ticks = 0\<rparr>"

definition script_peer :: synthetic_peer where
  "script_peer = (SyntheticPeer_init 999 1)\<lparr>sp_sock := Some \<lparr>sk_rx = [], sk_rx_end = PeerSilent, sk_tx = []\<rparr>\<rparr>"

text \<open>The script of a gate against a fresh node, up to the verdict.\<close>

definition script_passes :: "string \<Rightarrow> u8 \<Rightarrow> (int \<times> int) list \<Rightarrow> string list \<Rightarrow> bool" where
  "script_passes gate suff evs expected \<longleftrightarrow>
     (\<exists>p' w' frames applied. send_updates quiet_env [0, 0, 0, 0, 0, suff] evs script_peer quiet_world = (Inr p', w') \<and>
        written p' = written script_peer @ frames \<and>
        ls_applied (steady_loop (\<lambda>_. 7) (concat frames) script_link) = ls_applied script_link @ applied \<and>
        dict_get (scripted_report gate [] expected (map (\<lambda>(from, l, r). JStr (result_name r)) applied)) ''pass'' = JBool True)"

lemma script_setup [simp]:
  "sp_sock script_peer = Some \<lparr>sk_rx = [], sk_rx_end = PeerSilent, sk_tx = []\<rparr>"
  "length evs < 10 \<Longrightarrow> peer_in_range (en_ns quiet_env) (length evs) script_peer"
  "ready (ls_hosts script_link)" "node_id (ls_hosts script_link) = 1" "daim_host_lookup (ls_hosts script_link) m = None"
  "table (ls_hosts script_link) = []"
  by (simp_all add: script_peer_def SyntheticPeer_init_def peer_in_range_def fits_def quiet_env_def script_link_def
      script_node_def daim_host_state_init_def daim_host_lookup_def)

theorem scripted_updates_judged_witness:
  "script_passes ''G2'' 0xA1 [(1, 100), (1, 100)] [''new'', ''duplicate''] \<and>
   script_passes ''G3'' 0xA2 [(1, 200), (1, 150)] [''new'', ''stale_rejected''] \<and>
   script_passes ''G4'' 0xA3 [(1, 300), (0, 999999), (2, 1)] [''new'', ''stale_rejected'', ''updated'']"
proof -
  have pass: "script_passes gate suff evs expected"
    if "length evs < 10" "\<forall>(ep, sq) \<in> set evs. fits 8 ep \<and> fits 8 sq"
      "map result_name (script_results None (map script_version evs)) = expected" for gate suff evs expected
    using scripted_updates_judged [of script_peer _ quiet_env evs "[0, 0, 0, 0, 0, suff]" script_link quiet_world "\<lambda>_. 7" gate "[]" expected] that
    by (auto simp: script_passes_def MAX_HOST_ENTRIES_def)
  have "(100 :: u64) < 200" "(150 :: u64) < 200" by simp_all
  then show ?thesis
    by (intro conjI pass) (simp_all add: fits_def script_version_def less_version_def max_def less_eq_version_def)
qed

end
