(* ===== verification/Gate_Readings.thy ===== *)
theory Gate_Readings
  imports Gate_Conflict
begin

text \<open>
  How the gates read the text the tools print: the packet loss of a ping, and the ports of a line
  of a flow dump.
\<close>

subsection \<open>Packet loss\<close>

lemma nat_str_last: "last (nat_str 10 n) = digit_char (n mod 10)"
  by (cases "n < 10"; subst nat_str_def, subst digits_of.simps) auto

lemma digit_char_zero:
  assumes "d < 10"
  shows "digit_char d = CHR ''0'' \<longleftrightarrow> d = 0"
proof
  assume "digit_char d = CHR ''0''"
  then have "(of_char (digit_char d) :: nat) = 48" by simp
  with digit_char_code [OF assms] show "d = 0" by simp
qed (simp add: digit_char_table)

lemma split_at_percent:
  assumes "CHR ''%'' \<notin> set xs" and "CHR ''%'' \<notin> set ys" and "xs @ CHR ''%'' # ys = xs' @ CHR ''%'' # ys'"
  shows "xs = xs'"
  using assms by (auto simp: append_eq_append_conv2 Cons_eq_append_conv append_eq_Cons_conv)

text \<open>
  Property C27 (packet loss). On the summary of a ping, with the loss as its only percentage, the gates'
  test for an undisturbed connection succeeds for every loss that is a multiple of ten: it accepts
  100% packet loss, which is no connection at all, and 50%, one of the two echoes it asks for.
\<close>

theorem packet_loss_accepted:
  assumes "CHR ''%'' \<notin> set pre" and "CHR ''%'' \<notin> set post"
  shows "no_packet_loss (pre @ nat_str 10 loss @ ''% packet loss'' @ post) \<longleftrightarrow> 10 dvd loss"
proof -
  let ?out = "pre @ nat_str 10 loss @ ''% packet loss'' @ post"
  have digits: "CHR ''%'' \<notin> set (nat_str 10 loss)"
    using nat_str_chars [of 10 "CHR ''%''" loss] by auto
  have "no_packet_loss ?out \<longleftrightarrow> last (nat_str 10 loss) = CHR ''0''"
  proof
    assume "no_packet_loss ?out"
    then obtain a b where "?out = a @ ''0% packet loss'' @ b" by (auto simp: no_packet_loss_def py_substring_iff)
    then have "(pre @ nat_str 10 loss) @ CHR ''%'' # '' packet loss'' @ post = (a @ ''0'') @ CHR ''%'' # '' packet loss'' @ b"
      by simp
    from split_at_percent [OF _ _ this] assms digits have "pre @ nat_str 10 loss = a @ ''0''" by simp
    then show "last (nat_str 10 loss) = CHR ''0''" by (metis last_appendR last_snoc nat_str_nonempty)
  next
    assume "last (nat_str 10 loss) = CHR ''0''"
    then have "nat_str 10 loss = butlast (nat_str 10 loss) @ ''0''" by (metis append_butlast_last_id nat_str_nonempty)
    then have "?out = (pre @ butlast (nat_str 10 loss)) @ ''0% packet loss'' @ post"
      by (metis append_Cons append_Nil append_assoc)
    then show "no_packet_loss ?out" unfolding no_packet_loss_def py_substring_iff by blast
  qed
  then show ?thesis by (simp add: nat_str_last digit_char_zero dvd_eq_mod_eq_0)
qed

theorem packet_loss_accepted_witness:
  "no_packet_loss ''2 packets transmitted, 0 received, 100% packet loss, time 1010ms''"
  using packet_loss_accepted [of "''2 packets transmitted, 0 received, ''" "'', time 1010ms''" 100]
  by (simp add: nat_str_def digits_of.simps digit_char_table)

subsection \<open>Ports of a flow\<close>

text \<open>No proper beginning of the pattern is an end of it, so two occurrences never overlap.\<close>

definition border_free :: "string \<Rightarrow> bool" where
  "border_free pat \<longleftrightarrow> (\<forall>j \<in> {1..<length pat}. take j pat \<noteq> drop (length pat - j) pat)"

lemma search_skip:
  assumes "border_free pat" and "\<not> py_substring pat pre"
  shows "search_number pat (pre @ pat @ rest) = search_number pat (pat @ rest)"
  using assms(2)
proof (induction pre)
  case (Cons c pre)
  have "\<not> prefix pat ((c # pre) @ pat @ rest)"
  proof
    assume pre: "prefix pat ((c # pre) @ pat @ rest)"
    show False
    proof (cases "length pat \<le> length (c # pre)")
      case True
      with pre have "prefix pat (c # pre)" by (metis prefix_length_prefix prefixI)
      with Cons.prems show False by simp
    next
      case False
      define j where "j = length pat - length (c # pre)"
      have "pat = take (length pat) ((c # pre) @ pat @ rest)" using pre by (metis append_eq_conv_conj prefix_def)
      also have "\<dots> = (c # pre) @ take j pat" using False by (subst take_append) (simp add: j_def)
      finally have "pat = (c # pre) @ take j pat" .
      then have "drop (length pat - j) pat = take j pat" using False j_def
        by (metis append_eq_conv_conj diff_diff_cancel nat_le_linear)
      moreover have "j \<in> {1..<length pat}" using False by (auto simp: j_def)
      ultimately show False using assms(1) unfolding border_free_def by metis
    qed
  qed
  with Cons show ?case by simp
qed simp

lemma search_finds:
  assumes "border_free pat" and "pat \<noteq> []" and "\<not> py_substring pat pre" and "takeWhile is_digit rest = []"
  shows "search_number pat (pre @ pat @ nat_str 10 n @ rest) = Some n"
proof -
  obtain c p where "pat = c # p" using assms(2) by (cases pat) auto
  then show ?thesis
    unfolding search_skip [OF assms(1,3)] using assms(4) by (simp add: digit_run digits_nat_str)
qed

text \<open>
  The two regular expressions read the numbers that a dump line shows for its
  input port and its output port, when these are the first occurrences of the two labels in the line.
\<close>

theorem flow_ports_read:
  assumes "\<not> py_substring ''in_port='' pre"
    and "\<not> py_substring ''actions=output:'' (pre @ ''in_port='' @ nat_str 10 i @ mid)"
    and "takeWhile is_digit mid = []" and "takeWhile is_digit post = []" and "mid \<noteq> []"
  shows "flow_in_out_port (pre @ ''in_port='' @ nat_str 10 i @ mid @ ''actions=output:'' @ nat_str 10 out @ post) = (Some i, Some out)"
proof -
  have free: "border_free ''in_port=''" "border_free ''actions=output:''" by code_simp+
  have "takeWhile is_digit (mid @ ''actions=output:'' @ nat_str 10 out @ post) = []"
    using assms(3,5) by (cases mid) (auto split: if_splits)
  moreover have "search_number ''actions=output:'' ((pre @ ''in_port='' @ nat_str 10 i @ mid) @ ''actions=output:'' @ nat_str 10 out @ post) = Some out"
    by (rule search_finds [OF free(2) _ assms(2,4)]) simp
  ultimately show ?thesis
    using search_finds [OF free(1) _ assms(1)] by (simp add: flow_in_out_port_def)
qed

theorem flow_ports_read_witness:
  "flow_in_out_port ''cookie=0x0, duration=1.5s, n_packets=3, priority=100,in_port=1,dl_dst=02:00:00:00:99:99 actions=output:12'' = (Some 1, Some 12)"
  using flow_ports_read [of "''cookie=0x0, duration=1.5s, n_packets=3, priority=100,''" 1 "'',dl_dst=02:00:00:00:99:99 ''" "[]" 12]
  by (simp add: nat_str_def digits_of.simps digit_char_table is_digit_def)

end
