(* ===== verification/OpenFlow_Adapter.thy ===== *)
theory OpenFlow_Adapter
  imports Learning_Laws Peer_Protocol
begin

text \<open>
  The persistent switch adapter (\<open>implementation/src/ovs_persistent_adapter.c\<close>): parsing of flow
  strings, construction of OpenFlow 1.3 messages, sending of flow-mods with their counters, and the
  reader that answers echo requests. The field writers are the same big-endian writers as in
  \<open>Peer_Protocol\<close>. Socket set-up and threads are not modelled; what \<open>send\<close> returns is a parameter.
\<close>

subsection \<open>C text conversions\<close>

definition c_isspace :: "char \<Rightarrow> bool" where
  "c_isspace c \<longleftrightarrow> (of_char c :: nat) \<in> {9, 10, 11, 12, 13, 32}"

text \<open>\<open>atoi\<close> as glibc has it: \<open>strtol\<close> on 64 bits, which saturates, cut down to an \<open>int\<close>.\<close>

definition c_atoi :: "string \<Rightarrow> int" where
  "c_atoi s =
     (let t = dropWhile c_isspace s;
          neg = (take 1 t = ''-'');
          u = (if take 1 t = ''-'' \<or> take 1 t = ''+'' then drop 1 t else t);
          v = int (digits_nat (takeWhile is_digit u));
          l = (if neg then max (- (2 ^ 63)) (- v) else min (2 ^ 63 - 1) v)
      in sint (word_of_int l :: 32 word))"

text \<open>
  One \<open>%2x\<close> of \<open>sscanf\<close>: white space is skipped, then at most two characters are converted, which may
  begin with a sign or be the prefix \<open>0x\<close>. The result is the \<open>unsigned int\<close> and the text behind it.
\<close>

definition hex_digit :: "char \<Rightarrow> nat option" where
  "hex_digit c = (case char_digit c of Some d \<Rightarrow> if d < 16 then Some d else None | None \<Rightarrow> None)"

definition scan_hex2 :: "string \<Rightarrow> (u32 \<times> string) option" where
  "scan_hex2 s =
     (case dropWhile c_isspace s of
        [] \<Rightarrow> None
      | c # t \<Rightarrow>
          if c = CHR ''-'' \<or> c = CHR ''+''
          then (case t of
                  [] \<Rightarrow> None
                | d # r \<Rightarrow> (case hex_digit d of None \<Rightarrow> None
                    | Some x \<Rightarrow> Some (if c = CHR ''-'' then - of_nat x else of_nat x, r)))
          else (case hex_digit c of
                  None \<Rightarrow> None
                | Some x \<Rightarrow>
                    (case t of
                       [] \<Rightarrow> Some (of_nat x, [])
                     | d # r \<Rightarrow>
                         if x = 0 \<and> (d = CHR ''x'' \<or> d = CHR ''X'') then Some (0, r)
                         else (case hex_digit d of None \<Rightarrow> Some (of_nat x, t)
                           | Some y \<Rightarrow> Some (of_nat (16 * x + y), r)))))"

text \<open>The six conversions of \<open>parse_mac\<close>, each followed by a colon except the last.\<close>

fun scan_mac :: "nat \<Rightarrow> string \<Rightarrow> bytes option" where
  "scan_mac 0 s = Some []"
| "scan_mac (Suc n) s =
     (case scan_hex2 s of
        None \<Rightarrow> None
      | Some (v, r) \<Rightarrow>
          if n = 0 then Some [ucast v]
          else (case r of
                  [] \<Rightarrow> None
                | c # r' \<Rightarrow> if c = CHR '':'' then map_option ((#) (ucast v)) (scan_mac n r') else None))"

definition parse_mac :: "string \<Rightarrow> bytes option" where
  "parse_mac s = scan_mac 6 s"

subsection \<open>Flow strings\<close>

text \<open>A field with its \<open>has_\<close> flag is an option.\<close>

record parsed_flow =
  pf_priority :: "u16 option"
  pf_in_port :: "u32 option"
  pf_dl_dst :: "bytes option"
  pf_ip :: bool
  pf_output :: "u32 option"

definition OFPP_NORMAL :: u32 where "OFPP_NORMAL = 0xfffffffa"

definition empty_flow :: parsed_flow where
  "empty_flow = \<lparr>pf_priority = None, pf_in_port = None, pf_dl_dst = None, pf_ip = False, pf_output = None\<rparr>"

definition parse_token :: "string \<Rightarrow> parsed_flow \<Rightarrow> parsed_flow option" where
  "parse_token tok f =
     (if prefix ''priority='' tok then Some (f\<lparr>pf_priority := Some (word_of_int (c_atoi (drop 9 tok)))\<rparr>)
      else if prefix ''in_port='' tok then Some (f\<lparr>pf_in_port := Some (word_of_int (c_atoi (drop 8 tok)))\<rparr>)
      else if prefix ''dl_dst='' tok
      then (case parse_mac (drop 7 tok) of None \<Rightarrow> None | Some m \<Rightarrow> Some (f\<lparr>pf_dl_dst := Some m\<rparr>))
      else if tok = ''ip'' then Some (f\<lparr>pf_ip := True\<rparr>)
      else if prefix ''actions=output:'' tok then Some (f\<lparr>pf_output := Some (word_of_int (c_atoi (drop 15 tok)))\<rparr>)
      else if tok = ''actions=normal'' then Some (f\<lparr>pf_output := Some OFPP_NORMAL\<rparr>)
      else Some f)"

fun parse_tokens :: "string list \<Rightarrow> parsed_flow \<Rightarrow> parsed_flow option" where
  "parse_tokens [] f = Some f"
| "parse_tokens (tok # toks) f = (case parse_token tok f of None \<Rightarrow> None | Some f' \<Rightarrow> parse_tokens toks f')"

text \<open>\<open>strtok_r\<close> skips empty tokens.\<close>

definition parse_flow_string :: "string \<Rightarrow> parsed_flow option" where
  "parse_flow_string flow =
     (if length flow \<ge> 512 then None
      else parse_tokens (filter (\<lambda>t. t \<noteq> []) (py_split (CHR '','') flow)) empty_flow)"

subsection \<open>Messages\<close>

definition pad8 :: "nat \<Rightarrow> nat" where
  "pad8 len = (len + 7) div 8 * 8"

definition oxm_header :: "u32 \<Rightarrow> u32 \<Rightarrow> bytes" where
  "oxm_header field len = put_u32 (push_bit 16 0x8000 OR push_bit 9 field OR len)"

definition build_match :: "parsed_flow \<Rightarrow> bytes" where
  "build_match f =
     (let oxms =
            (case pf_in_port f of None \<Rightarrow> [] | Some p \<Rightarrow> oxm_header 0 4 @ put_u32 p) @
            (case pf_dl_dst f of None \<Rightarrow> [] | Some m \<Rightarrow> oxm_header 3 6 @ m) @
            (if pf_ip f then oxm_header 5 2 @ put_u16 0x0800 else []);
          match_len = 4 + length oxms
      in put_u16 1 @ put_u16 (of_nat match_len) @ oxms @ replicate (pad8 match_len - match_len) 0)"

definition build_actions :: "parsed_flow \<Rightarrow> bytes" where
  "build_actions f =
     (case pf_output f of
        None \<Rightarrow> []
      | Some port \<Rightarrow>
          let action = put_u16 0 @ put_u16 16 @ put_u32 port @ put_u16 0xffff @ replicate 6 0
          in put_u16 4 @ put_u16 (of_nat (8 + length action)) @ replicate 4 0 @ action)"

definition OFPFC_ADD :: u8 where "OFPFC_ADD = 0"
definition OFPFC_DELETE :: u8 where "OFPFC_DELETE = 3"

definition build_flow_mod :: "u32 \<Rightarrow> u8 \<Rightarrow> parsed_flow \<Rightarrow> bytes" where
  "build_flow_mod xid command f =
     (let body = put_u32 xid @ put_u64 0 @ put_u64 0 @ put_u8 0 @ put_u8 command @ put_u16 0 @ put_u16 0 @
            put_u16 (case pf_priority f of Some p \<Rightarrow> p | None \<Rightarrow> 0) @
            put_u32 0xffffffff @ put_u32 0xffffffff @ put_u32 0xffffffff @ put_u16 0 @ replicate 2 0 @
            build_match f @ (if command = OFPFC_ADD then build_actions f else [])
      in put_u8 4 @ put_u8 14 @ put_u16 (of_nat (4 + length body)) @ body)"

definition build_hello :: "u32 \<Rightarrow> bytes" where
  "build_hello xid = put_u8 4 @ put_u8 0 @ put_u16 8 @ put_u32 xid"

definition build_echo_reply :: "u32 \<Rightarrow> bytes" where
  "build_echo_reply xid = put_u8 4 @ put_u8 3 @ put_u16 8 @ put_u32 xid"

definition daim_ovs_wire_flow_mod_size :: "string \<Rightarrow> bool \<Rightarrow> nat" where
  "daim_ovs_wire_flow_mod_size flow is_delete =
     (case parse_flow_string flow of
        None \<Rightarrow> 0
      | Some f \<Rightarrow> length (build_flow_mod 0 (if is_delete then OFPFC_DELETE else OFPFC_ADD) f))"

subsection \<open>The adapter\<close>

text \<open>
  The connection: the messages handed to \<open>send\<close>, the next transaction id, and the counters.
  \<open>transmit\<close> says how many bytes of a message \<open>send\<close> takes after the earlier ones.
\<close>

record persistent_stats =
  flow_mods_sent :: u64
  pa_bytes_sent :: u64
  echo_replies_sent :: u64

record persistent_context =
  pc_next_xid :: u32
  pc_sent :: "bytes list"
  pc_stats :: persistent_stats

type_synonym transmit = "bytes list \<Rightarrow> bytes \<Rightarrow> int"

definition new_context :: persistent_context where
  "new_context = \<lparr>pc_next_xid = 100, pc_sent = [],
     pc_stats = \<lparr>flow_mods_sent = 0, pa_bytes_sent = 0, echo_replies_sent = 0\<rparr>\<rparr>"

definition send_message :: "transmit \<Rightarrow> bytes \<Rightarrow> persistent_context \<Rightarrow> bool \<times> persistent_context" where
  "send_message tx msg c = (tx (pc_sent c) msg = int (length msg), c\<lparr>pc_sent := pc_sent c @ [msg]\<rparr>)"

definition persistent_flow :: "transmit \<Rightarrow> u8 \<Rightarrow> string \<Rightarrow> persistent_context \<Rightarrow> int \<times> persistent_context" where
  "persistent_flow tx command flow c =
     (case parse_flow_string flow of
        None \<Rightarrow> (- 1, c)
      | Some f \<Rightarrow>
          let msg = build_flow_mod (pc_next_xid c) command f
          in case send_message tx msg (c\<lparr>pc_next_xid := pc_next_xid c + 1\<rparr>) of
               (ok, c') \<Rightarrow>
                 if ok then (0, c'\<lparr>pc_stats := (pc_stats c')
                    \<lparr>flow_mods_sent := flow_mods_sent (pc_stats c') + 1,
                     pa_bytes_sent := pa_bytes_sent (pc_stats c') + of_nat (length msg)\<rparr>\<rparr>)
                 else (- 1, c'))"

definition persistent_flow_add :: "transmit \<Rightarrow> string \<Rightarrow> persistent_context \<Rightarrow> int \<times> persistent_context" where
  "persistent_flow_add tx flow c = persistent_flow tx OFPFC_ADD flow c"

definition persistent_flow_delete :: "transmit \<Rightarrow> string \<Rightarrow> persistent_context \<Rightarrow> int \<times> persistent_context" where
  "persistent_flow_delete tx flow c = persistent_flow tx OFPFC_DELETE flow c"

text \<open>
  The reader thread on the bytes that arrive until the connection ends. A body longer than the
  buffer is read only as far as the buffer goes.
\<close>

function reader_loop :: "transmit \<Rightarrow> bytes \<Rightarrow> persistent_context \<Rightarrow> persistent_context" where
  "reader_loop tx stream c =
     (if length stream < 8 then c
      else
        let len = unat (fst (get_u16 stream 2));
            xid = fst (get_u32 stream 4);
            remaining = min (len - 8) 2048;
            rest = drop 8 stream
        in if remaining > 0 \<and> rest = [] then c
           else
             let c' = (if stream ! 1 = 2
                       then (case send_message tx (build_echo_reply xid) c of
                               (ok, c1) \<Rightarrow> if ok then c1\<lparr>pc_stats := (pc_stats c1)
                                   \<lparr>echo_replies_sent := echo_replies_sent (pc_stats c1) + 1\<rparr>\<rparr> else c1)
                       else c)
             in reader_loop tx (drop remaining rest) c')"
  by pat_completeness auto
termination
  by (relation "measure (\<lambda>(tx, stream, c). length stream)") auto

declare reader_loop.simps [simp del]

subsection \<open>Flow strings of the learning applications\<close>

lemma c_atoi_nat_str: "n < 2 ^ 31 \<Longrightarrow> c_atoi (nat_str 10 n) = int n"
proof -
  assume n: "n < 2 ^ 31"
  have digits: "is_digit c" if "c \<in> set (nat_str 10 n)" for c
    using digit_run [of n "[]"] that by (metis append.right_neutral set_takeWhileD takeWhile.simps(1))
  have "is_digit (hd (nat_str 10 n))" by (rule digits [OF hd_in_set [OF nat_str_nonempty]])
  then have "\<not> c_isspace (hd (nat_str 10 n))" "hd (nat_str 10 n) \<noteq> CHR ''-''" "hd (nat_str 10 n) \<noteq> CHR ''+''"
    by (auto simp: is_digit_def c_isspace_def)
  then have head: "dropWhile c_isspace (nat_str 10 n) = nat_str 10 n" "take 1 (nat_str 10 n) \<noteq> ''-''" "take 1 (nat_str 10 n) \<noteq> ''+''"
    by (cases "nat_str 10 n"; simp)+
  have tw: "takeWhile is_digit (nat_str 10 n) = nat_str 10 n"
    using digit_run [of n "[]"] by simp
  have "sint (word_of_int (int n) :: 32 word) = int n"
    using n by (simp add: signed_of_nat signed_take_bit_int_eq_self)
  then show ?thesis
    using n head unfolding c_atoi_def Let_def by (simp add: tw digits_nat_str min_def)
qed

lemma hex_pad_two: "n < 256 \<Longrightarrow> hex_pad 2 n = [digit_char (n div 16), digit_char (n mod 16)]"
  by (cases "n < 16"; subst hex_pad_def, subst nat_str_def, subst digits_of.simps)
    (auto simp: Let_def digit_char_table digits_of.simps nat_str_def)

lemma hex_char:
  assumes "d < 16"
  shows "\<not> c_isspace (digit_char d)" "digit_char d \<noteq> CHR ''-''" "digit_char d \<noteq> CHR ''+''"
    "digit_char d \<noteq> CHR ''x''" "digit_char d \<noteq> CHR ''X''" "hex_digit (digit_char d) = Some d"
proof -
  have code: "(48 \<le> (of_char (digit_char d) :: nat) \<and> (of_char (digit_char d) :: nat) \<le> 57) \<or>
      (97 \<le> (of_char (digit_char d) :: nat) \<and> (of_char (digit_char d) :: nat) \<le> 122)"
    by (rule digit_char_range) (use assms in simp)
  then show "\<not> c_isspace (digit_char d)" "digit_char d \<noteq> CHR ''-''" "digit_char d \<noteq> CHR ''+''" "digit_char d \<noteq> CHR ''X''"
    by (auto simp: c_isspace_def)
  show "digit_char d \<noteq> CHR ''x''"
  proof
    assume "digit_char d = CHR ''x''"
    then have "char_digit (CHR ''x'') = Some d" using char_digit_digit_char [of d] assms by simp
    with assms show False by (simp add: char_digit_def Let_def)
  qed
  show "hex_digit (digit_char d) = Some d" using assms by (simp add: hex_digit_def)
qed

lemma scan_hex2_pad: "scan_hex2 (hex_pad 2 (unat b) @ r) = Some (ucast b, r)" for b :: u8
proof -
  let ?x = "unat b div 16" and ?y = "unat b mod 16"
  have b: "unat b < 256" using unsigned_less [of b, where ?'a = nat] by simp
  then have x: "?x < 16" and y: "?y < 16" by auto
  have "scan_hex2 (hex_pad 2 (unat b) @ r) = Some (of_nat (16 * ?x + ?y), r)"
    unfolding scan_hex2_def hex_pad_two [OF b] using hex_char [OF x] hex_char [OF y] by simp
  moreover have "(of_nat (16 * ?x + ?y) :: u32) = ucast b" by (simp add: of_nat_unat)
  ultimately show ?thesis by simp
qed

lemma ucast_byte_back [simp]: "ucast (ucast b :: u32) = b" for b :: u8
  by (rule bit_word_eqI) (simp add: bit_simps)

lemma scan_mac_text:
  "bs \<noteq> [] \<Longrightarrow> scan_mac (length bs) (py_join (CHR '':'') (map (\<lambda>b. hex_pad 2 (unat b)) bs)) = Some bs"
proof (induction bs rule: induct_list012)
  case (2 b)
  then show ?case using scan_hex2_pad [of b "[]"] by simp
next
  case (3 b c bs)
  then show ?case using scan_hex2_pad [of b] by simp
qed simp

lemma parse_format_mac: "length m = MAC_ADDR_LEN \<Longrightarrow> parse_mac (format_mac m) = Some m"
  using scan_mac_text [of m] by (cases m) (auto simp: parse_mac_def format_mac_def MAC_ADDR_LEN_def)

lemma format_mac_no_comma: "CHR '','' \<notin> set (format_mac m)"
  using hex_pad_chars [of _ 2] by (fastforce simp: format_mac_def dest: py_join_chars)

definition decision_flow :: "u16 \<Rightarrow> bytes \<Rightarrow> u16 \<Rightarrow> parsed_flow" where
  "decision_flow in_port m out_port =
     \<lparr>pf_priority = Some 100, pf_in_port = Some (ucast in_port), pf_dl_dst = Some m, pf_ip = False,
      pf_output = Some (ucast out_port)\<rparr>"

lemma port_number: "word_of_int (c_atoi (nat_str 10 (unat p))) = (ucast p :: u32)" for p :: u16
proof -
  have "unat p < 2 ^ 31" using unsigned_less [of p, where ?'a = nat] by simp
  then show ?thesis by (simp add: c_atoi_nat_str)
qed

lemma decision_tokens:
  assumes "length m = MAC_ADDR_LEN"
  shows "py_split (CHR '','') (flow_string in_port m out_port) =
    [''priority=100'', ''in_port='' @ nat_str 10 (unat in_port), ''dl_dst='' @ format_mac m,
     ''actions=output:'' @ nat_str 10 (unat out_port)]"
proof -
  let ?ts = "[''priority=100'', ''in_port='' @ nat_str 10 (unat in_port), ''dl_dst='' @ format_mac m,
     ''actions=output:'' @ nat_str 10 (unat out_port)]"
  have join: "flow_string in_port m out_port = py_join (CHR '','') ?ts" by (simp add: flow_string_def)
  have "CHR '','' \<notin> set t" if "t \<in> set ?ts" for t
    using that nat_str_not_special(3) [of 10] format_mac_no_comma by auto
  then show ?thesis unfolding join by (intro py_split_join) simp_all
qed

lemma parse_decision:
  assumes "length m = MAC_ADDR_LEN"
  shows "parse_flow_string (flow_string in_port m out_port) = Some (decision_flow in_port m out_port)"
proof -
  have "length (flow_string in_port m out_port) \<le> 511" using flow_string_valid [OF assms] by (simp add: valid_token_def)
  moreover have "word_of_int (c_atoi ''100'') = (100 :: u16)"
    using c_atoi_nat_str [of 100] by (simp add: nat_str_def digits_of.simps digit_char_table)
  ultimately show ?thesis
    by (simp add: parse_flow_string_def decision_tokens [OF assms] parse_token_def empty_flow_def port_number
        parse_format_mac [OF assms] decision_flow_def)
qed

lemma length_oxm [simp]: "length (oxm_header f l) = 4"
  by (simp add: oxm_header_def)

lemma length_decision_match: "length m = 6 \<Longrightarrow> length (build_match (decision_flow in_port m out_port)) = 24"
  by (simp add: build_match_def decision_flow_def Let_def pad8_def)

lemma length_decision_mod:
  "length m = 6 \<Longrightarrow> length (build_flow_mod xid OFPFC_ADD (decision_flow in_port m out_port)) = 96"
  by (simp add: build_flow_mod_def length_decision_match)
    (simp add: build_actions_def decision_flow_def)

text \<open>
  The message a decision calls for, byte by byte as OpenFlow 1.3 lays it out: the header, no cookie, table 0 and the command
  to add, no time-outs, priority 100, no buffer and no filter on ports and groups, a match of 22 bytes on the
  port and the Ethernet destination, padded, and the instruction to apply one action, which outputs to the port without limit.
\<close>

definition decision_message :: "u32 \<Rightarrow> u16 \<Rightarrow> bytes \<Rightarrow> u16 \<Rightarrow> bytes" where
  "decision_message xid in_port m out_port =
     [4, 14, 0, 96] @ put_u32 xid @
     [0, 0, 0, 0, 0, 0, 0, 0] @ [0, 0, 0, 0, 0, 0, 0, 0] @
     [0, 0, 0, 0, 0, 0, 0, 100] @
     [0xff, 0xff, 0xff, 0xff, 0xff, 0xff, 0xff, 0xff, 0xff, 0xff, 0xff, 0xff] @
     [0, 0, 0, 0] @
     [0, 1, 0, 22] @ [0x80, 0, 0, 4, 0, 0] @ put_u16 in_port @ [0x80, 0, 6, 6] @ m @ [0, 0] @
     [0, 4, 0, 24, 0, 0, 0, 0] @ [0, 0, 0, 16, 0, 0] @ put_u16 out_port @ [0xff, 0xff, 0, 0, 0, 0, 0, 0]"

lemma put_port: "put_u32 (ucast p) = 0 # 0 # put_u16 p" for p :: u16
proof -
  have "drop_bit 24 (ucast p :: u32) = 0" "drop_bit 16 (ucast p :: u32) = 0"
    by (rule bit_word_eqI; auto simp: bit_simps dest: bit_imp_le_length)+
  moreover have "(ucast (drop_bit 8 (ucast p :: u32)) :: u8) = ucast (drop_bit 8 p)"
    "(ucast ((ucast p :: u32) AND 0xff) :: u8) = ucast (p AND 0xff)"
    by (rule bit_word_eqI; auto simp: bit_simps)+
  ultimately show ?thesis by (simp add: put_u32_def put_u16_def)
qed

lemma decision_match_bytes:
  "length m = 6 \<Longrightarrow> build_match (decision_flow in_port m out_port) =
     [0, 1, 0, 22] @ [0x80, 0, 0, 4, 0, 0] @ put_u16 in_port @ [0x80, 0, 6, 6] @ m @ [0, 0]"
proof -
  have "oxm_header 0 4 = [0x80, 0, 0, 4]" "oxm_header 3 6 = [0x80, 0, 6, 6]" "put_u16 1 = [0, 1]" "put_u16 22 = [0, 22]"
    by code_simp+
  moreover assume "length m = 6"
  ultimately show ?thesis by (simp add: build_match_def decision_flow_def Let_def pad8_def put_port numeral_2_eq_2)
qed

lemma decision_action_bytes:
  "build_actions (decision_flow in_port m out_port) =
     [0, 4, 0, 24, 0, 0, 0, 0] @ [0, 0, 0, 16, 0, 0] @ put_u16 out_port @ [0xff, 0xff, 0, 0, 0, 0, 0, 0]"
proof -
  have "put_u16 0 = [0, 0]" "put_u16 4 = [0, 4]" "put_u16 16 = [0, 16]" "put_u16 24 = [0, 24]" "put_u16 0xffff = [0xff, 0xff]"
    by code_simp+
  then show ?thesis by (simp add: build_actions_def decision_flow_def put_port numeral_eq_Suc)
qed

lemma decision_mod_bytes:
  assumes "length m = 6"
  shows "build_flow_mod xid OFPFC_ADD (decision_flow in_port m out_port) = decision_message xid in_port m out_port"
proof -
  have "put_u64 0 = [0, 0, 0, 0, 0, 0, 0, 0]" "put_u16 0 = [0, 0]" "put_u16 100 = [0, 100]" "put_u16 96 = [0, 96]"
    "put_u32 0xffffffff = [0xff, 0xff, 0xff, 0xff]" "pf_priority (decision_flow in_port m out_port) = Some 100"
    by (code_simp | simp add: decision_flow_def)+
  then show ?thesis using assms
    by (simp add: build_flow_mod_def decision_match_bytes decision_action_bytes decision_message_def put_u8_def OFPFC_ADD_def numeral_2_eq_2)
qed

lemma length_decision_message: "length m = 6 \<Longrightarrow> length (decision_message xid in_port m out_port) = 96"
  by (simp add: decision_message_def)

text \<open>
  Property C28 (flow-mods of decisions). The flow string that a learning application writes for a decision
  is parsed back to the decision, and an add that the connection takes sends one message, which is byte by byte the OpenFlow
  1.3 flow-mod of the decision with the next transaction id: 96 bytes long, whatever the ports and the address
  are, with the match on exactly the decision's port and address, and the output to its port. The counters
  of messages and bytes go up by this message, and the size function says its length.
\<close>

theorem decision_on_the_wire:
  assumes "length m = MAC_ADDR_LEN"
    and "tx (pc_sent c) (decision_message (pc_next_xid c) in_port m out_port) = 96"
  shows "parse_flow_string (flow_string in_port m out_port) = Some (decision_flow in_port m out_port) \<and>
    daim_ovs_wire_flow_mod_size (flow_string in_port m out_port) False = 96 \<and>
    length (decision_message (pc_next_xid c) in_port m out_port) = 96 \<and>
    persistent_flow_add tx (flow_string in_port m out_port) c =
      (0, c\<lparr>pc_next_xid := pc_next_xid c + 1,
            pc_sent := pc_sent c @ [decision_message (pc_next_xid c) in_port m out_port],
            pc_stats := (pc_stats c)\<lparr>flow_mods_sent := flow_mods_sent (pc_stats c) + 1,
              pa_bytes_sent := pa_bytes_sent (pc_stats c) + 96\<rparr>\<rparr>)"
proof -
  have m: "length m = 6" using assms(1) by (simp add: MAC_ADDR_LEN_def)
  show ?thesis
    using assms(2)
    by (simp add: daim_ovs_wire_flow_mod_size_def persistent_flow_add_def persistent_flow_def parse_decision [OF assms(1)]
        send_message_def decision_mod_bytes [OF m] length_decision_message [OF m])
qed

theorem decision_on_the_wire_witness:
  "pc_sent (snd (persistent_flow_add (\<lambda>_ msg. int (length msg)) (flow_string 2 [2, 0, 0, 0, 9, 9] 7) new_context)) =
     [[4, 14, 0, 96, 0, 0, 0, 100, 0, 0, 0, 0, 0, 0, 0, 0, 0, 0, 0, 0, 0, 0, 0, 0, 0, 0, 0, 0, 0, 0, 0, 100,
       255, 255, 255, 255, 255, 255, 255, 255, 255, 255, 255, 255, 0, 0, 0, 0,
       0, 1, 0, 22, 128, 0, 0, 4, 0, 0, 0, 2, 128, 0, 6, 6, 2, 0, 0, 0, 9, 9, 0, 0,
       0, 4, 0, 24, 0, 0, 0, 0, 0, 0, 0, 16, 0, 0, 0, 7, 255, 255, 0, 0, 0, 0, 0, 0]]"
proof -
  have "put_u32 100 = [0, 0, 0, 100]" "put_u16 2 = [0, 2]" "put_u16 7 = [0, 7]" by code_simp+
  moreover have "pc_sent new_context = []" "pc_next_xid new_context = 100" by (simp_all add: new_context_def)
  ultimately show ?thesis
    using decision_on_the_wire [of "[2, 0, 0, 0, 9, 9]" "\<lambda>_ msg. int (length msg)" new_context 2 7]
    by (simp add: MAC_ADDR_LEN_def decision_message_def)
qed

subsection \<open>Echo requests\<close>

definition echo_request :: "u32 \<Rightarrow> bytes" where
  "echo_request xid = put_u8 4 @ put_u8 2 @ put_u16 8 @ put_u32 xid"

lemma length_echo_request [simp]: "length (echo_request xid) = 8"
  by (simp add: echo_request_def)

lemma reader_echo:
  "reader_loop tx (echo_request xid @ stream) c =
     reader_loop tx stream
       (case send_message tx (build_echo_reply xid) c of
          (ok, c1) \<Rightarrow> if ok then c1\<lparr>pc_stats := (pc_stats c1)\<lparr>echo_replies_sent := echo_replies_sent (pc_stats c1) + 1\<rparr>\<rparr> else c1)"
proof -
  let ?s = "echo_request xid @ stream"
  have "get_u16 ([4, 2] @ put_u16 8 @ (put_u32 xid @ stream)) 2 = (8, 2 + 2)"
    by (rule u16_field.get_at) simp
  moreover have "get_u32 (([4, 2] @ put_u16 8) @ put_u32 xid @ stream) 4 = (xid, 4 + 4)"
    by (rule u32_field.get_at) simp
  ultimately have g: "get_u16 ?s 2 = (8, 4)" "get_u32 ?s 4 = (xid, 8)" "?s ! 1 = 2" "drop 8 ?s = stream" "\<not> length ?s < 8"
    by (simp_all add: echo_request_def put_u8_def)
  show ?thesis
    by (subst reader_loop.simps) (simp add: g Let_def del: One_nat_def)
qed

lemma echo_replies:
  assumes "\<forall>sent msg. tx sent msg = int (length msg)"
  shows "pc_sent (reader_loop tx (concat (map echo_request xids)) c) = pc_sent c @ map build_echo_reply xids \<and>
    echo_replies_sent (pc_stats (reader_loop tx (concat (map echo_request xids)) c)) =
      echo_replies_sent (pc_stats c) + of_nat (length xids)"
proof (induction xids arbitrary: c)
  case Nil
  show ?case by (simp add: reader_loop.simps)
next
  case (Cons x xids)
  then show ?case using assms by (simp add: reader_echo send_message_def)
qed

text \<open>
  The byte counter of the adapter is not what it sends: the replies to echo requests
  are sent and counted as messages, but whatever arrives, the byte counter stays as it is.
\<close>

theorem echo_bytes_not_counted:
  assumes "\<forall>sent msg. tx sent msg = int (length msg)"
  shows "pc_sent (reader_loop tx (concat (map echo_request xids)) c) = pc_sent c @ map build_echo_reply xids \<and>
    echo_replies_sent (pc_stats (reader_loop tx (concat (map echo_request xids)) c)) =
      echo_replies_sent (pc_stats c) + of_nat (length xids) \<and>
    pa_bytes_sent (pc_stats (reader_loop tx stream c)) = pa_bytes_sent (pc_stats c)"
proof -
  have "pa_bytes_sent (pc_stats (reader_loop tx stream c)) = pa_bytes_sent (pc_stats c)"
  proof (induction tx stream c rule: reader_loop.induct)
    case (1 tx stream c)
    then show ?case by (subst reader_loop.simps) (auto simp: Let_def send_message_def)
  qed
  then show ?thesis using echo_replies [OF assms, of xids c] by blast
qed

theorem echo_bytes_not_counted_witness:
  "pc_sent (reader_loop (\<lambda>_ msg. int (length msg)) (echo_request 5 @ echo_request 6) new_context) = [build_echo_reply 5, build_echo_reply 6] \<and>
   pa_bytes_sent (pc_stats (reader_loop (\<lambda>_ msg. int (length msg)) (echo_request 5 @ echo_request 6) new_context)) = 0"
  using echo_bytes_not_counted [of "\<lambda>_ msg. int (length msg)" "[5, 6]" new_context "echo_request 5 @ echo_request 6"]
  by (simp add: new_context_def)

end
