(* ===== verification/Single_App.thy ===== *)
theory Single_App
  imports OpenFlow_Adapter
begin

text \<open>
  The learning application of the single-controller experiments
  (\<open>implementation/src/daim_learning_app.c\<close>): it learns the port of every source address per bridge and
  installs a flow towards each learned destination, through one of two switch adapters. The row it writes,
  the address text and the flow string are those of the distributed application, which repeats
  the code. The readings of \<open>monotonic_ns()\<close> are a parameter, one per reading.
\<close>

subsection \<open>State\<close>

definition MAX_ENTRIES :: nat where "MAX_ENTRIES = 4096"

record mac_entry =
  me_bridge :: string
  me_mac :: bytes
  me_port :: u16

record learning_app_timing =
  entry_ns :: u64
  decision_done_ns :: u64
  table_write_done_ns :: u64
  install_done_ns :: u64
  exit_ns :: u64
  lt_installed :: int

definition zero_timing :: learning_app_timing where
  "zero_timing = \<lparr>entry_ns = 0, decision_done_ns = 0, table_write_done_ns = 0, install_done_ns = 0,
     exit_ns = 0, lt_installed = 0\<rparr>"

text \<open>The bound adapter: none, a command per rule, or the persistent connection.\<close>

datatype switch_adapter = NoAdapter | ProcessPerRule | Persistent

record single_app =
  sa_ready :: bool
  sa_adapter :: switch_adapter
  sa_table :: "mac_entry list"
  sa_bridge :: string
  sa_decided :: u16
  sa_no_rule_events :: u64
  sa_flows_installed :: u64
  sa_timing :: learning_app_timing

text \<open>
  The process: the application, DAIM Core, the command lines handed to the executor, the persistent
  connection, and the number of clock readings.
\<close>

datatype single_handler = single_on_no_rule

record single_process =
  sp_app :: single_app
  sp_core :: "single_handler core_state"
  sp_commands :: "string list list"
  sp_context :: persistent_context
  sp_ticks :: nat

record single_env =
  se_exec :: executor
  se_transmit :: transmit
  se_clock :: "nat \<Rightarrow> u64"

definition single_app0 :: single_app where
  "single_app0 = \<lparr>sa_ready = False, sa_adapter = NoAdapter, sa_table = [], sa_bridge = [], sa_decided = 0,
     sa_no_rule_events = 0, sa_flows_installed = 0, sa_timing = zero_timing\<rparr>"

definition single_process0 :: single_process where
  "single_process0 = \<lparr>sp_app = single_app0, sp_core = core_state0, sp_commands = [], sp_context = new_context, sp_ticks = 0\<rparr>"

definition upd_app :: "(single_app \<Rightarrow> single_app) \<Rightarrow> single_process \<Rightarrow> single_process" where
  "upd_app f p = p\<lparr>sp_app := f (sp_app p)\<rparr>"

text \<open>A reading of the clock, stored into a field of the timing record.\<close>

definition stamp :: "single_env \<Rightarrow> (u64 \<Rightarrow> learning_app_timing \<Rightarrow> learning_app_timing) \<Rightarrow> single_process \<Rightarrow> single_process" where
  "stamp E f p = (upd_app (\<lambda>a. a\<lparr>sa_timing := f (se_clock E (sp_ticks p)) (sa_timing a)\<rparr>) p)\<lparr>sp_ticks := sp_ticks p + 1\<rparr>"

subsection \<open>The learned table\<close>

definition entry_is :: "string \<Rightarrow> bytes \<Rightarrow> mac_entry \<Rightarrow> bool" where
  "entry_is bridge m e \<longleftrightarrow> me_bridge e = bridge \<and> mac_eq (me_mac e) m"

fun lookup_port :: "mac_entry list \<Rightarrow> string \<Rightarrow> bytes \<Rightarrow> u16" where
  "lookup_port [] bridge m = PORT_FLOOD"
| "lookup_port (e # es) bridge m = (if entry_is bridge m e then me_port e else lookup_port es bridge m)"

text \<open>The first matching entry is changed; \<open>None\<close> when there is none.\<close>

fun relearn :: "mac_entry list \<Rightarrow> string \<Rightarrow> bytes \<Rightarrow> u16 \<Rightarrow> mac_entry list option" where
  "relearn [] bridge m port = None"
| "relearn (e # es) bridge m port =
     (if entry_is bridge m e then Some (e\<lparr>me_port := port\<rparr> # es) else map_option ((#) e) (relearn es bridge m port))"

definition learn :: "string \<Rightarrow> bytes \<Rightarrow> u16 \<Rightarrow> mac_entry list \<Rightarrow> mac_entry list" where
  "learn bridge m port t =
     (case relearn t bridge m port of
        Some t' \<Rightarrow> t'
      | None \<Rightarrow>
          if length t \<ge> MAX_ENTRIES then t
          else t @ [\<lparr>me_bridge = take (MAX_BRIDGE_LEN - 1) bridge, me_mac = take MAC_ADDR_LEN m, me_port = port\<rparr>])"

subsection \<open>Flow installation\<close>

definition adapter_flow_add :: "single_env \<Rightarrow> string \<Rightarrow> string \<Rightarrow> single_process \<Rightarrow> int \<times> single_process" where
  "adapter_flow_add E bridge flow p =
     (case sa_adapter (sp_app p) of
        NoAdapter \<Rightarrow> (- 1, p)
      | ProcessPerRule \<Rightarrow>
          if \<not> valid_token bridge 63 \<or> \<not> valid_token flow 511 then (- 1, p)
          else let argv = ovs_argv ''add-flow'' bridge flow
               in (se_exec E (sp_commands p) argv, p\<lparr>sp_commands := sp_commands p @ [argv]\<rparr>)
      | Persistent \<Rightarrow>
          (case persistent_flow_add (se_transmit E) flow (sp_context p) of (rc, c) \<Rightarrow> (rc, p\<lparr>sp_context := c\<rparr>)))"

definition single_install_flow :: "single_env \<Rightarrow> string \<Rightarrow> u16 \<Rightarrow> bytes \<Rightarrow> u16 \<Rightarrow> single_process \<Rightarrow> single_process" where
  "single_install_flow E bridge in_port mac_dst out_port p =
     (if sa_adapter (sp_app p) = NoAdapter then p
      else case adapter_flow_add E bridge (flow_string in_port mac_dst out_port) p of
        (rc, p') \<Rightarrow> if rc = 0 then upd_app (\<lambda>a. a\<lparr>sa_flows_installed := sa_flows_installed a + 1\<rparr>) p' else p')"

subsection \<open>The handler and the interface\<close>

definition single_no_rule :: "single_env \<Rightarrow> no_rule_packet_info \<Rightarrow> single_process \<Rightarrow> single_process" where
  "single_no_rule E info p =
     (let p1 = upd_app (\<lambda>a. a\<lparr>sa_no_rule_events := sa_no_rule_events a + 1,
                              sa_table := learn (sa_bridge a) (info_mac_src info) (info_in_port info) (sa_table a)\<rparr>) p;
          out_port = lookup_port (sa_table (sp_app p1)) (sa_bridge (sp_app p1)) (info_mac_dst info);
          p2 = stamp E (\<lambda>t x. x\<lparr>decision_done_ns := t\<rparr>) p1;
          p3 = p2\<lparr>sp_core := snd (daim_table_write DAIM_PACKET_FORWARDING_TABLE
                     (Some (forwarding_row info out_port)) ADD (sp_core p2))\<rparr>;
          p4 = stamp E (\<lambda>t x. x\<lparr>table_write_done_ns := t, lt_installed := 0\<rparr>) p3;
          p5 = (if out_port \<noteq> PORT_FLOOD
                then upd_app (\<lambda>a. a\<lparr>sa_timing := (sa_timing a)\<lparr>lt_installed := 1\<rparr>\<rparr>)
                       (single_install_flow E (sa_bridge (sp_app p4)) (info_in_port info) (info_mac_dst info) out_port p4)
                else p4);
          p6 = stamp E (\<lambda>t x. x\<lparr>install_done_ns := t\<rparr>) p5
      in upd_app (\<lambda>a. a\<lparr>sa_decided := out_port\<rparr>) p6)"

text \<open>\<open>mutex_ok\<close>: the mutex of the first initialisation can be had.\<close>

definition daim_learning_app_init :: "bool \<Rightarrow> switch_adapter \<Rightarrow> single_process \<Rightarrow> int \<times> single_process" where
  "daim_learning_app_init mutex_ok adapter p =
     (if \<not> sa_ready (sp_app p) \<and> \<not> mutex_ok then (- 1, p)
      else (0, (upd_app (\<lambda>a. a\<lparr>sa_ready := True, sa_adapter := adapter, sa_table := [], sa_no_rule_events := 0,
                  sa_flows_installed := 0, sa_bridge := [], sa_timing := zero_timing\<rparr>) p)
                 \<lparr>sp_core := daim_signal NO_RULE single_on_no_rule (sp_core p)\<rparr>))"

definition daim_learning_app_packet_in ::
    "single_env \<Rightarrow> string \<Rightarrow> no_rule_packet_info \<Rightarrow> single_process \<Rightarrow> u16 \<times> single_process" where
  "daim_learning_app_packet_in E bridge info p =
     (if \<not> sa_ready (sp_app p) then (PORT_NONE, p)
      else
        let p1 = upd_app (\<lambda>a. a\<lparr>sa_bridge := take (MAX_BRIDGE_LEN - 1) bridge\<rparr>) (stamp E (\<lambda>t x. x\<lparr>entry_ns := t\<rparr>) p);
            p2 = (case daim_core_emit NO_RULE (sp_core p1) of
                    None \<Rightarrow> p1
                  | Some single_on_no_rule \<Rightarrow> single_no_rule E info p1);
            p3 = stamp E (\<lambda>t x. x\<lparr>exit_ns := t\<rparr>) p2
        in (sa_decided (sp_app p2), p3))"

definition daim_learning_app_last_timing :: "single_process \<Rightarrow> learning_app_timing" where
  "daim_learning_app_last_timing p = (if \<not> sa_ready (sp_app p) then zero_timing else sa_timing (sp_app p))"

definition daim_learning_app_stats :: "single_process \<Rightarrow> u64 \<times> u64 \<times> nat" where
  "daim_learning_app_stats p =
     (if \<not> sa_ready (sp_app p) then (0, 0, 0)
      else (sa_no_rule_events (sp_app p), sa_flows_installed (sp_app p), length (sa_table (sp_app p))))"

definition daim_learning_app_reset :: "single_process \<Rightarrow> single_process" where
  "daim_learning_app_reset p =
     (if \<not> sa_ready (sp_app p) then p
      else upd_app (\<lambda>a. a\<lparr>sa_table := [], sa_no_rule_events := 0, sa_flows_installed := 0, sa_bridge := []\<rparr>) p)"

end
