(* ===== verification/Single_Laws.thy ===== *)
theory Single_Laws
  imports Single_App
begin

text \<open>
  What the single-controller application learns: after any run of packets the table answers with the
  input port of the last packet that came from an address on a bridge, and every decision for
  a known destination issues exactly one flow command.
\<close>

subsection \<open>Bounded stores with overwriting\<close>

text \<open>
  The contract of a store that overwrites: while there is room, a key finds what was last put under an equal key.
\<close>

locale port_store =
  fixes find :: "'s \<Rightarrow> 'k \<Rightarrow> 'v"
    and put :: "'k \<Rightarrow> 'v \<Rightarrow> 's \<Rightarrow> 's"
    and same :: "'k \<Rightarrow> 'k \<Rightarrow> bool"
    and used :: "'s \<Rightarrow> nat"
    and capacity :: nat
  assumes find_put: "used s < capacity \<Longrightarrow> find (put k v s) k' = (if same k k' then v else find s k')"
    and used_put: "used (put k v s) \<le> used s + 1"
begin

definition puts :: "('k \<times> 'v) list \<Rightarrow> 's \<Rightarrow> 's" where
  "puts ws s = fold (\<lambda>(k, v). put k v) ws s"

lemma puts_simps [simp]: "puts [] s = s" "puts ((k, v) # ws) s = puts ws (put k v s)"
  by (simp_all add: puts_def)

lemma find_puts:
  "used s + length ws \<le> capacity \<Longrightarrow>
   find (puts ws s) k = (case filter (\<lambda>(k', v). same k' k) ws of [] \<Rightarrow> find s k | m # ms \<Rightarrow> snd (last (m # ms)))"
proof (induction ws arbitrary: s)
  case (Cons w ws)
  obtain k1 v where w: "w = (k1, v)" by (cases w)
  have "used (put k1 v s) + length ws \<le> capacity" using Cons.prems used_put [of k1 v s] by simp
  from Cons.IH [OF this] show ?case
    using Cons.prems w find_put [of s k1 v k] by (auto split: list.splits)
qed simp

lemma used_puts: "used (puts ws s) \<le> used s + length ws"
proof (induction ws arbitrary: s)
  case (Cons w ws)
  then show ?case using used_put by (cases w) (fastforce intro: order_trans)
qed simp

end

subsection \<open>The learned table as such a store\<close>

definition same_key :: "string \<times> bytes \<Rightarrow> string \<times> bytes \<Rightarrow> bool" where
  "same_key k k' \<longleftrightarrow> take (MAX_BRIDGE_LEN - 1) (fst k) = take (MAX_BRIDGE_LEN - 1) (fst k') \<and> mac_eq (snd k) (snd k')"

definition find_key :: "mac_entry list \<Rightarrow> string \<times> bytes \<Rightarrow> u16" where
  "find_key t k = lookup_port t (take (MAX_BRIDGE_LEN - 1) (fst k)) (snd k)"

definition put_key :: "string \<times> bytes \<Rightarrow> u16 \<Rightarrow> mac_entry list \<Rightarrow> mac_entry list" where
  "put_key k port t = learn (take (MAX_BRIDGE_LEN - 1) (fst k)) (snd k) port t"

lemma entry_is_same: "entry_is b m e \<Longrightarrow> entry_is b' m' e \<longleftrightarrow> b = b' \<and> mac_eq m m'"
  by (auto simp: entry_is_def mac_eq_def)

lemma relearn_Some:
  "relearn t b m port = Some t' \<Longrightarrow>
   length t' = length t \<and> lookup_port t' b' m' = (if b = b' \<and> mac_eq m m' then port else lookup_port t b' m')"
proof (induction t arbitrary: t')
  case (Cons e t)
  show ?case
  proof (cases "entry_is b m e")
    case True
    with Cons.prems have t': "t' = e\<lparr>me_port := port\<rparr> # t" by simp
    have "entry_is b' m' (e\<lparr>me_port := port\<rparr>) = entry_is b' m' e" by (simp add: entry_is_def)
    with t' entry_is_same [OF True, of b' m'] show ?thesis by auto
  next
    case False
    with Cons.prems obtain t1 where t1: "relearn t b m port = Some t1" "t' = e # t1" by auto
    moreover have "\<not> entry_is b' m' e" if "b = b' \<and> mac_eq m m'"
      using False that by (auto simp: entry_is_def mac_eq_def)
    ultimately show ?thesis using Cons.IH [OF t1(1)] by auto
  qed
qed simp

lemma relearn_None: "relearn t b m port = None \<longleftrightarrow> (\<forall>e \<in> set t. \<not> entry_is b m e)"
  by (induction t) auto

lemma lookup_port_append:
  "lookup_port (t @ [e]) b m =
     (if \<exists>x \<in> set t. entry_is b m x then lookup_port t b m else if entry_is b m e then me_port e else PORT_FLOOD)"
  by (induction t) auto

lemma lookup_port_none: "\<forall>e \<in> set t. \<not> entry_is b m e \<Longrightarrow> lookup_port t b m = PORT_FLOOD"
  by (induction t) auto

lemma lookup_port_learn:
  assumes "length t < MAX_ENTRIES" and "length b \<le> MAX_BRIDGE_LEN - 1"
  shows "lookup_port (learn b m port t) b' m' = (if b = b' \<and> mac_eq m m' then port else lookup_port t b' m')"
proof (cases "relearn t b m port")
  case (Some t')
  then show ?thesis using relearn_Some [OF Some, of b' m'] by (simp add: learn_def)
next
  case None
  have e: "entry_is b' m' \<lparr>me_bridge = b, me_mac = take MAC_ADDR_LEN m, me_port = port\<rparr> \<longleftrightarrow> b = b' \<and> mac_eq m m'"
    by (auto simp: entry_is_def)
  have "\<not> entry_is b' m' x" if "x \<in> set t" "b = b' \<and> mac_eq m m'" for x
    using that None relearn_None [of t b m port] by (auto simp: entry_is_def mac_eq_def)
  then show ?thesis
    using None assms e lookup_port_none [of t b' m'] by (auto simp: learn_def lookup_port_append)
qed

lemma length_learn: "length (learn b m port t) \<le> length t + 1"
  using relearn_Some [of t b m port] by (auto simp: learn_def split: option.splits)

interpretation learned: port_store find_key put_key same_key length MAX_ENTRIES
proof (unfold_locales, goal_cases)
  case (1 s k v k')
  then show ?case using lookup_port_learn [OF 1, of "take (MAX_BRIDGE_LEN - 1) (fst k)"]
    by (simp add: find_key_def put_key_def same_key_def)
next
  case (2 k v s)
  show ?case unfolding put_key_def by (rule length_learn)
qed

subsection \<open>Packets\<close>

definition single_handles :: "single_process \<Rightarrow> bool" where
  "single_handles p \<longleftrightarrow> sa_ready (sp_app p) \<and> daim_core_emit NO_RULE (sp_core p) = Some single_on_no_rule"

lemma emit_after_write [simp]: "daim_core_emit sig (snd (daim_table_write t e op s)) = daim_core_emit sig s"
  by (auto simp: daim_core_emit_def daim_table_write_def set_store_def Let_def split: option.splits)

lemma single_frame [simp]:
  "sa_table (sp_app (stamp E f p)) = sa_table (sp_app p)" "sa_bridge (sp_app (stamp E f p)) = sa_bridge (sp_app p)"
  "sa_ready (sp_app (stamp E f p)) = sa_ready (sp_app p)" "sa_adapter (sp_app (stamp E f p)) = sa_adapter (sp_app p)"
  "sp_core (stamp E f p) = sp_core p" "sp_commands (stamp E f p) = sp_commands p" "sp_context (stamp E f p) = sp_context p"
  "sa_decided (sp_app (stamp E f p)) = sa_decided (sp_app p)"
  by (simp_all add: stamp_def upd_app_def)

lemma upd_app_simps [simp]:
  "sp_app (upd_app f p) = f (sp_app p)" "sp_core (upd_app f p) = sp_core p" "sp_commands (upd_app f p) = sp_commands p"
  "sp_context (upd_app f p) = sp_context p"
  by (simp_all add: upd_app_def)

lemma single_install_frame [simp]:
  "sa_table (sp_app (single_install_flow E b ip m op p)) = sa_table (sp_app p)"
  "sa_bridge (sp_app (single_install_flow E b ip m op p)) = sa_bridge (sp_app p)"
  "sa_ready (sp_app (single_install_flow E b ip m op p)) = sa_ready (sp_app p)"
  "sa_adapter (sp_app (single_install_flow E b ip m op p)) = sa_adapter (sp_app p)"
  "sp_core (single_install_flow E b ip m op p) = sp_core p"
  by (auto simp: single_install_flow_def adapter_flow_add_def Let_def split: prod.splits switch_adapter.splits)

lemma single_install_commands:
  "sa_adapter (sp_app p) = ProcessPerRule \<Longrightarrow> length m = MAC_ADDR_LEN \<Longrightarrow> valid_token b 63 \<Longrightarrow>
   sp_commands (single_install_flow E b ip m op p) = sp_commands p @ [ovs_argv ''add-flow'' b (flow_string ip m op)]"
  by (auto simp: single_install_flow_def adapter_flow_add_def Let_def flow_string_valid split: prod.splits)

text \<open>What one packet does: the decision, the table, and the command.\<close>

lemma single_packet:
  fixes bridge info
  assumes "single_handles p"
  defines "t \<equiv> put_key (bridge, info_mac_src info) (info_in_port info) (sa_table (sp_app p))"
  shows "fst (daim_learning_app_packet_in E bridge info p) = find_key t (bridge, info_mac_dst info)"
    and "sa_table (sp_app (snd (daim_learning_app_packet_in E bridge info p))) = t"
    and "single_handles (snd (daim_learning_app_packet_in E bridge info p))"
    and "sa_adapter (sp_app (snd (daim_learning_app_packet_in E bridge info p))) = sa_adapter (sp_app p)"
    and "sa_adapter (sp_app p) = ProcessPerRule \<Longrightarrow> length (info_mac_dst info) = MAC_ADDR_LEN \<Longrightarrow>
      valid_token (take (MAX_BRIDGE_LEN - 1) bridge) 63 \<Longrightarrow>
      sp_commands (snd (daim_learning_app_packet_in E bridge info p)) = sp_commands p @
        (if find_key t (bridge, info_mac_dst info) = PORT_FLOOD then []
         else [ovs_argv ''add-flow'' (take (MAX_BRIDGE_LEN - 1) bridge)
           (flow_string (info_in_port info) (info_mac_dst info) (find_key t (bridge, info_mac_dst info)))])"
  using assms(1)
  by (simp_all add: daim_learning_app_packet_in_def single_handles_def single_no_rule_def Let_def t_def
      find_key_def put_key_def single_install_commands)

definition handle_packets :: "single_env \<Rightarrow> (string \<times> no_rule_packet_info) list \<Rightarrow> single_process \<Rightarrow> single_process" where
  "handle_packets E ps p = fold (\<lambda>(bridge, info). snd \<circ> daim_learning_app_packet_in E bridge info) ps p"

definition source_of :: "string \<times> no_rule_packet_info \<Rightarrow> (string \<times> bytes) \<times> u16" where
  "source_of = (\<lambda>(bridge, info). ((bridge, info_mac_src info), info_in_port info))"

lemma handle_packets_state:
  "single_handles p \<Longrightarrow> single_handles (handle_packets E ps p) \<and>
   sa_table (sp_app (handle_packets E ps p)) = learned.puts (map source_of ps) (sa_table (sp_app p)) \<and>
   sa_adapter (sp_app (handle_packets E ps p)) = sa_adapter (sp_app p)"
proof (induction ps arbitrary: p)
  case (Cons x ps)
  obtain bridge info where x: "x = (bridge, info)" by (cases x)
  show ?case
    using Cons.IH [OF single_packet(3) [OF Cons.prems, of E bridge info]] single_packet(2,4) [OF Cons.prems, of E bridge info]
    by (simp add: handle_packets_def x source_of_def)
qed (simp add: handle_packets_def)

text \<open>The specification: the port of the last packet from an address on a bridge.\<close>

definition last_port :: "(string \<times> no_rule_packet_info) list \<Rightarrow> string \<Rightarrow> bytes \<Rightarrow> u16" where
  "last_port ps bridge m =
     (case filter (\<lambda>(b, i). b = bridge \<and> mac_eq (info_mac_src i) m) ps of
        [] \<Rightarrow> PORT_FLOOD
      | x # xs \<Rightarrow> info_in_port (snd (last (x # xs))))"

lemma puts_last_port:
  assumes "length ps \<le> MAX_ENTRIES" and "\<forall>(b, i) \<in> set ps. length b < MAX_BRIDGE_LEN" and "length bridge < MAX_BRIDGE_LEN"
  shows "find_key (learned.puts (map source_of ps) []) (bridge, m) = last_port ps bridge m"
proof -
  have same: "filter (\<lambda>(k, v). same_key k (bridge, m)) (map source_of ps) =
      map source_of (filter (\<lambda>(b, i). b = bridge \<and> mac_eq (info_mac_src i) m) ps)"
    using assms(2,3) by (auto simp: filter_map source_of_def same_key_def MAX_BRIDGE_LEN_def intro!: arg_cong [of _ _ "map _"] filter_cong)
  have empty: "find_key [] k = PORT_FLOOD" for k by (simp add: find_key_def)
  have "length ([] :: mac_entry list) + length (map source_of ps) \<le> MAX_ENTRIES" using assms(1) by simp
  from learned.find_puts [OF this, of "(bridge, m)"] show ?thesis
    unfolding same empty last_port_def
    by (cases "filter (\<lambda>(b, i). b = bridge \<and> mac_eq (info_mac_src i) m) ps")
      (auto simp: source_of_def last_map split: prod.splits)
qed

text \<open>
  Property C29 (learning). After any run of packets from an empty table, the application sends a packet to the port on which
  the last packet from its destination arrived on the same bridge, this packet included, and floods it when there
  was none. With the process-per-rule adapter it installs one flow with this decision, and none when it floods.
\<close>

theorem single_core_learns:
  assumes "single_handles p" and "sa_table (sp_app p) = []" and "length ps < MAX_ENTRIES"
    and "\<forall>(b, i) \<in> set ps. length b < MAX_BRIDGE_LEN"
    and "sa_adapter (sp_app p) = ProcessPerRule" and "length (info_mac_dst info) = MAC_ADDR_LEN"
    and "valid_token bridge 63"
  shows "\<exists>decision p'. daim_learning_app_packet_in E bridge info (handle_packets E ps p) = (decision, p') \<and>
    decision = last_port (ps @ [(bridge, info)]) bridge (info_mac_dst info) \<and>
    sp_commands p' = sp_commands (handle_packets E ps p) @
      (if decision = PORT_FLOOD then []
       else [ovs_argv ''add-flow'' bridge (flow_string (info_in_port info) (info_mac_dst info) decision)])"
proof -
  let ?q = "handle_packets E ps p"
  have q: "single_handles ?q" "sa_table (sp_app ?q) = learned.puts (map source_of ps) []" "sa_adapter (sp_app ?q) = ProcessPerRule"
    using handle_packets_state [OF assms(1), of E ps] assms(2,5) by simp_all
  have bridge: "length bridge < MAX_BRIDGE_LEN" "take (MAX_BRIDGE_LEN - 1) bridge = bridge"
    using assms(7) by (simp_all add: valid_token_def MAX_BRIDGE_LEN_def)
  have "put_key (bridge, info_mac_src info) (info_in_port info) (sa_table (sp_app ?q)) =
      learned.puts (map source_of (ps @ [(bridge, info)])) []"
    by (simp add: q(2) learned.puts_def source_of_def)
  moreover have "find_key (learned.puts (map source_of (ps @ [(bridge, info)])) []) (bridge, info_mac_dst info) =
      last_port (ps @ [(bridge, info)]) bridge (info_mac_dst info)"
    by (rule puts_last_port) (use assms(3,4) bridge(1) in auto)
  ultimately show ?thesis
    using single_packet(1) [OF q(1), of E bridge info] single_packet(5) [OF q(1,3) assms(6), of bridge E] assms(7) bridge(2)
    by (cases "daim_learning_app_packet_in E bridge info ?q") simp
qed

definition sample_single :: single_process where
  "sample_single = snd (daim_learning_app_init True ProcessPerRule (single_process0\<lparr>sp_core := snd (daim_init True core_state0)\<rparr>))"

definition sample_single_env :: single_env where
  "sample_single_env = \<lparr>se_exec = \<lambda>_ _. 0, se_transmit = \<lambda>_ msg. int (length msg), se_clock = \<lambda>_. 0\<rparr>"

definition sample_frame_info :: "u16 \<Rightarrow> u8 \<Rightarrow> u8 \<Rightarrow> no_rule_packet_info" where
  "sample_frame_info port src dst = \<lparr>info_in_port = port, info_mac_src = [0, 0, 0, 0, 0, src], info_mac_dst = [0, 0, 0, 0, 0, dst],
      info_ethernet_type = 0x800, info_ip_source = 0, info_ip_destination = 0,
      info_ip_netmask_source = 0, info_ip_netmask_destination = 0, info_ip_port_source = 0,
      info_tp_port_destination = 0, info_ip_proto = 0, info_vlan_id = 0, info_vlan_pcp = 0, info_ip_tos = 0\<rparr>"

lemma sample_single_simps: "single_handles sample_single" "sa_table (sp_app sample_single) = []"
    "sa_adapter (sp_app sample_single) = ProcessPerRule"
  by (simp_all add: sample_single_def daim_learning_app_init_def single_handles_def daim_signal_def daim_init_def
      daim_core_emit_def core_state0_def SIGNAL_SLOTS_def NO_RULE_def)

theorem single_core_learns_witness:
  "fst (daim_learning_app_packet_in sample_single_env ''s1'' (sample_frame_info 2 8 7)
     (handle_packets sample_single_env [(''s1'', sample_frame_info 1 7 8), (''s2'', sample_frame_info 5 7 8)] sample_single)) = 1"
  using single_core_learns [of sample_single "[(''s1'', sample_frame_info 1 7 8), (''s2'', sample_frame_info 5 7 8)]"
      "sample_frame_info 2 8 7" "''s1''" sample_single_env]
  by (auto simp: sample_single_simps MAX_ENTRIES_def MAX_BRIDGE_LEN_def sample_frame_info_def MAC_ADDR_LEN_def valid_token_def
      last_port_def mac_eq_def)

end
