(* ===== verification/Core_Bridge.thy ===== *)
theory Core_Bridge
  imports Single_Laws Node_Bridge
begin

text \<open>
  The Python binding of the single-controller application (\<open>network/daim_core_bridge.py\<close>):
  construction in one of two modes, Packet-In, and the reading of counters and timings. ctypes
  keeps integers modulo the width of the C type, and C strings end at the first zero, as in
  \<open>Node_Bridge\<close>. Whether the library file exists, the mutexes of the application and of DAIM Core and the adapter's memory can be had and a switch
  connects in time are parameters.
\<close>

record bridge_env =
  be_lib_exists :: bool
  be_mutex_ok :: bool
  be_core_mutex_ok :: bool
  be_adapter_ok :: bool
  be_switch_connects :: "int \<Rightarrow> int \<Rightarrow> bool"
  be_stray_stats :: persistent_stats
  be_single :: single_env

type_synonym 'a bridge_act = "(single_process, 'a) act"

subsection \<open>Construction\<close>

text \<open>The executor callback collects the arguments up to the null pointer and returns a \<open>c_int\<close>.\<close>

definition wrap_executor :: "executor \<Rightarrow> executor" where
  "wrap_executor executor before argv = c_int (executor before (executor_args (map Some argv @ [None])))"

definition bind_adapter :: "bridge_env \<Rightarrow> string \<Rightarrow> bool \<Rightarrow> int option \<Rightarrow> int \<Rightarrow> switch_adapter bridge_act" where
  "bind_adapter E mode executor port timeout =
     (if mode = ''process_per_rule''
      then if \<not> executor then act_raise ValueError
           else if be_adapter_ok E then act_return ProcessPerRule
           else act_raise (RuntimeError ''daim_ovs_adapter_create failed'')
      else if mode = ''persistent''
      then (case port of
              None \<Rightarrow> act_raise ValueError
            | Some p \<Rightarrow>
                if be_switch_connects E (c_int p) (c_int timeout)
                then act_bind (act_modify (\<lambda>s. s\<lparr>sp_context := new_context\<rparr>)) (\<lambda>_. act_return Persistent)
                else act_raise (RuntimeError (''daim_ovs_persistent_adapter_create failed (port='' @ py_str p @
                       '', timeout='' @ py_str timeout @ ''s)'')))
      else act_raise ValueError)"

definition DaimCoreBridge_init :: "bridge_env \<Rightarrow> string \<Rightarrow> bool \<Rightarrow> int option \<Rightarrow> int \<Rightarrow> unit bridge_act" where
  "DaimCoreBridge_init E mode executor port timeout =
     act_bind (if be_lib_exists E then act_return () else act_raise FileNotFoundError) (\<lambda>_.
     act_bind (bind_adapter E mode executor port timeout) (\<lambda>adapter.
     act_bind (act_get (\<lambda>s. daim_init (be_core_mutex_ok E) (sp_core s))) (\<lambda>(rc, core).
     act_bind (act_modify (\<lambda>s. s\<lparr>sp_core := core\<rparr>)) (\<lambda>_.
     act_bind (if rc \<noteq> 0 then act_raise (RuntimeError ''daim_init failed'') else act_return ()) (\<lambda>_.
     act_bind (act_get (daim_learning_app_init (be_mutex_ok E) adapter)) (\<lambda>(rc, p).
     act_bind (act_modify (\<lambda>_. p)) (\<lambda>_.
     if rc \<noteq> 0 then act_raise (RuntimeError ''daim_learning_app_init failed'') else act_return ())))))))"

subsection \<open>Calls\<close>

definition bridge_single_env :: "bridge_env \<Rightarrow> single_env" where
  "bridge_single_env E = (be_single E)\<lparr>se_exec := wrap_executor (se_exec (be_single E))\<rparr>"

definition core_packet_in :: "bridge_env \<Rightarrow> string \<Rightarrow> int \<Rightarrow> int list \<Rightarrow> int list \<Rightarrow> int \<Rightarrow> int bridge_act" where
  "core_packet_in E bridge in_port mac_src mac_dst ethertype =
     act_bind (act_lift (uint8_array PY_MAC_ADDR_LEN mac_src)) (\<lambda>src.
     act_bind (act_lift (uint8_array PY_MAC_ADDR_LEN mac_dst)) (\<lambda>dst.
     act_bind (act_lift (py_encode_ascii bridge)) (\<lambda>name s.
       case daim_learning_app_packet_in (bridge_single_env E) (c_str name) (packet_info in_port src dst ethertype) s of
         (port, s') \<Rightarrow> (Inr (uint port), s'))))"

definition bridge_stats :: "single_process \<Rightarrow> dict" where
  "bridge_stats s =
     (case daim_learning_app_stats s of
        (events, flows, rows) \<Rightarrow>
          [(''no_rule_events'', JInt (uint events)), (''flows_installed'', JInt (uint flows)),
           (''forwarding_table_rows'', JInt (int rows))])"

text \<open>
  The C function reads the counters from the adapter's context without asking which adapter it is.
  The context of the command-per-rule adapter is another struct; what its memory gives is a parameter.
\<close>

definition adapter_get_stats :: "bridge_env \<Rightarrow> single_process \<Rightarrow> int \<times> persistent_stats" where
  "adapter_get_stats E s =
     (case sa_adapter (sp_app s) of
        NoAdapter \<Rightarrow> (- 1, pc_stats new_context)
      | ProcessPerRule \<Rightarrow> (0, be_stray_stats E)
      | Persistent \<Rightarrow> (0, pc_stats (sp_context s)))"

definition persistent_stats_dict :: "bridge_env \<Rightarrow> dict bridge_act" where
  "persistent_stats_dict E =
     act_bind (act_get (adapter_get_stats E)) (\<lambda>(rc, st).
       if rc \<noteq> 0 then act_raise (RuntimeError ''daim_ovs_persistent_adapter_get_stats failed (not a persistent-mode adapter?)'')
       else act_return [(''flow_mods_sent'', JInt (uint (flow_mods_sent st))), (''bytes_sent'', JInt (uint (pa_bytes_sent st))),
          (''echo_replies_sent'', JInt (uint (echo_replies_sent st)))])"

definition wire_flow_mod_bytes :: "string \<Rightarrow> bool \<Rightarrow> int res" where
  "wire_flow_mod_bytes flow is_delete =
     res_bind (py_encode_ascii flow) (\<lambda>f.
       let n = daim_ovs_wire_flow_mod_size (c_str f) is_delete
       in if n = 0 then Inl ValueError else Inr (int n))"

definition last_timing :: "single_process \<Rightarrow> dict" where
  "last_timing s =
     (let t = daim_learning_app_last_timing s
      in [(''entry_ns'', JInt (uint (entry_ns t))), (''decision_done_ns'', JInt (uint (decision_done_ns t))),
          (''table_write_done_ns'', JInt (uint (table_write_done_ns t))), (''install_done_ns'', JInt (uint (install_done_ns t))),
          (''exit_ns'', JInt (uint (exit_ns t))), (''installed'', JBool (lt_installed t \<noteq> 0))])"

end
