(* ===== verification/Bridge_Controller.thy ===== *)
theory Bridge_Controller
  imports Core_Bridge Harness_Laws Node_Controller
begin

text \<open>
  The controller of the single-core experiments (\<open>network/daim_bridge_controller.py\<close>): start in one of
  two adapter modes, bridge names, the two OpenFlow handlers, and the two reports it prints, one of
  the stages of a chosen packet and one of the resources used until a marker packet. Its processes and clocks are
  those of \<open>Harness\<close>; a reading in nanoseconds is the time rounded down.
\<close>

subsection \<open>Configuration and state\<close>

record bridge_config =
  bg_mode :: string
  bg_persistent_port :: "string option"
  bg_target_ip :: "string option"
  bg_signal_ip :: "string option"

definition read_bridge_config :: "environ \<Rightarrow> bridge_config" where
  "read_bridge_config env =
     \<lparr>bg_mode = environ_get env ''DAIM_ADAPTER_MODE'' ''process_per_rule'', bg_persistent_port = map_of env ''DAIM_PERSISTENT_PORT'',
      bg_target_ip = map_of env ''DAIM_TARGET_IP'', bg_signal_ip = map_of env ''DAIM_LOAD_PROFILE_SIGNAL_IP''\<rparr>"

definition CONFIRM_POLL_INTERVAL_S :: rat where "CONFIRM_POLL_INTERVAL_S = 0.0005"
definition CONFIRM_TIMEOUT_S :: rat where "CONFIRM_TIMEOUT_S = 3"

definition SAMPLE_FLOW :: string where
  "SAMPLE_FLOW = ''priority=100,in_port=1,dl_dst=00:00:00:00:00:01,actions=output:1''"

text \<open>User time, system time and the largest resident set of the process.\<close>

type_synonym usage = "rat \<times> rat \<times> int"

record bridge_controller =
  bc_world :: world
  bc_process :: single_process
  bc_bridge :: bool
  bc_bridges :: "(u64 \<times> string) list"
  bc_captured :: bool
  bc_table_miss_installed :: bool
  bc_adapter_ready :: bool
  bc_adapter_error :: "string option"
  bc_start_usage :: "usage option"
  bc_start_ns :: "int option"
  bc_reported :: bool
  bc_events :: "dict list"
  bc_sent :: "out_msg list"

record bridge_controller_env =
  bv_bridge :: bridge_env
  bv_world :: env
  bv_ofproto :: ofproto
  bv_usage :: "action list \<Rightarrow> usage"
  bv_repr :: "string \<Rightarrow> string"

definition bridge_controller0 :: "world \<Rightarrow> bridge_controller" where
  "bridge_controller0 w = \<lparr>bc_world = w, bc_process = single_process0, bc_bridge = False, bc_bridges = [], bc_captured = False,
     bc_table_miss_installed = False, bc_adapter_ready = False, bc_adapter_error = None, bc_start_usage = None,
     bc_start_ns = None, bc_reported = False, bc_events = [], bc_sent = []\<rparr>"

definition in_world :: "(world, 'a) act \<Rightarrow> (bridge_controller, 'a) act" where
  "in_world m s = (case m (bc_world s) of (r, w) \<Rightarrow> (r, s\<lparr>bc_world := w\<rparr>))"

definition in_bridge :: "'a bridge_act \<Rightarrow> (bridge_controller, 'a) act" where
  "in_bridge m s = (case m (bc_process s) of (r, p) \<Rightarrow> (r, s\<lparr>bc_process := p\<rparr>))"

definition bridge_emit :: "string \<Rightarrow> dict \<Rightarrow> (bridge_controller, unit) act" where
  "bridge_emit event kvs = act_modify (\<lambda>s. s\<lparr>bc_events := bc_events s @ [dict_merge [(''event'', JStr event)] kvs]\<rparr>)"

definition getrusage :: "bridge_controller_env \<Rightarrow> (world, usage) act" where
  "getrusage E w = (Inr (bv_usage E (w_log w)), w)"

subsection \<open>Start\<close>

text \<open>The constructor; the threads it starts are the two operations after it.\<close>

definition DaimBridgeController_init :: "bridge_controller_env \<Rightarrow> bridge_config \<Rightarrow> (bridge_controller, unit) act" where
  "DaimBridgeController_init E cfg =
     act_bind (act_modify (\<lambda>s. s\<lparr>bc_bridge := False, bc_bridges := [], bc_captured := False, bc_table_miss_installed := False,
         bc_adapter_ready := False, bc_adapter_error := None, bc_start_usage := None, bc_start_ns := None,
         bc_reported := False\<rparr>)) (\<lambda>_.
     if bg_mode cfg = ''process_per_rule''
     then act_bind (in_bridge (DaimCoreBridge_init (bv_bridge E) ''process_per_rule'' True None 15)) (\<lambda>_.
            act_modify (\<lambda>s. s\<lparr>bc_bridge := True, bc_adapter_ready := True\<rparr>))
     else if bg_mode cfg = ''persistent''
     then (case bg_persistent_port cfg of
             None \<Rightarrow> act_raise (RuntimeError ''DAIM_PERSISTENT_PORT is required for mode=persistent'')
           | Some p \<Rightarrow> if p = [] then act_raise (RuntimeError ''DAIM_PERSISTENT_PORT is required for mode=persistent'')
               else act_return ())
     else act_raise (RuntimeError (''unknown DAIM_ADAPTER_MODE: '' @ bv_repr E (bg_mode cfg))))"

definition build_persistent_adapter :: "bridge_controller_env \<Rightarrow> bridge_config \<Rightarrow> (bridge_controller, unit) act" where
  "build_persistent_adapter E cfg =
     act_finally
       (act_catch
         (act_bind (act_lift (case bg_persistent_port cfg of None \<Rightarrow> Inl TypeError | Some p \<Rightarrow> py_int 10 p)) (\<lambda>port.
          act_bind (in_bridge (DaimCoreBridge_init (bv_bridge E) ''persistent'' False (Some port) 15)) (\<lambda>_.
            act_modify (\<lambda>s. s\<lparr>bc_bridge := True\<rparr>))))
         (\<lambda>exc. Some (act_modify (\<lambda>s. s\<lparr>bc_adapter_error :=
             Some (case exc of RuntimeError m \<Rightarrow> m | _ \<Rightarrow> en_message (bv_world E) exc)\<rparr>))))
       (act_modify (\<lambda>s. s\<lparr>bc_adapter_ready := True\<rparr>))"

text \<open>The announcing thread; \<open>None\<close> while it waits for one of its events.\<close>

definition announce_ready :: "bridge_controller_env \<Rightarrow> bridge_config \<Rightarrow> (bridge_controller, unit) act" where
  "announce_ready E cfg =
     act_bind (if bg_signal_ip cfg \<noteq> None \<and> bg_signal_ip cfg \<noteq> Some []
         then act_bind (in_world (getrusage E)) (\<lambda>u.
              act_bind (in_world (perf_counter_ns (bv_world E))) (\<lambda>t.
              act_modify (\<lambda>s. s\<lparr>bc_start_usage := Some u, bc_start_ns := Some t\<rparr>)))
         else act_return ())
       (\<lambda>_. bridge_emit ''ready'' [(''mode'', JStr (bg_mode cfg))])"

definition bridge_announce :: "bridge_controller_env \<Rightarrow> bridge_config \<Rightarrow> bridge_controller \<Rightarrow> (unit res \<times> bridge_controller) option" where
  "bridge_announce E cfg s =
     (if \<not> bc_adapter_ready s then None
      else case bc_adapter_error s of
        Some (c # err) \<Rightarrow> Some (bridge_emit ''adapter_error'' [(''detail'', JStr (c # err))] s)
      | _ \<Rightarrow> if \<not> bc_table_miss_installed s then None else Some (announce_ready E cfg s))"

subsection \<open>Bridge names and switch features\<close>

definition bridge_look_up :: "bridge_controller_env \<Rightarrow> u64 \<Rightarrow> (bridge_controller, string) act" where
  "bridge_look_up E dpid =
     (let datapath_id = hex_pad 16 (unat dpid)
      in act_bind (in_world (run (bv_world E) (find_bridge_argv datapath_id))) (\<lambda>(rc, out).
           let name = py_strip_char (CHR 0x22) (py_strip out)
           in if name \<noteq> [] then act_bind (act_modify (\<lambda>s. s\<lparr>bc_bridges := (dpid, name) # bc_bridges s\<rparr>)) (\<lambda>_. act_return name)
              else act_return datapath_id))"

definition bridge_resolve :: "bridge_controller_env \<Rightarrow> u64 \<Rightarrow> (bridge_controller, string) act" where
  "bridge_resolve E dpid =
     act_bind (act_get (\<lambda>s. map_of (bc_bridges s) dpid)) (\<lambda>found.
       case found of
         Some name \<Rightarrow> if name \<noteq> [] then act_return name else bridge_look_up E dpid
       | None \<Rightarrow> bridge_look_up E dpid)"

definition bridge_send :: "out_msg \<Rightarrow> (bridge_controller, unit) act" where
  "bridge_send m = act_modify (\<lambda>s. s\<lparr>bc_sent := bc_sent s @ [m]\<rparr>)"

definition bridge_features :: "bridge_controller_env \<Rightarrow> u64 \<Rightarrow> (bridge_controller, unit) act" where
  "bridge_features E dpid =
     act_bind (bridge_resolve E dpid) (\<lambda>_.
     act_bind (bridge_send (FlowMod 0 [] [(OFPP_CONTROLLER (bv_ofproto E), OFPCML_NO_BUFFER (bv_ofproto E))])) (\<lambda>_.
     act_modify (\<lambda>s. s\<lparr>bc_table_miss_installed := True\<rparr>)))"

subsection \<open>Reports\<close>

definition opt_int :: "int option \<Rightarrow> json" where
  "opt_int v = (case v of None \<Rightarrow> JNull | Some i \<Rightarrow> JInt i)"

text \<open>The polling of the switch until the flow shows up in its dump, or the time is over.\<close>

function confirm_loop :: "env \<Rightarrow> string \<Rightarrow> string \<Rightarrow> rat \<Rightarrow> world \<Rightarrow> int option res \<times> world" where
  "confirm_loop E bridge needle deadline w =
     (let w1 = perform E Clock w
      in if \<not> w_now w1 < deadline then (Inr None, w1)
         else case run E [''ovs-ofctl'', ''-O'', ''OpenFlow13'', ''dump-flows'', bridge] w1 of
           (Inl e, w2) \<Rightarrow> (Inl e, w2)
         | (Inr (rc, out), w2) \<Rightarrow>
             if py_substring needle out then (act_bind (perf_counter_ns E) (\<lambda>t. act_return (Some t))) w2
             else confirm_loop E bridge needle deadline (perform E (Sleep CONFIRM_POLL_INTERVAL_S) w2))"
  by pat_completeness auto
termination
proof (relation "measure (\<lambda>(E, bridge, needle, deadline, w). nat \<lceil>(deadline - w_now w) / CONFIRM_POLL_INTERVAL_S\<rceil>)", goal_cases)
  case 1
  show ?case by simp
next
  case (2 E bridge needle deadline w w1 r w2 x rc out)
  have pos: "(0 :: rat) < CONFIRM_POLL_INTERVAL_S" by (simp add: CONFIRM_POLL_INTERVAL_S_def)
  have lt: "w_now w < deadline" using 2(1,2) perform_now [of w E Clock] by auto
  have "extends w1 w2" using 2(3,4) growsD [OF grows_basic(8)] by metis
  then have "w_now w + CONFIRM_POLL_INTERVAL_S \<le> w_now (perform E (Sleep CONFIRM_POLL_INTERVAL_S) w2)"
    using perform_sleep [of CONFIRM_POLL_INTERVAL_S w2 E] perform_now [of w E Clock] 2(1) pos by (simp add: extends_def)
  then show ?case using poll_measure [OF lt pos] by simp
qed

declare confirm_loop.simps [simp del]

definition report_timing :: "bridge_controller_env \<Rightarrow> bridge_config \<Rightarrow> string \<Rightarrow> string \<Rightarrow> int \<Rightarrow> int \<Rightarrow> int \<Rightarrow> int \<Rightarrow> (bridge_controller, unit) act" where
  "report_timing E cfg bridge dst_mac t_dispatch_enter t_pre_ctypes t_post_ctypes t_packetout_sent =
     act_bind (act_get (\<lambda>s. last_timing (bc_process s))) (\<lambda>c.
     act_bind (in_world (monotonic (bv_world E))) (\<lambda>t.
     act_bind (in_world (confirm_loop (bv_world E) bridge (''dl_dst='' @ dst_mac) (t + CONFIRM_TIMEOUT_S))) (\<lambda>t_confirmed.
       bridge_emit ''timing''
         [(''mode'', JStr (bg_mode cfg)), (''t_dispatch_enter_ns'', JInt t_dispatch_enter), (''t_pre_ctypes_ns'', JInt t_pre_ctypes),
          (''c_entry_ns'', dict_get c ''entry_ns''), (''c_decision_done_ns'', dict_get c ''decision_done_ns''),
          (''c_table_write_done_ns'', dict_get c ''table_write_done_ns''), (''c_install_done_ns'', dict_get c ''install_done_ns''),
          (''c_exit_ns'', dict_get c ''exit_ns''), (''t_post_ctypes_ns'', JInt t_post_ctypes),
          (''t_packetout_sent_ns'', JInt t_packetout_sent), (''t_confirmed_ns'', opt_int t_confirmed),
          (''installed'', dict_get c ''installed''), (''confirmed'', JBool (t_confirmed \<noteq> None))])))"

definition opt_json :: "rat option \<Rightarrow> json" where
  "opt_json v = (case v of None \<Rightarrow> JNull | Some r \<Rightarrow> JFloat r)"

text \<open>The control traffic: measured by the adapter, or computed from the size of a flow-mod.\<close>

definition control_traffic :: "bridge_controller_env \<Rightarrow> bridge_config \<Rightarrow> int \<Rightarrow> (int \<times> int \<times> string \<times> json) bridge_act" where
  "control_traffic E cfg flows =
     (if bg_mode cfg = ''persistent''
      then act_bind (persistent_stats_dict (bv_bridge E)) (\<lambda>_.
           act_bind (act_get (\<lambda>s. snd (adapter_get_stats (bv_bridge E) s))) (\<lambda>st.
             act_return (uint (pa_bytes_sent st), uint (flow_mods_sent st) + uint (echo_replies_sent st), ''measured'',
               JInt (uint (echo_replies_sent st)))))
      else act_bind (act_lift (wire_flow_mod_bytes SAMPLE_FLOW False)) (\<lambda>n.
             act_return (flows * n, flows, ''computed_wire_format'', JNull)))"

definition report_load_profile :: "bridge_controller_env \<Rightarrow> bridge_config \<Rightarrow> int \<Rightarrow> (bridge_controller, unit) act" where
  "report_load_profile E cfg t_end_ns =
     act_bind (act_modify (\<lambda>s. s\<lparr>bc_reported := True\<rparr>)) (\<lambda>_.
     act_bind (act_get (\<lambda>s. daim_learning_app_stats (bc_process s))) (\<lambda>(events, flows, rows).
     act_bind (in_world (getrusage E)) (\<lambda>(utime, stime, maxrss).
     act_bind (act_get bc_start_usage) (\<lambda>start_usage.
     act_bind (act_get bc_start_ns) (\<lambda>start_ns.
     act_bind (act_lift (case start_ns of None \<Rightarrow> Inl TypeError | Some t \<Rightarrow> Inr ((of_int (t_end_ns - t) :: rat) / 10 ^ 9))) (\<lambda>elapsed_s.
     act_bind (in_bridge (control_traffic E cfg (uint flows))) (\<lambda>(bytes_total, messages_total, source, echo).
     act_bind (act_lift (case start_usage of None \<Rightarrow> Inl AttributeError | Some (u, s, _) \<Rightarrow> Inr ((utime + stime) - (u + s)))) (\<lambda>cpu_s.
       bridge_emit ''load_profile''
         [(''mode'', JStr (bg_mode cfg)), (''no_rule_events'', JInt (uint events)), (''flows_installed'', JInt (uint flows)),
          (''elapsed_s'', JFloat elapsed_s),
          (''throughput_installs_per_s'', opt_json (if elapsed_s > 0 then Some (of_int (uint flows) / elapsed_s) else None)),
          (''cpu_s'', JFloat cpu_s), (''max_rss_kib'', JInt maxrss), (''control_bytes_total'', JInt bytes_total),
          (''control_messages_total'', JInt messages_total), (''control_bytes_source'', JStr source),
          (''echo_replies_sent'', echo)]))))))))"

subsection \<open>Packet-In\<close>

text \<open>The event as the parser sees it; \<open>be_ipv4\<close> is the IPv4 header of an IPv4 frame: source and destination.\<close>

record bridge_event = packet_in_event +
  be_ipv4 :: "(string \<times> string) option"

definition ETH_TYPE_IP :: int where "ETH_TYPE_IP = 0x0800"

definition bridge_packet_in :: "bridge_controller_env \<Rightarrow> bridge_config \<Rightarrow> bridge_event \<Rightarrow> (bridge_controller, unit) act" where
  "bridge_packet_in E cfg ev =
     act_bind (in_world (perf_counter_ns (bv_world E))) (\<lambda>t_dispatch_enter.
     case pe_ethernet ev of
       None \<Rightarrow> act_return ()
     | Some (src, dst, ethertype) \<Rightarrow>
         act_bind (bridge_resolve E (pe_dpid ev)) (\<lambda>bridge.
         let ip_pkt = (if ethertype = ETH_TYPE_IP then be_ipv4 ev else None)
         in
         act_bind (act_get (\<lambda>s. \<not> bc_captured s \<and> bg_target_ip cfg \<noteq> None \<and> ip_pkt \<noteq> None \<and>
             map_option snd ip_pkt = bg_target_ip cfg)) (\<lambda>capture.
         act_bind (if capture then act_modify (\<lambda>s. s\<lparr>bc_captured := True\<rparr>) else act_return ()) (\<lambda>_.
         act_bind (act_get (\<lambda>s. bg_signal_ip cfg \<noteq> None \<and> \<not> bc_reported s \<and> ip_pkt \<noteq> None \<and>
             map_option fst ip_pkt = bg_signal_ip cfg)) (\<lambda>is_signal.
         act_bind (in_world (perf_counter_ns (bv_world E))) (\<lambda>t_pre_ctypes.
         act_bind (act_get bc_bridge) (\<lambda>built.
         act_bind (if built then act_return () else act_raise AttributeError) (\<lambda>_.
         act_bind (act_lift (mac_str_to_bytes src)) (\<lambda>src_bytes.
         act_bind (act_lift (mac_str_to_bytes dst)) (\<lambda>dst_bytes.
         act_bind (in_bridge (core_packet_in (bv_bridge E) bridge (pe_in_port ev) src_bytes dst_bytes ethertype)) (\<lambda>out_port.
         act_bind (in_world (perf_counter_ns (bv_world E))) (\<lambda>t_post_ctypes.
         act_bind (bridge_send (PacketOut (pe_buffer_id ev) (pe_in_port ev)
             [if out_port = PY_PORT_FLOOD then OFPP_FLOOD (bv_ofproto E) else out_port]
             (if pe_buffer_id ev = OFP_NO_BUFFER (bv_ofproto E) then Some (pe_data ev) else None))) (\<lambda>_.
         act_bind (in_world (perf_counter_ns (bv_world E))) (\<lambda>t_packetout_sent.
         act_bind (if capture then report_timing E cfg bridge dst t_dispatch_enter t_pre_ctypes t_post_ctypes t_packetout_sent
                   else act_return ()) (\<lambda>_.
           if is_signal then report_load_profile E cfg t_packetout_sent else act_return ())))))))))))))))"

end
