(* ===== verification/Bridge_Laws.thy ===== *)
theory Bridge_Laws
  imports Bridge_Controller
begin

text \<open>
  The controller of the single-core experiments as a state machine of its handlers and threads: each of the
  two reports is printed at most once, whatever comes in. And the two ways of counting control traffic agree on the
  flow-mods: what is computed for the command-per-rule adapter is what the persistent adapter sends.
\<close>

subsection \<open>Reports are printed once\<close>

text \<open>The steps of the running controller; an exception ends the handler, not the process.\<close>

inductive bridge_step :: "bridge_controller_env \<Rightarrow> bridge_config \<Rightarrow> bridge_controller \<Rightarrow> bridge_controller \<Rightarrow> bool"
  for E cfg where
  packet_in: "bridge_packet_in E cfg ev s = (r, s') \<Longrightarrow> bridge_step E cfg s s'"
| features: "bridge_features E dpid s = (r, s') \<Longrightarrow> bridge_step E cfg s s'"
| adapter: "build_persistent_adapter E cfg s = (r, s') \<Longrightarrow> bridge_step E cfg s s'"
| announce: "bridge_announce E cfg s = Some (r, s') \<Longrightarrow> bridge_step E cfg s s'"

inductive bridge_reachable :: "bridge_controller_env \<Rightarrow> bridge_config \<Rightarrow> bridge_controller \<Rightarrow> bool" for E cfg where
  start: "DaimBridgeController_init E cfg (bridge_controller0 w) = (Inr (), s) \<Longrightarrow> bridge_reachable E cfg s"
| step: "bridge_reachable E cfg s \<Longrightarrow> bridge_step E cfg s s' \<Longrightarrow> bridge_reachable E cfg s'"

definition event_count :: "string \<Rightarrow> bridge_controller \<Rightarrow> nat" where
  "event_count name s = length (filter (\<lambda>e. map_of e ''event'' = Some (JStr name)) (bc_events s))"

text \<open>What decides about the reports: the events printed and the two flags.\<close>

definition report_view :: "bridge_controller \<Rightarrow> nat \<times> nat \<times> bool \<times> bool" where
  "report_view s = (event_count ''timing'' s, event_count ''load_profile'' s, bc_captured s, bc_reported s)"

lemma preserves_layers [preserves_intros]:
  "preserves report_view (in_world m)" "preserves report_view (in_bridge m')" "preserves report_view (bridge_send msg)"
  by (simp_all add: preserves_def in_world_def in_bridge_def bridge_send_def act_modify_def report_view_def event_count_def
      split: prod.splits)

lemma preserves_resolve [preserves_intros]: "preserves report_view (bridge_resolve E dpid)"
  by (auto simp: bridge_resolve_def bridge_look_up_def Let_def report_view_def event_count_def
      intro!: preserves_intros split: option.splits)

lemma preserves_report_modify [preserves_intros]:
  "(\<And>s. bc_events (f s) = bc_events s \<and> bc_captured (f s) = bc_captured s \<and> bc_reported (f s) = bc_reported s) \<Longrightarrow>
   preserves report_view (act_modify f)"
  by (simp add: preserves_def act_modify_def report_view_def event_count_def)

lemma emit_view:
  assumes "''event'' \<notin> fst ` set kvs" "distinct (map fst kvs)"
  shows "report_view (snd (bridge_emit ev kvs s)) =
    (event_count ''timing'' s + (if ev = ''timing'' then 1 else 0),
     event_count ''load_profile'' s + (if ev = ''load_profile'' then 1 else 0), bc_captured s, bc_reported s)"
proof -
  have "map_of (dict_merge [(''event'', JStr ev)] kvs) ''event'' = Some (JStr ev)"
    using assms by (simp add: map_of_dict_merge map_add_def map_of_eq_None_iff [THEN iffD2])
  then show ?thesis by (simp add: report_view_def bridge_emit_def event_count_def act_modify_def)
qed

text \<open>The invariant: an event of a report needs its flag. While a packet is handled, its own report may still be due.\<close>

definition once :: "bool \<Rightarrow> bool \<Rightarrow> nat \<times> nat \<times> bool \<times> bool \<Rightarrow> bool" where
  "once timing_due profile_due v \<longleftrightarrow> (case v of (timings, profiles, captured, reported) \<Rightarrow>
     timings \<le> (if captured \<and> \<not> timing_due then 1 else 0) \<and> profiles \<le> (if reported then 1 else 0) \<and>
     (timing_due \<longrightarrow> captured) \<and> (profile_due \<longrightarrow> \<not> reported))"

lemma once_weaken: "once t p v \<Longrightarrow> once False False v"
  by (auto simp: once_def split: prod.splits if_splits)

lemma once_quiet:
  "preserves report_view m \<Longrightarrow>
   triple (\<lambda>s. once t p (report_view s)) m (\<lambda>_ s. once t p (report_view s)) (\<lambda>s. once False False (report_view s))"
  by (rule triple_view) (auto dest: once_weaken)

lemma once_emit:
  assumes "''event'' \<notin> fst ` set kvs" "distinct (map fst kvs)"
  shows "triple (\<lambda>s. once (ev = ''timing'') p (report_view s) \<and> (ev = ''load_profile'' \<longrightarrow> event_count ''load_profile'' s = 0 \<and> bc_reported s))
     (bridge_emit ev kvs) (\<lambda>_ s. once False (p \<and> ev \<noteq> ''load_profile'') (report_view s)) R"
  unfolding triple_def
proof (intro allI impI)
  fix s
  assume pre: "once (ev = ''timing'') p (report_view s) \<and> (ev = ''load_profile'' \<longrightarrow> event_count ''load_profile'' s = 0 \<and> bc_reported s)"
  have "once False (p \<and> ev \<noteq> ''load_profile'') (report_view (snd (bridge_emit ev kvs s)))"
    using pre unfolding emit_view [OF assms] by (auto simp: once_def report_view_def split: if_splits)
  then show "case bridge_emit ev kvs s of (Inr x, s') \<Rightarrow> once False (p \<and> ev \<noteq> ''load_profile'') (report_view s') | (Inl e, s') \<Rightarrow> R s'"
    by (simp add: bridge_emit_def act_modify_def)
qed

lemmas quiet_step = triple_bind_view [where view = report_view and r = "once False False"]

lemma timing_once:
  "triple (\<lambda>s. once True p (report_view s)) (report_timing E cfg b d t1 t2 t3 t4) (\<lambda>_ s. once False p (report_view s))
     (\<lambda>s. once False False (report_view s))"
  unfolding report_timing_def
  apply (intro quiet_step [where p = "once True p"] preserves_intros)
  apply (simp_all add: once_weaken)
  apply (rule triple_weaken [OF once_emit])
  apply (auto)
  done

lemma profile_once:
  "triple (\<lambda>s. once False True (report_view s)) (report_load_profile E cfg t) (\<lambda>_ s. once False False (report_view s))
     (\<lambda>s. once False False (report_view s))"
proof -
  let ?P = "\<lambda>v. once False False v \<and> (case v of (a, b, c, d) \<Rightarrow> b = 0 \<and> d)"
  have first: "triple (\<lambda>s. once False True (report_view s)) (act_modify (\<lambda>s. s\<lparr>bc_reported := True\<rparr>)) (\<lambda>_ s. ?P (report_view s)) R" for R
    by (rule triple_modify) (auto simp: once_def report_view_def event_count_def)
  show ?thesis
    unfolding report_load_profile_def
    apply (rule triple_bind [OF first])
    apply (intro quiet_step [where p = ?P] triple_case_prod preserves_intros)
    apply (erule conjunct1 | rule triple_weaken [OF once_emit [where p = False]])+
       apply (auto simp: once_def report_view_def split: if_splits)
    done
qed

lemma packet_in_once:
  "triple (\<lambda>s. once False False (report_view s)) (bridge_packet_in E cfg ev) (\<lambda>_ s. once False False (report_view s))
     (\<lambda>s. once False False (report_view s))"
proof -
  let ?R = "\<lambda>s. once False False (report_view s)"
  have emit_reports: "triple (\<lambda>s. once capture signal (report_view s))
      (act_bind (if capture then report_timing E cfg b d t1 t2 t3 t4 else act_return ()) (\<lambda>_.
         if signal then report_load_profile E cfg t4 else act_return ())) (\<lambda>_. ?R) ?R"
    for capture signal b d t1 t2 t3 t4
  proof (rule triple_bind [where A = "\<lambda>_ s. once False signal (report_view s)"])
    show "triple (\<lambda>s. once capture signal (report_view s)) (if capture then report_timing E cfg b d t1 t2 t3 t4 else act_return ())
        (\<lambda>_ s. once False signal (report_view s)) ?R"
      using timing_once by (auto intro: triple_return)
    show "triple (\<lambda>s. once False signal (report_view s)) (if signal then report_load_profile E cfg t4 else act_return ()) (\<lambda>_. ?R) ?R" for x :: unit
      using profile_once by (auto intro: triple_return)
  qed
  have capture: "triple (\<lambda>s. once False False (report_view s) \<and> (capture \<longrightarrow> \<not> bc_captured s))
      (if capture then act_modify (\<lambda>s. s\<lparr>bc_captured := True\<rparr>) else act_return ()) (\<lambda>_ s. once capture False (report_view s)) ?R" for capture
  proof (cases capture)
    case True
    show ?thesis unfolding if_P [OF True] True
      by (rule triple_modify) (auto simp: once_def report_view_def event_count_def split: if_splits)
  next
    case False
    show ?thesis unfolding if_not_P [OF False] using False by (intro triple_return) simp
  qed
  have forward: "triple (\<lambda>s. once capture signal (report_view s))
      (act_bind m1 (\<lambda>t_pre. act_bind m2 (\<lambda>built. act_bind (f3 built) (\<lambda>_. act_bind m4 (\<lambda>src. act_bind m5 (\<lambda>dst.
       act_bind (f6 src dst) (\<lambda>port. act_bind m7 (\<lambda>t_post. act_bind (f8 port) (\<lambda>_. act_bind m9 (\<lambda>t_sent.
       act_bind (if capture then report_timing E cfg b d t1 t_pre t_post t_sent else act_return ()) (\<lambda>_.
         if signal then report_load_profile E cfg t_sent else act_return ())))))))))))
      (\<lambda>_. ?R) ?R"
    if "preserves report_view m1" "preserves report_view m2" "\<And>x. preserves report_view (f3 x)" "preserves report_view m4"
      "preserves report_view m5" "\<And>x y. preserves report_view (f6 x y)" "preserves report_view m7"
      "\<And>x. preserves report_view (f8 x)" "preserves report_view m9"
    for capture signal b d t1 m1 m2 and f3 :: "_ \<Rightarrow> (_, unit) act" and m4 m5 f6 m7 and f8 :: "_ \<Rightarrow> (_, unit) act" and m9
    apply (rule quiet_step [where p = "once capture signal"], rule that, erule once_weaken)+
    apply (rule emit_reports)
    done
  show ?thesis
  proof (cases "pe_ethernet ev")
    case None
    show ?thesis unfolding bridge_packet_in_def None option.case
      by (intro quiet_step [where p = "once False False"] preserves_intros triple_return)
  next
    case (Some x)
    obtain src dst ethertype where x: "x = (src, dst, ethertype)" by (cases x)
    show ?thesis unfolding bridge_packet_in_def Some x option.case prod.case Let_def
      apply (rule quiet_step [where p = "once False False"], intro preserves_intros, assumption)
      apply (rule quiet_step [where p = "once False False"], intro preserves_intros, assumption)
      apply (rule triple_bind [OF triple_get])
      apply (rule triple_bind)
       apply (rule triple_weaken [OF capture])
        apply simp
       apply assumption
      apply (rule triple_bind [OF triple_get])
      apply (rule triple_weaken [OF forward])
              prefer 10 subgoal for t bridge cap u sig s by (auto simp: once_def report_view_def)
               prefer 10 apply assumption
              apply (auto intro: preserves_intros)
      done
  qed
qed

lemma quiet_step_once:
  "preserves report_view m \<Longrightarrow> m s = (r, s') \<Longrightarrow> once False False (report_view s) \<Longrightarrow> once False False (report_view s')"
  using preservesD [of report_view m s r s'] by simp

lemma start_once: "DaimBridgeController_init E cfg s0 = (r, s) \<Longrightarrow> bc_events s = bc_events s0"
proof -
  have "preserves bc_events (in_bridge m)" for m :: "unit bridge_act"
    by (simp add: preserves_def in_bridge_def split: prod.splits)
  then have "preserves bc_events (DaimBridgeController_init E cfg)"
    by (auto simp: DaimBridgeController_init_def intro!: preserves_intros split: option.splits)
  then show "DaimBridgeController_init E cfg s0 = (r, s) \<Longrightarrow> bc_events s = bc_events s0" by (rule preservesD)
qed

lemma step_once:
  assumes "bridge_step E cfg s s'" and "once False False (report_view s)"
  shows "once False False (report_view s')"
  using assms(1)
proof cases
  case (packet_in ev r)
  show ?thesis by (rule tripleD [OF packet_in_once assms(2) packet_in])
next
  case (features dpid r)
  have "preserves report_view (bridge_features E dpid)"
    by (auto simp: bridge_features_def report_view_def event_count_def intro!: preserves_intros)
  then show ?thesis using features assms(2) by (rule quiet_step_once)
next
  case (adapter r)
  have "preserves report_view (build_persistent_adapter E cfg)"
    by (auto simp: build_persistent_adapter_def report_view_def event_count_def intro!: preserves_intros)
  then show ?thesis using adapter assms(2) by (rule quiet_step_once)
next
  case (announce r)
  have emitted: "preserves report_view (bridge_emit ev kvs)" if "ev \<noteq> ''timing''" "ev \<noteq> ''load_profile''" "''event'' \<notin> fst ` set kvs" "distinct (map fst kvs)"
    for ev kvs
    using emit_view [OF that(3,4), of ev] that(1,2) by (simp add: preserves_def) (simp add: report_view_def)
  have failed: "preserves report_view (bridge_emit ''adapter_error'' [(''detail'', v)])"
    and ready: "preserves report_view (bridge_emit ''ready'' [(''mode'', v)])" for v
    by (intro emitted; simp)+
  have "preserves report_view (if b then act_bind (in_world m1) (\<lambda>u. act_bind (in_world m2) (\<lambda>t.
        act_modify (\<lambda>s. s\<lparr>bc_start_usage := Some u, bc_start_ns := Some t\<rparr>))) else act_return ())" for b m1 m2
    by (cases b) (auto intro!: preserves_intros)
  then have announced: "preserves report_view (announce_ready E cfg)"
    unfolding announce_ready_def by (rule preserves_bind [OF _ ready])
  have "\<exists>m :: (bridge_controller, unit) act. preserves report_view m \<and> m s = (r, s')"
  proof (cases "\<exists>c err. bc_adapter_error s = Some (c # err)")
    case True
    then obtain c err where "bc_adapter_error s = Some (c # err)" by blast
    with announce have "bridge_emit ''adapter_error'' [(''detail'', JStr (c # err))] s = (r, s')"
      by (simp add: bridge_announce_def split: if_splits)
    then show ?thesis using failed by blast
  next
    case False
    then have "bc_adapter_error s = None \<or> bc_adapter_error s = Some []" by (metis neq_Nil_conv not_None_eq)
    with announce have "announce_ready E cfg s = (r, s')" by (auto simp: bridge_announce_def split: if_splits)
    then show ?thesis using announced by blast
  qed
  then show ?thesis using quiet_step_once assms(2) by blast
qed

text \<open>
  Property C30 (reports). Whatever packets, switches and failures the controller meets, in either mode, it prints at most
  one report of stage latencies and at most one load profile, and one of stage latencies only after it captured a packet.
\<close>

theorem reports_at_most_once:
  assumes "bridge_reachable E cfg s"
  shows "event_count ''timing'' s \<le> (if bc_captured s then 1 else 0) \<and>
    event_count ''load_profile'' s \<le> (if bc_reported s then 1 else 0)"
proof -
  have "once False False (report_view s)"
    using assms
  proof (induction rule: bridge_reachable.induct)
    case (start w s)
    have "bc_events s = []" using start_once [OF start] by (simp add: bridge_controller0_def)
    then show ?case by (auto simp: once_def report_view_def event_count_def)
  next
    case (step s s')
    show ?case by (rule step_once [OF step.hyps(2) step.IH])
  qed
  then show ?thesis by (simp add: once_def report_view_def split: if_splits)
qed

definition sample_bridge_env :: bridge_controller_env where
  "sample_bridge_env = \<lparr>bv_bridge = \<lparr>be_lib_exists = True, be_mutex_ok = True, be_core_mutex_ok = True, be_adapter_ok = True,
       be_switch_connects = \<lambda>_ _. True, be_stray_stats = pc_stats new_context, be_single = sample_single_env\<rparr>,
     bv_world = quiet_env, bv_ofproto = \<lparr>OFPP_CONTROLLER = 0xfffffffd, OFPCML_NO_BUFFER = 0xffff, OFPP_FLOOD = 0xfffffffb,
       OFP_NO_BUFFER = 0xffffffff\<rparr>, bv_usage = \<lambda>_. (0, 0, 0), bv_repr = id\<rparr>"

definition sample_bridge_config :: bridge_config where
  "sample_bridge_config = \<lparr>bg_mode = ''process_per_rule'', bg_persistent_port = None, bg_target_ip = Some ''10.0.0.2'', bg_signal_ip = None\<rparr>"

definition sample_bridge_state :: bridge_controller where
  "sample_bridge_state = snd (DaimBridgeController_init sample_bridge_env sample_bridge_config (bridge_controller0 quiet_world))"

definition sample_packet :: bridge_event where
  "sample_packet = \<lparr>pe_dpid = 1, pe_in_port = 1, pe_buffer_id = 0xffffffff, pe_data = [], pe_ethernet = None, be_ipv4 = None\<rparr>"

theorem reports_at_most_once_witness:
  "event_count ''timing'' (snd (bridge_packet_in sample_bridge_env sample_bridge_config sample_packet sample_bridge_state)) \<le> 1"
proof -
  have "fst (DaimBridgeController_init sample_bridge_env sample_bridge_config (bridge_controller0 quiet_world)) = Inr ()"
    by (simp add: DaimBridgeController_init_def sample_bridge_config_def sample_bridge_env_def in_bridge_def DaimCoreBridge_init_def
        bind_adapter_def daim_init_def daim_learning_app_init_def DAIM_CORE_OK_def Let_def)
  then have "bridge_reachable sample_bridge_env sample_bridge_config sample_bridge_state"
    unfolding sample_bridge_state_def by (intro bridge_reachable.start [where w = quiet_world]) (simp add: prod_eq_iff)
  then have "bridge_reachable sample_bridge_env sample_bridge_config
      (snd (bridge_packet_in sample_bridge_env sample_bridge_config sample_packet sample_bridge_state))"
    by (rule bridge_reachable.step) (rule bridge_step.packet_in, rule prod.collapse [symmetric])
  from reports_at_most_once [OF this] show ?thesis by (simp split: if_splits)
qed

subsection \<open>Control traffic\<close>

lemma sample_flow_is_decision: "SAMPLE_FLOW = flow_string 1 [0, 0, 0, 0, 0, 1] 1"
  by (simp add: SAMPLE_FLOW_def flow_string_def format_mac_def nat_str_def hex_pad_def digits_of.simps digit_char_table MAC_ADDR_LEN_def)

lemma sample_flow_bytes: "wire_flow_mod_bytes SAMPLE_FLOW False = Inr 96"
proof -
  have "py_encode_ascii SAMPLE_FLOW = Inr SAMPLE_FLOW" "c_str SAMPLE_FLOW = SAMPLE_FLOW"
    by (simp_all add: SAMPLE_FLOW_def py_encode_ascii_def c_str_def)
  moreover have "daim_ovs_wire_flow_mod_size SAMPLE_FLOW False = 96"
    unfolding sample_flow_is_decision daim_ovs_wire_flow_mod_size_def
    by (simp add: parse_decision length_decision_mod MAC_ADDR_LEN_def)
  ultimately show ?thesis by (simp add: wire_flow_mod_bytes_def)
qed

text \<open>
  Two runs on the same packets, one over the persistent connection and one with a command per rule, and the decisions both
  have installed: the messages of the one, numbered from 100, and the commands of the other.
\<close>

type_synonym installed = "string \<times> u16 \<times> bytes \<times> u16"

fun installed_messages :: "u32 \<Rightarrow> installed list \<Rightarrow> bytes list" where
  "installed_messages xid [] = []"
| "installed_messages xid ((b, ip, m, op) # ds) = decision_message xid ip m op # installed_messages (xid + 1) ds"

fun installed_command :: "installed \<Rightarrow> string list" where
  "installed_command (b, ip, m, op) = ovs_argv ''add-flow'' b (flow_string ip m op)"

lemma installed_messages_snoc:
  "installed_messages xid (ds @ [(b, ip, m, op)]) = installed_messages xid ds @ [decision_message (xid + of_nat (length ds)) ip m op]"
  by (induction xid ds rule: installed_messages.induct) (simp_all add: algebra_simps)

lemma length_installed_messages [simp]: "length (installed_messages xid ds) = length ds"
  by (induction xid ds rule: installed_messages.induct) simp_all

lemma installed_bytes:
  "\<forall>(b, ip, m, op) \<in> set ds. length m = MAC_ADDR_LEN \<Longrightarrow> length (concat (installed_messages xid ds)) = 96 * length ds"
  by (induction xid ds rule: installed_messages.induct) (simp_all add: length_decision_message MAC_ADDR_LEN_def)

definition twins :: "string list list \<Rightarrow> installed list \<Rightarrow> single_process \<Rightarrow> single_process \<Rightarrow> bool" where
  "twins cs ds p q \<longleftrightarrow>
     single_handles p \<and> sa_adapter (sp_app p) = Persistent \<and> single_handles q \<and> sa_adapter (sp_app q) = ProcessPerRule \<and>
     sa_table (sp_app q) = sa_table (sp_app p) \<and> sa_bridge (sp_app q) = sa_bridge (sp_app p) \<and>
     sa_flows_installed (sp_app p) = of_nat (length ds) \<and> sa_flows_installed (sp_app q) = of_nat (length ds) \<and>
     sp_context p = \<lparr>pc_next_xid = 100 + of_nat (length ds), pc_sent = installed_messages 100 ds,
       pc_stats = \<lparr>flow_mods_sent = of_nat (length ds), pa_bytes_sent = 96 * of_nat (length ds), echo_replies_sent = 0\<rparr>\<rparr> \<and>
     sp_commands q = cs @ map installed_command ds \<and> (\<forall>(b, ip, m, op) \<in> set ds. length m = MAC_ADDR_LEN)"

definition willing :: "single_env \<Rightarrow> bool" where
  "willing E \<longleftrightarrow> (\<forall>sent msg. se_transmit E sent msg = int (length msg)) \<and> (\<forall>cs argv. se_exec E cs argv = 0)"

lemma install_twins:
  assumes "willing E" and "length m = MAC_ADDR_LEN" and "valid_token b 63" and "twins cs ds p q"
  shows "twins cs (ds @ [(b, ip, m, op)]) (single_install_flow E b ip m op p) (single_install_flow E b ip m op q)"
proof -
  have m: "length m = 6" using assms(2) by (simp add: MAC_ADDR_LEN_def)
  show ?thesis
    using assms(1-4) flow_string_valid [OF assms(2)] unfolding twins_def willing_def
    by (simp add: single_install_flow_def adapter_flow_add_def persistent_flow_add_def persistent_flow_def parse_decision
        send_message_def Let_def single_handles_def decision_mod_bytes [OF m] length_decision_message [OF m]
        installed_messages_snoc upd_app_def algebra_simps)
qed

lemma twins_upd:
  assumes "twins cs ds p q" and "\<And>a. sa_ready (f a) = sa_ready a" "\<And>a. sa_ready (g a) = sa_ready a"
    and "\<And>a. sa_adapter (f a) = sa_adapter a" "\<And>a. sa_adapter (g a) = sa_adapter a"
    and "\<And>a. sa_flows_installed (f a) = sa_flows_installed a" "\<And>a. sa_flows_installed (g a) = sa_flows_installed a"
    and "sa_table (g (sp_app q)) = sa_table (f (sp_app p))" and "sa_bridge (g (sp_app q)) = sa_bridge (f (sp_app p))"
  shows "twins cs ds (upd_app f p) (upd_app g q)"
  using assms by (simp add: twins_def single_handles_def upd_app_def)

lemma twins_stamp: "twins cs ds p q \<Longrightarrow> twins cs ds (stamp E f p) (stamp E g q)"
  by (simp add: twins_def single_handles_def stamp_def upd_app_def)

lemma twins_core:
  "twins cs ds p q \<Longrightarrow> daim_core_emit NO_RULE c = daim_core_emit NO_RULE (sp_core p) \<Longrightarrow>
   daim_core_emit NO_RULE d = daim_core_emit NO_RULE (sp_core q) \<Longrightarrow> twins cs ds (p\<lparr>sp_core := c\<rparr>) (q\<lparr>sp_core := d\<rparr>)"
  by (simp add: twins_def single_handles_def)

lemma twins_app: "twins cs ds p q \<Longrightarrow> sa_table (sp_app q) = sa_table (sp_app p) \<and> sa_bridge (sp_app q) = sa_bridge (sp_app p)"
  by (simp add: twins_def)

lemma no_rule_twins:
  assumes "willing E" and "length (info_mac_dst info) = MAC_ADDR_LEN" and "valid_token (sa_bridge (sp_app p)) 63" and "twins cs ds p q"
  shows "\<exists>new. length new \<le> 1 \<and> twins cs (ds @ new) (single_no_rule E info p) (single_no_rule E info q)"
proof -
  let ?learned = "upd_app (\<lambda>a. a\<lparr>sa_no_rule_events := sa_no_rule_events a + 1,
                              sa_table := learn (sa_bridge a) (info_mac_src info) (info_in_port info) (sa_table a)\<rparr>)"
  let ?decided = "\<lambda>r. stamp E (\<lambda>t x. x\<lparr>decision_done_ns := t\<rparr>) (?learned r)"
  let ?out = "\<lambda>r. lookup_port (sa_table (sp_app (?learned r))) (sa_bridge (sp_app (?learned r))) (info_mac_dst info)"
  let ?written = "\<lambda>r. stamp E (\<lambda>t x. x\<lparr>table_write_done_ns := t, lt_installed := 0\<rparr>)
      ((?decided r)\<lparr>sp_core := snd (daim_table_write DAIM_PACKET_FORWARDING_TABLE (Some (forwarding_row info (?out r))) ADD (sp_core (?decided r)))\<rparr>)"
  have learned: "twins cs ds (?learned p) (?learned q)"
    by (rule twins_upd [OF assms(4)]) (simp_all add: twins_app [OF assms(4)])
  have out: "?out q = ?out p" by (simp only: twins_app [OF learned])
  have written: "twins cs ds (?written p) (?written q)"
    by (intro twins_stamp twins_core [OF twins_stamp [OF learned]]) simp_all
  have bridge: "sa_bridge (sp_app (?written p)) = sa_bridge (sp_app p)" "sa_bridge (sp_app (?written q)) = sa_bridge (sp_app p)"
    using twins_app [OF written] by (simp_all add: stamp_def upd_app_def)
  have finish: "twins cs ds' (upd_app (\<lambda>a. a\<lparr>sa_decided := ?out p\<rparr>) (stamp E (\<lambda>t x. x\<lparr>install_done_ns := t\<rparr>) r))
      (upd_app (\<lambda>a. a\<lparr>sa_decided := ?out p\<rparr>) (stamp E (\<lambda>t x. x\<lparr>install_done_ns := t\<rparr>) r'))" if "twins cs ds' r r'" for ds' r r'
    using twins_stamp [OF that] by (rule twins_upd) (simp_all add: twins_app [OF that])
  show ?thesis
  proof (cases "?out p = PORT_FLOOD")
    case True
    then have "twins cs (ds @ []) (single_no_rule E info p) (single_no_rule E info q)"
      using finish [OF written] out unfolding single_no_rule_def Let_def by simp
    then show ?thesis by (intro exI [of _ "[]"]) simp
  next
    case False
    let ?d = "(sa_bridge (sp_app p), info_in_port info, info_mac_dst info, ?out p)"
    note installed = install_twins [OF assms(1-3) written, of "info_in_port info" "?out p"]
    have timed: "twins cs (ds @ [?d]) (upd_app (\<lambda>a. a\<lparr>sa_timing := (sa_timing a)\<lparr>lt_installed := 1\<rparr>\<rparr>) 
          (single_install_flow E (sa_bridge (sp_app p)) (info_in_port info) (info_mac_dst info) (?out p) (?written p)))
        (upd_app (\<lambda>a. a\<lparr>sa_timing := (sa_timing a)\<lparr>lt_installed := 1\<rparr>\<rparr>) 
          (single_install_flow E (sa_bridge (sp_app p)) (info_in_port info) (info_mac_dst info) (?out p) (?written q)))"
      by (rule twins_upd [OF installed]) (simp_all add: twins_app [OF installed] twins_app [OF assms(4)])
    have "twins cs (ds @ [?d]) (single_no_rule E info p) (single_no_rule E info q)"
      using finish [OF timed] False out bridge unfolding single_no_rule_def Let_def by simp
    then show ?thesis by (intro exI [of _ "[?d]"]) simp
  qed
qed

lemma packet_twins:
  assumes "willing E" and "length (info_mac_dst info) = MAC_ADDR_LEN" and "valid_token bridge 63" and "twins cs ds p q"
  shows "\<exists>new. length new \<le> 1 \<and>
    twins cs (ds @ new) (snd (daim_learning_app_packet_in E bridge info p)) (snd (daim_learning_app_packet_in E bridge info q))"
proof -
  let ?named = "\<lambda>r. upd_app (\<lambda>a. a\<lparr>sa_bridge := take (MAX_BRIDGE_LEN - 1) bridge\<rparr>) (stamp E (\<lambda>t x. x\<lparr>entry_ns := t\<rparr>) r)"
  have named: "twins cs ds (?named p) (?named q)"
    using twins_stamp [OF assms(4)] by (rule twins_upd) (simp_all add: twins_app [OF assms(4)])
  have bridge: "sa_bridge (sp_app (?named p)) = bridge"
    using assms(3) by (simp add: valid_token_def MAX_BRIDGE_LEN_def upd_app_def)
  obtain new where new: "length new \<le> 1" "twins cs (ds @ new) (single_no_rule E info (?named p)) (single_no_rule E info (?named q))"
    using no_rule_twins [OF assms(1,2) _ named] bridge assms(3) by auto
  have ready: "sa_ready (sp_app p)" "sa_ready (sp_app q)" "daim_core_emit NO_RULE (sp_core (?named p)) = Some single_on_no_rule"
    "daim_core_emit NO_RULE (sp_core (?named q)) = Some single_on_no_rule"
    using assms(4) named by (simp_all add: twins_def single_handles_def)
  then have "twins cs (ds @ new) (snd (daim_learning_app_packet_in E bridge info p)) (snd (daim_learning_app_packet_in E bridge info q))"
    using twins_stamp [OF new(2)] unfolding daim_learning_app_packet_in_def Let_def by simp
  with new(1) show ?thesis by blast
qed

lemma packets_twins:
  assumes "willing E" and "\<forall>(b, i) \<in> set ps. valid_token b 63 \<and> length (info_mac_dst i) = MAC_ADDR_LEN" and "twins cs ds p q"
  shows "\<exists>new. length new \<le> length ps \<and> twins cs (ds @ new) (handle_packets E ps p) (handle_packets E ps q)"
  using assms(2,3)
proof (induction ps arbitrary: p q ds)
  case Nil
  then show ?case by (simp add: handle_packets_def)
next
  case (Cons x ps)
  obtain b i where x: "x = (b, i)" by (cases x)
  obtain new where new: "length new \<le> 1" "twins cs (ds @ new) (snd (daim_learning_app_packet_in E b i p)) (snd (daim_learning_app_packet_in E b i q))"
    using packet_twins [OF assms(1), of i b cs ds p q] Cons.prems x by auto
  obtain more where "length more \<le> length ps" "twins cs ((ds @ new) @ more) (handle_packets E ps (snd (daim_learning_app_packet_in E b i p)))
      (handle_packets E ps (snd (daim_learning_app_packet_in E b i q)))"
    using Cons.IH [OF _ new(2)] Cons.prems(1) by auto
  then show ?case using new(1) x by (intro exI [of _ "new @ more"]) (simp add: handle_packets_def)
qed

lemma uint_count: "n < 2 ^ 50 \<Longrightarrow> uint (of_nat n :: u64) = int n" "n < 2 ^ 50 \<Longrightarrow> uint (96 * of_nat n :: u64) = 96 * int n"
proof -
  assume n: "n < 2 ^ 50"
  then show "uint (of_nat n :: u64) = int n" by (simp add: unsigned_of_nat take_bit_eq_mod)
  have "(96 * of_nat n :: u64) = of_nat (96 * n)" by simp
  with n show "uint (96 * of_nat n :: u64) = 96 * int n" by (simp only: unsigned_of_nat) (simp add: take_bit_eq_mod)
qed

text \<open>
  Property C31 (control traffic). The load profile asks for the control traffic of its adapter: over the persistent connection it reads the
  counters, for the command-per-rule adapter it computes bytes from the number of installed flows and a sample flow. On the same
  packets, with a connection and an executor that take everything, both say the same: the number of messages, and of bytes, that the connection
  has really carried. These are one flow-mod for every command of the other adapter, of the same decision and in the same order.
\<close>

theorem control_bytes_agree:
  assumes "\<forall>sent msg. se_transmit E sent msg = int (length msg)" and "\<forall>cs argv. se_exec E cs argv = 0"
    and "\<forall>(b, i) \<in> set ps. valid_token b 63 \<and> length (info_mac_dst i) = MAC_ADDR_LEN" and "length ps < 2 ^ 50"
    and "single_handles p" and "sa_adapter (sp_app p) = Persistent" and "sa_flows_installed (sp_app p) = 0" and "sp_context p = new_context"
    and "bg_mode cfg = ''persistent''" and "bg_mode cfg' = ''process_per_rule''"
    and "p1 = handle_packets E ps p" and "q1 = handle_packets E ps (upd_app (\<lambda>a. a\<lparr>sa_adapter := ProcessPerRule\<rparr>) p)"
  shows "(\<exists>ds. pc_sent (sp_context p1) = installed_messages 100 ds \<and> sp_commands q1 = sp_commands p @ map installed_command ds) \<and>
    control_traffic B cfg (uint (fst (snd (daim_learning_app_stats p1)))) p1 =
      (Inr (int (length (concat (pc_sent (sp_context p1)))), int (length (pc_sent (sp_context p1))), ''measured'', JInt 0), p1) \<and>
    control_traffic B cfg' (uint (fst (snd (daim_learning_app_stats q1)))) q1 =
      (Inr (int (length (concat (pc_sent (sp_context p1)))), int (length (pc_sent (sp_context p1))), ''computed_wire_format'', JNull), q1)"
proof -
  have "twins (sp_commands p) [] p (upd_app (\<lambda>a. a\<lparr>sa_adapter := ProcessPerRule\<rparr>) p)"
    using assms(5-8) by (simp add: twins_def new_context_def single_handles_def upd_app_def)
  from packets_twins [OF _ assms(3) this, of E] assms(1,2) obtain ds
    where ds: "length ds \<le> length ps" "twins (sp_commands p) ds p1 q1"
    by (auto simp: willing_def assms(11,12))
  then have small: "length ds < 2 ^ 50" using assms(4) by simp
  note run = ds(2) [unfolded twins_def]
  have conn: "pc_sent (sp_context p1) = installed_messages 100 ds" "pa_bytes_sent (pc_stats (sp_context p1)) = 96 * of_nat (length ds)"
    "flow_mods_sent (pc_stats (sp_context p1)) = of_nat (length ds)" "echo_replies_sent (pc_stats (sp_context p1)) = 0"
    using run by simp_all
  have bytes: "int (length (concat (installed_messages 100 ds))) = 96 * int (length ds)"
    using run by (simp add: installed_bytes)
  have flows: "fst (snd (daim_learning_app_stats q1)) = of_nat (length ds)"
    using run by (simp add: daim_learning_app_stats_def single_handles_def)
  have "control_traffic B cfg k p1 = (Inr (int (length (concat (pc_sent (sp_context p1)))), int (length (pc_sent (sp_context p1))), ''measured'', JInt 0), p1)" for k
    using run assms(9) uint_count [OF small]
    by (simp add: control_traffic_def persistent_stats_dict_def adapter_get_stats_def conn bytes act_bind_def act_get_def act_return_def)
  moreover have "control_traffic B cfg' (uint (fst (snd (daim_learning_app_stats q1)))) q1 =
      (Inr (int (length (concat (pc_sent (sp_context p1)))), int (length (pc_sent (sp_context p1))), ''computed_wire_format'', JNull), q1)"
    using assms(10) uint_count [OF small]
    by (simp add: control_traffic_def flows conn bytes sample_flow_bytes act_bind_def act_lift_def act_return_def)
  ultimately show ?thesis using run conn(1) by (auto simp: upd_app_def)
qed

definition sample_persistent :: single_process where
  "sample_persistent = upd_app (\<lambda>a. a\<lparr>sa_adapter := Persistent\<rparr>) sample_single"

definition sample_run :: "single_process \<Rightarrow> single_process" where
  "sample_run = handle_packets sample_single_env [(''s1'', sample_frame_info 1 7 8), (''s1'', sample_frame_info 2 8 7)]"

text \<open>One flow for two packets: 96 bytes and one message in either mode.\<close>

theorem control_bytes_agree_witness:
  "let p1 = sample_run sample_persistent; q1 = sample_run (upd_app (\<lambda>a. a\<lparr>sa_adapter := ProcessPerRule\<rparr>) sample_persistent)
   in control_traffic sample_bridge_env (sample_bridge_config\<lparr>bg_mode := ''persistent''\<rparr>) (uint (fst (snd (daim_learning_app_stats p1)))) p1 =
        (Inr (96, 1, ''measured'', JInt 0), p1) \<and>
      control_traffic sample_bridge_env sample_bridge_config (uint (fst (snd (daim_learning_app_stats q1)))) q1 =
        (Inr (96, 1, ''computed_wire_format'', JNull), q1)"
proof -
  let ?ps = "[(''s1'', sample_frame_info 1 7 8), (''s1'', sample_frame_info 2 8 7)]"
  have start: "single_handles sample_persistent" "sa_adapter (sp_app sample_persistent) = Persistent"
      "sa_flows_installed (sp_app sample_persistent) = 0" "sp_context sample_persistent = new_context"
    using sample_single_simps
    by (simp_all add: sample_persistent_def single_handles_def sample_single_def daim_learning_app_init_def single_process0_def single_app0_def upd_app_def)
  have env: "\<forall>sent msg. se_transmit sample_single_env sent msg = int (length msg)" "\<forall>cs argv. se_exec sample_single_env cs argv = 0"
    "\<forall>(b, i) \<in> set ?ps. valid_token b 63 \<and> length (info_mac_dst i) = MAC_ADDR_LEN" "length ?ps < 2 ^ 50"
    by (simp_all add: sample_single_env_def sample_frame_info_def MAC_ADDR_LEN_def valid_token_def)
  have modes: "bg_mode (sample_bridge_config\<lparr>bg_mode := ''persistent''\<rparr>) = ''persistent''" "bg_mode sample_bridge_config = ''process_per_rule''"
    by (simp_all add: sample_bridge_config_def)
  have "pc_sent (sp_context (sample_run sample_persistent)) = [decision_message 100 2 [0, 0, 0, 0, 0, 7] 1]" by code_simp
  with control_bytes_agree [OF env start modes refl refl, of sample_bridge_env]
  show ?thesis by (simp add: sample_run_def [symmetric] Let_def length_decision_message)
qed

end
