(* ===== verification/Reactive_Baseline.thy ===== *)
theory Reactive_Baseline
  imports Bridge_Controller
begin

text \<open>
  The learning switch without DAIM that the single-core experiments compare with
  (\<open>network/osken_reactive_baseline_controller.py\<close>), and the agreement of the two: both forward every packet
  to the same port and install a flow for the same packets.
\<close>

subsection \<open>State\<close>

text \<open>\<open>mac_to_port\<close> maps a datapath id to a dictionary from addresses to ports.\<close>

type_synonym port_tables = "(u64 \<times> (string \<times> int) list) list"

record reactive_controller =
  rc_world :: world
  rc_ports :: port_tables
  rc_captured :: bool
  rc_bridges :: "(u64 \<times> string) list"
  rc_events :: "dict list"
  rc_sent :: "out_msg list"

text \<open>\<open>rv_max_len\<close> is the length limit the OpenFlow library puts into an output action that names none.\<close>

record reactive_env =
  rv_world :: env
  rv_ofproto :: ofproto
  rv_target_ip :: "string option"
  rv_max_len :: int

definition ReactiveController_init :: "world \<Rightarrow> reactive_controller" where
  "ReactiveController_init w = \<lparr>rc_world = w, rc_ports = [], rc_captured = False, rc_bridges = [], rc_events = [], rc_sent = []\<rparr>"

definition reactive_world :: "(world, 'a) act \<Rightarrow> (reactive_controller, 'a) act" where
  "reactive_world m s = (case m (rc_world s) of (r, w) \<Rightarrow> (r, s\<lparr>rc_world := w\<rparr>))"

definition reactive_emit :: "string \<Rightarrow> dict \<Rightarrow> (reactive_controller, unit) act" where
  "reactive_emit event kvs = act_modify (\<lambda>s. s\<lparr>rc_events := rc_events s @ [dict_merge [(''event'', JStr event)] kvs]\<rparr>)"

definition reactive_send :: "out_msg \<Rightarrow> (reactive_controller, unit) act" where
  "reactive_send m = act_modify (\<lambda>s. s\<lparr>rc_sent := rc_sent s @ [m]\<rparr>)"

subsection \<open>Bridge names and switch features\<close>

definition reactive_look_up :: "reactive_env \<Rightarrow> u64 \<Rightarrow> (reactive_controller, string) act" where
  "reactive_look_up E dpid =
     (let datapath_id = hex_pad 16 (unat dpid)
      in act_bind (reactive_world (run (rv_world E) (find_bridge_argv datapath_id))) (\<lambda>(rc, out).
           let name = py_strip_char (CHR 0x22) (py_strip out)
           in if name \<noteq> [] then act_bind (act_modify (\<lambda>s. s\<lparr>rc_bridges := (dpid, name) # rc_bridges s\<rparr>)) (\<lambda>_. act_return name)
              else act_return datapath_id))"

definition reactive_resolve :: "reactive_env \<Rightarrow> u64 \<Rightarrow> (reactive_controller, string) act" where
  "reactive_resolve E dpid =
     act_bind (act_get (\<lambda>s. map_of (rc_bridges s) dpid)) (\<lambda>found.
       case found of
         Some name \<Rightarrow> if name \<noteq> [] then act_return name else reactive_look_up E dpid
       | None \<Rightarrow> reactive_look_up E dpid)"

definition reactive_features :: "reactive_env \<Rightarrow> u64 \<Rightarrow> (reactive_controller, unit) act" where
  "reactive_features E dpid =
     act_bind (reactive_resolve E dpid) (\<lambda>_.
     act_bind (reactive_send (FlowMod 0 [] [(OFPP_CONTROLLER (rv_ofproto E), OFPCML_NO_BUFFER (rv_ofproto E))])) (\<lambda>_.
     reactive_emit ''ready'' [(''mode'', JStr ''reactive_osken'')]))"

subsection \<open>Packet-In\<close>

text \<open>\<open>mac_to_port.setdefault(dpid, {})\<close> and the assignment to the table it returns.\<close>

definition ports_of :: "port_tables \<Rightarrow> u64 \<Rightarrow> (string \<times> int) list" where
  "ports_of t dpid = (case map_of t dpid of None \<Rightarrow> [] | Some ports \<Rightarrow> ports)"

definition learn_port :: "u64 \<Rightarrow> string \<Rightarrow> int \<Rightarrow> port_tables \<Rightarrow> port_tables" where
  "learn_port dpid src in_port t = dict_put dpid (dict_put src in_port (ports_of t dpid)) t"

definition flow_match :: "int \<Rightarrow> string \<Rightarrow> (string \<times> string) list" where
  "flow_match in_port dst = [(''in_port'', py_str in_port), (''eth_dst'', dst)]"

text \<open>The timing report of a captured packet; \<open>stages\<close> are the times taken while it was handled.\<close>

definition reactive_report :: "reactive_env \<Rightarrow> u64 \<Rightarrow> string \<Rightarrow> (string \<times> json) list \<Rightarrow> (reactive_controller, unit) act" where
  "reactive_report E dpid dst stages =
     act_bind (reactive_resolve E dpid) (\<lambda>bridge.
     act_bind (reactive_world (monotonic (rv_world E))) (\<lambda>t.
     act_bind (reactive_world (confirm_loop (rv_world E) bridge (''dl_dst='' @ dst) (t + CONFIRM_TIMEOUT_S))) (\<lambda>t_confirmed.
       reactive_emit ''timing''
         ((''mode'', JStr ''reactive_osken'') # stages @
          [(''t_confirmed_ns'', opt_int t_confirmed), (''installed'', JBool True), (''confirmed'', JBool (t_confirmed \<noteq> None))]))))"

text \<open>From the decision on: the flow-mod, the packet-out, and the report; \<open>stages\<close> are the first four times.\<close>

definition reactive_deliver ::
    "reactive_env \<Rightarrow> bridge_event \<Rightarrow> string \<Rightarrow> (string \<times> json) list \<Rightarrow> int \<Rightarrow> bool \<Rightarrow> (reactive_controller, unit) act" where
  "reactive_deliver E ev dst stages out_port capture =
     act_bind
       (if out_port \<noteq> OFPP_FLOOD (rv_ofproto E) then
          act_bind (reactive_send (FlowMod 100 (flow_match (pe_in_port ev) dst) [(out_port, rv_max_len E)])) (\<lambda>_.
          act_bind (reactive_world (perf_counter_ns (rv_world E))) (\<lambda>t.
          act_bind (if capture then act_modify (\<lambda>s. s\<lparr>rc_captured := True\<rparr>) else act_return ()) (\<lambda>_.
            act_return (Some t))))
        else act_return None) (\<lambda>t_flowmod_sent.
     act_bind (reactive_send (PacketOut (pe_buffer_id ev) (pe_in_port ev) [out_port]
         (if pe_buffer_id ev = OFP_NO_BUFFER (rv_ofproto E) then Some (pe_data ev) else None))) (\<lambda>_.
     act_bind (reactive_world (perf_counter_ns (rv_world E))) (\<lambda>t_packetout_sent.
       if capture then
         reactive_report E (pe_dpid ev) dst
           (stages @ [(''t_flowmod_sent_ns'', opt_int t_flowmod_sent), (''t_packetout_sent_ns'', JInt t_packetout_sent)])
       else act_return ())))"

definition reactive_packet_in :: "reactive_env \<Rightarrow> bridge_event \<Rightarrow> (reactive_controller, unit) act" where
  "reactive_packet_in E ev =
     act_bind (reactive_world (perf_counter_ns (rv_world E))) (\<lambda>t_dispatch_enter.
     case pe_ethernet ev of
       None \<Rightarrow> act_return ()
     | Some (src, dst, ethertype) \<Rightarrow>
         let ip_pkt = (if ethertype = ETH_TYPE_IP then be_ipv4 ev else None);
             flood = OFPP_FLOOD (rv_ofproto E)
         in
         act_bind (reactive_world (perf_counter_ns (rv_world E))) (\<lambda>t_parse_done.
         act_bind (act_modify (\<lambda>s. s\<lparr>rc_ports := learn_port (pe_dpid ev) src (pe_in_port ev) (rc_ports s)\<rparr>)) (\<lambda>_.
         act_bind (reactive_world (perf_counter_ns (rv_world E))) (\<lambda>t_state_update_done.
         act_bind (act_get (\<lambda>s. case map_of (ports_of (rc_ports s) (pe_dpid ev)) dst of None \<Rightarrow> flood | Some p \<Rightarrow> p)) (\<lambda>out_port.
         act_bind (reactive_world (perf_counter_ns (rv_world E))) (\<lambda>t_decision_done.
         act_bind (act_get (\<lambda>s. \<not> rc_captured s \<and> rv_target_ip E \<noteq> None \<and> ip_pkt \<noteq> None \<and>
             map_option snd ip_pkt = rv_target_ip E \<and> out_port \<noteq> flood)) (\<lambda>capture.
           reactive_deliver E ev dst
             [(''t_dispatch_enter_ns'', JInt t_dispatch_enter), (''t_parse_done_ns'', JInt t_parse_done),
              (''t_state_update_done_ns'', JInt t_state_update_done), (''t_decision_done_ns'', JInt t_decision_done)]
             out_port capture)))))))"

subsection \<open>What a packet does\<close>

text \<open>Reports and clock readings leave the tables and the messages alone.\<close>

definition forward_view :: "reactive_controller \<Rightarrow> port_tables \<times> out_msg list" where
  "forward_view s = (rc_ports s, rc_sent s)"

lemma preserves_forward [preserves_intros]:
  "preserves forward_view (reactive_world m)" "preserves forward_view (reactive_emit ev kvs)"
  by (simp_all add: preserves_def reactive_world_def reactive_emit_def act_modify_def forward_view_def split: prod.splits)

lemma preserves_reactive_resolve [preserves_intros]: "preserves forward_view (reactive_resolve E dpid)"
  by (auto simp: reactive_resolve_def reactive_look_up_def Let_def forward_view_def intro!: preserves_intros split: option.splits)

lemma preserves_reactive_report [preserves_intros]: "preserves forward_view (reactive_report E dpid dst stages)"
  by (auto simp: reactive_report_def intro!: preserves_intros)

lemma act_bind_steps:
  "act_bind (act_modify h) (k :: unit \<Rightarrow> ('s, 'b) act) s = k () (h s)" "act_bind (act_get g) (l :: 'a \<Rightarrow> ('s, 'b) act) s = l (g s) s"
  "act_bind (act_return x) (l :: 'a \<Rightarrow> ('s, 'b) act) s = l x s"
  by (simp_all add: act_bind_def act_modify_def act_get_def act_return_def)

lemma act_bind_assoc: "act_bind (act_bind m k) k' = act_bind m (\<lambda>x. act_bind (k x) k')"
  by (auto simp: fun_eq_iff act_bind_def split: prod.splits sum.splits)

lemma reactive_clock:
  "act_bind (reactive_world (perf_counter_ns E)) f s =
     f \<lfloor>w_now (perform E Clock (rc_world s)) * 10 ^ 9\<rfloor> (s\<lparr>rc_world := perform E Clock (rc_world s)\<rparr>)"
  by (simp add: reactive_world_def perf_counter_ns_def monotonic_def act_bind_def act_return_def Let_def)

lemma forward_after:
  "preserves forward_view m \<Longrightarrow> forward_view (snd ((if capture then m else act_return ()) s)) = forward_view s"
  by (simp add: preserves_def act_return_def)

definition known_port :: "port_tables \<Rightarrow> u64 \<times> string \<Rightarrow> int option" where
  "known_port t k = map_of (ports_of t (fst k)) (snd k)"

lemma known_learn: "known_port (learn_port d m i t) k = (if (d, m) = k then Some i else known_port t k)"
  by (cases k) (auto simp: known_port_def learn_port_def ports_of_def)

text \<open>The messages and the table after a packet, whether its report is printed or fails.\<close>

definition baseline_out :: "reactive_env \<Rightarrow> port_tables \<Rightarrow> u64 \<Rightarrow> string \<Rightarrow> int" where
  "baseline_out E t dpid dst = (case known_port t (dpid, dst) of None \<Rightarrow> OFPP_FLOOD (rv_ofproto E) | Some p \<Rightarrow> p)"

lemma reactive_deliver_view:
  "forward_view (snd (reactive_deliver E ev dst stages out_port capture s)) = (rc_ports s, rc_sent s @
     (if out_port \<noteq> OFPP_FLOOD (rv_ofproto E) then [FlowMod 100 (flow_match (pe_in_port ev) dst) [(out_port, rv_max_len E)]] else []) @
     [PacketOut (pe_buffer_id ev) (pe_in_port ev) [out_port]
        (if pe_buffer_id ev = OFP_NO_BUFFER (rv_ofproto E) then Some (pe_data ev) else None)])"
proof -
  have report: "forward_view (snd (reactive_report E d m ss s')) = forward_view s'" for d m ss s'
    using preserves_reactive_report by (simp add: preserves_def)
  show ?thesis
    by (cases "out_port = OFPP_FLOOD (rv_ofproto E)"; cases capture)
      (simp_all add: reactive_deliver_def act_bind_steps act_bind_assoc reactive_send_def reactive_clock report act_return_def,
       simp_all add: forward_view_def)
qed

lemma reactive_packet_view:
  assumes "pe_ethernet ev = Some (src, dst, ethertype)"
  defines "t s \<equiv> learn_port (pe_dpid ev) src (pe_in_port ev) (rc_ports s)"
  shows "forward_view (snd (reactive_packet_in E ev s)) = (t s, rc_sent s @
     (if baseline_out E (t s) (pe_dpid ev) dst \<noteq> OFPP_FLOOD (rv_ofproto E)
      then [FlowMod 100 (flow_match (pe_in_port ev) dst) [(baseline_out E (t s) (pe_dpid ev) dst, rv_max_len E)]] else []) @
     [PacketOut (pe_buffer_id ev) (pe_in_port ev) [baseline_out E (t s) (pe_dpid ev) dst]
        (if pe_buffer_id ev = OFP_NO_BUFFER (rv_ofproto E) then Some (pe_data ev) else None)])"
  unfolding reactive_packet_in_def assms(1) Let_def option.case prod.case reactive_clock act_bind_steps reactive_deliver_view
  by (simp add: baseline_out_def known_port_def t_def)

end
