(* ===== verification/Reactive_Laws.thy ===== *)
theory Reactive_Laws
  imports Reactive_Baseline
begin

text \<open>
  The two learning switches of the single-core experiments do the same work: for the same packets the
  baseline without DAIM sends every packet where the DAIM application sends it, and installs a flow exactly
  when that one does.
\<close>

subsection \<open>The baseline's tables as a store\<close>

text \<open>A key is a datapath and an address. The dictionaries have room for any number of keys.\<close>

definition found_port :: "int \<Rightarrow> port_tables \<Rightarrow> u64 \<times> string \<Rightarrow> int" where
  "found_port flood t k = (case known_port t k of None \<Rightarrow> flood | Some p \<Rightarrow> p)"

definition put_port :: "u64 \<times> string \<Rightarrow> int \<Rightarrow> port_tables \<Rightarrow> port_tables" where
  "put_port k p t = learn_port (fst k) (snd k) p t"

interpretation baseline: port_store "found_port flood" put_port "(=)" "\<lambda>_. 0" n for flood n
  by unfold_locales (simp_all add: found_port_def put_port_def known_learn)

subsection \<open>The same packets\<close>

text \<open>What the parser hands to the controllers for a packet, and what the DAIM application is told.\<close>

definition carries :: "bridge_event \<Rightarrow> no_rule_packet_info \<Rightarrow> bool" where
  "carries ev i \<longleftrightarrow> pe_in_port ev = uint (info_in_port i) \<and> length (info_mac_src i) = 6 \<and> length (info_mac_dst i) = 6 \<and>
     map_option (\<lambda>(src, dst, t). (src, dst)) (pe_ethernet ev) =
       Some (mac_bytes_to_str (info_mac_src i), mac_bytes_to_str (info_mac_dst i))"

definition reactive_run :: "reactive_env \<Rightarrow> bridge_event list \<Rightarrow> reactive_controller \<Rightarrow> reactive_controller" where
  "reactive_run E evs s = fold (\<lambda>ev s. snd (reactive_packet_in E ev s)) evs s"

definition port_of_event :: "bridge_event \<times> no_rule_packet_info \<Rightarrow> (u64 \<times> string) \<times> int" where
  "port_of_event = (\<lambda>(ev, i). ((pe_dpid ev, mac_bytes_to_str (info_mac_src i)), uint (info_in_port i)))"

lemma mac_text_inject:
  assumes "length a = 6" and "length b = 6"
  shows "mac_bytes_to_str a = mac_bytes_to_str b \<longleftrightarrow> a = b"
proof
  assume "mac_bytes_to_str a = mac_bytes_to_str b"
  moreover have "a \<noteq> []" "b \<noteq> []" using assms by auto
  ultimately have "(Inr (map uint a) :: int list res) = Inr (map uint b)" using mac_str_round [of a] mac_str_round [of b] by metis
  then have "map uint a = map uint b" by simp
  moreover have "inj (uint :: u8 \<Rightarrow> int)" by (rule injI) (rule word_uint_eqI)
  ultimately show "a = b" by (simp add: inj_map_eq_map)
qed simp

lemma reactive_step:
  assumes "carries ev i"
  defines "t s \<equiv> put_port (pe_dpid ev, mac_bytes_to_str (info_mac_src i)) (uint (info_in_port i)) (rc_ports s)"
  defines "out E s \<equiv> found_port (OFPP_FLOOD (rv_ofproto E)) (t s) (pe_dpid ev, mac_bytes_to_str (info_mac_dst i))"
  shows "rc_ports (snd (reactive_packet_in E ev s)) = t s"
    and "rc_sent (snd (reactive_packet_in E ev s)) = rc_sent s @
      (if out E s = OFPP_FLOOD (rv_ofproto E) then []
       else [FlowMod 100 (flow_match (pe_in_port ev) (mac_bytes_to_str (info_mac_dst i))) [(out E s, rv_max_len E)]]) @
      [PacketOut (pe_buffer_id ev) (pe_in_port ev) [out E s]
        (if pe_buffer_id ev = OFP_NO_BUFFER (rv_ofproto E) then Some (pe_data ev) else None)]"
proof -
  obtain ty where "pe_ethernet ev = Some (mac_bytes_to_str (info_mac_src i), mac_bytes_to_str (info_mac_dst i), ty)"
    using assms(1) by (auto simp: carries_def)
  from reactive_packet_view [OF this, of E s] assms(1)
  show "rc_ports (snd (reactive_packet_in E ev s)) = t s"
    and "rc_sent (snd (reactive_packet_in E ev s)) = rc_sent s @
      (if out E s = OFPP_FLOOD (rv_ofproto E) then []
       else [FlowMod 100 (flow_match (pe_in_port ev) (mac_bytes_to_str (info_mac_dst i))) [(out E s, rv_max_len E)]]) @
      [PacketOut (pe_buffer_id ev) (pe_in_port ev) [out E s]
        (if pe_buffer_id ev = OFP_NO_BUFFER (rv_ofproto E) then Some (pe_data ev) else None)]"
    by (simp_all add: forward_view_def carries_def t_def out_def put_port_def found_port_def baseline_out_def)
qed

lemma reactive_run_ports:
  "\<forall>(ev, i) \<in> set ps. carries ev i \<Longrightarrow>
   rc_ports (reactive_run E (map fst ps) s) = baseline.puts (map port_of_event ps) (rc_ports s)"
proof (induction ps arbitrary: s)
  case (Cons x ps)
  obtain ev i where x: "x = (ev, i)" by (cases x)
  then have c: "carries ev i" using Cons.prems by simp
  have "rc_ports (reactive_run E (map fst ps) (snd (reactive_packet_in E ev s))) =
      baseline.puts (map port_of_event ps) (rc_ports (snd (reactive_packet_in E ev s)))"
    using Cons by simp
  then show ?case unfolding reactive_step(1) [OF c] by (simp add: reactive_run_def x port_of_event_def baseline.puts_def)
qed (simp add: reactive_run_def baseline.puts_def)

text \<open>The last input port of an address, as the baseline's tables and as the DAIM table know it.\<close>

definition known_packets :: "(u64 \<Rightarrow> string) \<Rightarrow> (bridge_event \<times> no_rule_packet_info) list \<Rightarrow> (string \<times> no_rule_packet_info) list" where
  "known_packets name ps = map (\<lambda>(ev, i). (name (pe_dpid ev), i)) ps"

lemma baseline_last_port:
  assumes "\<forall>(ev, i) \<in> set ps. carries ev i" and "inj name" and "length m = 6"
  shows "found_port flood (baseline.puts (map port_of_event ps) []) (d, mac_bytes_to_str m) =
    (if filter (\<lambda>(b, i). b = name d \<and> mac_eq (info_mac_src i) m) (known_packets name ps) = [] then flood
     else uint (last_port (known_packets name ps) (name d) m))"
proof -
  let ?P = "\<lambda>(ev, i). pe_dpid ev = d \<and> info_mac_src i = m"
  have same: "filter (\<lambda>(k, v). k = (d, mac_bytes_to_str m)) (map port_of_event ps) = map port_of_event (filter ?P ps)"
    using assms(1,3) by (auto simp: filter_map port_of_event_def carries_def mac_text_inject intro!: arg_cong [of _ _ "map _"] filter_cong)
  have eq: "mac_eq (info_mac_src i) m \<longleftrightarrow> info_mac_src i = m" if "(ev, i) \<in> set ps" for ev i
    using that assms(1,3) by (fastforce simp: mac_eq_def carries_def MAC_ADDR_LEN_def)
  have known: "filter (\<lambda>(b, i). b = name d \<and> mac_eq (info_mac_src i) m) (known_packets name ps) =
      map (\<lambda>(ev, i). (name (pe_dpid ev), i)) (filter ?P ps)"
    unfolding known_packets_def filter_map using eq injD [OF assms(2)]
    by (fastforce intro!: arg_cong [of _ _ "map _"] filter_cong)
  have empty: "found_port flood [] k = flood" for k by (simp add: found_port_def known_port_def ports_of_def)
  have "0 + length (map port_of_event ps) \<le> length ps" by simp
  from baseline.find_puts [OF this, of flood "[]" "(d, mac_bytes_to_str m)"] show ?thesis
    unfolding same known last_port_def empty
    by (cases "filter ?P ps") (auto simp: port_of_event_def last_map split: prod.splits)
qed

lemma last_port_cases:
  fixes bridge m ps
  defines "xs \<equiv> filter (\<lambda>(b, i). b = bridge \<and> mac_eq (info_mac_src i) m) ps"
  shows "xs = [] \<Longrightarrow> last_port ps bridge m = PORT_FLOOD"
    and "xs \<noteq> [] \<Longrightarrow> \<exists>x \<in> set ps. last_port ps bridge m = info_in_port (snd x)"
proof -
  show "xs = [] \<Longrightarrow> last_port ps bridge m = PORT_FLOOD" by (simp add: last_port_def xs_def)
  assume "xs \<noteq> []"
  then have "last_port ps bridge m = info_in_port (snd (last xs))"
    unfolding last_port_def xs_def [symmetric] by (cases xs) simp_all
  moreover have "last xs \<in> set ps" using last_in_set [OF \<open>xs \<noteq> []\<close>] unfolding xs_def by simp
  ultimately show "\<exists>x \<in> set ps. last_port ps bridge m = info_in_port (snd x)" by blast
qed

text \<open>
  Property C32 (matched baseline). Given the same packets from the start, the learning switch without DAIM and the DAIM
  application decide alike: on every further packet the baseline floods when the application floods, and
  otherwise installs a flow for the packet's port and destination and sends the packet out, both through the port of the
  application's decision, for which that one issues its one flow command.
\<close>

theorem baseline_forwards_alike:
  assumes "\<forall>(ev, i) \<in> set (ps @ [(ev, i)]). carries ev i \<and> info_in_port i \<noteq> PORT_FLOOD \<and>
      uint (info_in_port i) \<noteq> OFPP_FLOOD (rv_ofproto E) \<and> valid_token (name (pe_dpid ev)) 63"
    and "inj name" and "length ps < MAX_ENTRIES"
    and "single_handles p" and "sa_table (sp_app p) = []" and "sa_adapter (sp_app p) = ProcessPerRule" and "rc_ports s = []"
  shows "\<exists>decision p'. daim_learning_app_packet_in F (name (pe_dpid ev)) i (handle_packets F (known_packets name ps) p) = (decision, p') \<and>
    (decision = PORT_FLOOD \<longleftrightarrow> sp_commands p' = sp_commands (handle_packets F (known_packets name ps) p)) \<and>
    rc_sent (snd (reactive_packet_in E ev (reactive_run E (map fst ps) s))) = rc_sent (reactive_run E (map fst ps) s) @
      (if decision = PORT_FLOOD then []
       else [FlowMod 100 (flow_match (pe_in_port ev) (mac_bytes_to_str (info_mac_dst i))) [(uint decision, rv_max_len E)]]) @
      [PacketOut (pe_buffer_id ev) (pe_in_port ev) [if decision = PORT_FLOOD then OFPP_FLOOD (rv_ofproto E) else uint decision]
        (if pe_buffer_id ev = OFP_NO_BUFFER (rv_ofproto E) then Some (pe_data ev) else None)]"
proof -
  let ?all = "ps @ [(ev, i)]" and ?q = "handle_packets F (known_packets name ps) p" and ?d = "pe_dpid ev" and ?m = "info_mac_dst i"
  let ?decision = "last_port (known_packets name ?all) (name ?d) ?m"
  have c: "carries ev i" and cs: "\<forall>(ev, i) \<in> set ?all. carries ev i" and m: "length ?m = 6" and bridge: "valid_token (name ?d) 63"
    using assms(1) by (auto simp: carries_def)
  then have short: "length (name ?d) < MAX_BRIDGE_LEN" "take (MAX_BRIDGE_LEN - 1) (name ?d) = name ?d"
    by (simp_all add: valid_token_def MAX_BRIDGE_LEN_def)
  have names: "\<forall>(b, i) \<in> set (known_packets name ?all). length b < MAX_BRIDGE_LEN"
    using assms(1) by (auto simp: known_packets_def valid_token_def MAX_BRIDGE_LEN_def)
  have q: "single_handles ?q" "sa_table (sp_app ?q) = learned.puts (map source_of (known_packets name ps)) []" "sa_adapter (sp_app ?q) = ProcessPerRule"
    using handle_packets_state [OF assms(4), of F "known_packets name ps"] assms(5,6) by simp_all
  have table: "put_key (name ?d, info_mac_src i) (info_in_port i) (sa_table (sp_app ?q)) =
      learned.puts (map source_of (known_packets name ?all)) []"
    unfolding q(2) by (simp add: learned.puts_def source_of_def known_packets_def)
  have decision: "find_key (learned.puts (map source_of (known_packets name ?all)) []) (name ?d, ?m) = ?decision"
    by (rule puts_last_port) (use assms(3) names short(1) in \<open>auto simp: known_packets_def\<close>)
  have "rc_ports (reactive_run E (map fst ps) s) = baseline.puts (map port_of_event ps) []"
    using reactive_run_ports [of ps E s] cs assms(7) by auto
  then have ports: "put_port (?d, mac_bytes_to_str (info_mac_src i)) (uint (info_in_port i)) (rc_ports (reactive_run E (map fst ps) s)) =
      baseline.puts (map port_of_event ?all) []"
    by (simp add: baseline.puts_def port_of_event_def)
  let ?from = "filter (\<lambda>(b, i). b = name ?d \<and> mac_eq (info_mac_src i) ?m) (known_packets name ?all)"
  have found: "found_port (OFPP_FLOOD (rv_ofproto E)) (baseline.puts (map port_of_event ?all) []) (?d, mac_bytes_to_str ?m) =
      (if ?from = [] then OFPP_FLOOD (rv_ofproto E) else uint ?decision)"
    by (rule baseline_last_port [OF cs assms(2) m])
  have real: "\<forall>x \<in> set (known_packets name ?all). info_in_port (snd x) \<noteq> PORT_FLOOD \<and> uint (info_in_port (snd x)) \<noteq> OFPP_FLOOD (rv_ofproto E)"
    using assms(1) by (auto simp: known_packets_def)
  have flooded: "?from = [] \<Longrightarrow> ?decision = PORT_FLOOD"
    and sent: "?from \<noteq> [] \<Longrightarrow> ?decision \<noteq> PORT_FLOOD \<and> uint ?decision \<noteq> OFPP_FLOOD (rv_ofproto E)"
    using last_port_cases [where bridge = "name ?d" and m = ?m and ps = "known_packets name ?all"] real by metis+
  have out: "found_port (OFPP_FLOOD (rv_ofproto E)) (baseline.puts (map port_of_event ?all) []) (?d, mac_bytes_to_str ?m) =
      (if ?decision = PORT_FLOOD then OFPP_FLOOD (rv_ofproto E) else uint ?decision)"
    "?decision \<noteq> PORT_FLOOD \<Longrightarrow> uint ?decision \<noteq> OFPP_FLOOD (rv_ofproto E)"
    unfolding found using flooded sent by (cases "?from = []"; simp only: if_True if_False; blast?)+
  show ?thesis
    using single_packet(1) [OF q(1), of F "name ?d" i] single_packet(5) [OF q(1,3), of i "name ?d" F] m bridge short(2)
      reactive_step(2) [OF c, of E "reactive_run E (map fst ps) s"] out
    by (cases "daim_learning_app_packet_in F (name ?d) i ?q") (simp add: table decision ports MAC_ADDR_LEN_def)
qed

definition matched_ofproto :: ofproto where
  "matched_ofproto = \<lparr>OFPP_CONTROLLER = 0xfffffffd, OFPCML_NO_BUFFER = 0xffff, OFPP_FLOOD = 0xfffffffb, OFP_NO_BUFFER = 0xffffffff\<rparr>"

definition sample_event :: "u16 \<Rightarrow> u8 \<Rightarrow> u8 \<Rightarrow> bridge_event" where
  "sample_event port src dst = \<lparr>pe_dpid = 1, pe_in_port = uint port, pe_buffer_id = 7, pe_data = [],
     pe_ethernet = Some (mac_bytes_to_str [0, 0, 0, 0, 0, src], mac_bytes_to_str [0, 0, 0, 0, 0, dst], 0x800), be_ipv4 = None\<rparr>"

definition sample_reactive_env :: reactive_env where
  "sample_reactive_env = \<lparr>rv_world = quiet_env, rv_ofproto = matched_ofproto, rv_target_ip = None, rv_max_len = 0xffe5\<rparr>"

theorem baseline_forwards_alike_witness:
  "\<exists>first. rc_sent (snd (reactive_packet_in sample_reactive_env (sample_event 2 8 7)
      (reactive_run sample_reactive_env [sample_event 1 7 8] (ReactiveController_init quiet_world)))) =
    first @ [FlowMod 100 (flow_match 2 (mac_bytes_to_str [0, 0, 0, 0, 0, 7])) [(1, 0xffe5)], PacketOut 7 2 [1] None]"
proof -
  let ?name = "\<lambda>d :: u64. switch_name (unat d)" and ?ps = "[(sample_event 1 7 8, sample_frame_info 1 7 8)]"
  have name: "inj ?name" by (rule injI) (simp add: word_unat_eq_iff)
  have token: "valid_token (?name 1) 63" by code_simp
  have all: "\<forall>(ev, i) \<in> set (?ps @ [(sample_event 2 8 7, sample_frame_info 2 8 7)]). carries ev i \<and> info_in_port i \<noteq> PORT_FLOOD \<and>
      uint (info_in_port i) \<noteq> OFPP_FLOOD (rv_ofproto sample_reactive_env) \<and> valid_token (?name (pe_dpid ev)) 63"
    using token by (simp add: carries_def sample_event_def sample_frame_info_def PORT_FLOOD_def sample_reactive_env_def matched_ofproto_def)
  have "fst (daim_learning_app_packet_in sample_single_env (?name 1) (sample_frame_info 2 8 7)
      (handle_packets sample_single_env (known_packets ?name ?ps) sample_single)) = 1"
    by code_simp
  with baseline_forwards_alike [OF all name, of sample_single "ReactiveController_init quiet_world" sample_single_env]
  show ?thesis
    by (auto simp: sample_single_simps MAX_ENTRIES_def ReactiveController_init_def sample_event_def sample_frame_info_def
      sample_reactive_env_def matched_ofproto_def PORT_FLOOD_def)
qed

end
