(* ===== verification/Cluster_Attempts.thy ===== *)
theory Cluster_Attempts
  imports Gate_Main
begin

text \<open>
  Starting a cluster inside a try block, as the scaling gate and the no-exchange gate do: the dictionary
  \<open>nodes\<close> holds the processes spawned so far, and the handler of an exception stops exactly those.
\<close>

subsection \<open>The nodes spawned so far\<close>

type_synonym starting = "world \<times> nat list"

definition on_start :: "(world, 'a) act \<Rightarrow> (starting, 'a) act" where
  "on_start m s = (case m (fst s) of (r, w) \<Rightarrow> (r, (w, snd s)))"

text \<open>\<open>nodes = {}; try: m; except Exception as e: h nodes e\<close>.\<close>

definition with_nodes :: "(starting, 'a) act \<Rightarrow> (nat list \<Rightarrow> py_error \<Rightarrow> (world, 'a) act) \<Rightarrow> (world, 'a) act" where
  "with_nodes m h w =
     (case m (w, []) of
        (Inl e, (w', nodes)) \<Rightarrow> h nodes e w'
      | (Inr x, (w', nodes)) \<Rightarrow> (Inr x, w'))"

definition spawn_each :: "env \<Rightarrow> (nat \<Rightarrow> (world, unit) act) \<Rightarrow> rat \<Rightarrow> nat list \<Rightarrow> (starting, unit) act" where
  "spawn_each E spawn stagger =
     act_each (\<lambda>i. act_bind (on_start (spawn i)) (\<lambda>_.
       act_bind (act_modify (\<lambda>(w, nodes). (w, nodes @ [i]))) (\<lambda>_. on_start (sleep E stagger))))"

definition await_node :: "env \<Rightarrow> rat \<Rightarrow> (nat \<Rightarrow> string) \<Rightarrow> nat \<Rightarrow> (world, unit) act" where
  "await_node E timeout message i =
     act_bind (wait_for E i is_ready timeout) (\<lambda>ready.
       case ready of None \<Rightarrow> act_raise (RuntimeError (message i)) | Some _ \<Rightarrow> act_return ())"

text \<open>The body of the try block: spawn, connect the switches, wait for every node.\<close>

definition start_nodes ::
    "env \<Rightarrow> (nat \<Rightarrow> (world, unit) act) \<Rightarrow> rat \<Rightarrow> rat \<Rightarrow> (nat \<Rightarrow> string) \<Rightarrow> nat list \<Rightarrow> (starting, nat list) act" where
  "start_nodes E spawn stagger timeout message ids =
     act_bind (spawn_each E spawn stagger ids) (\<lambda>_.
     act_bind (act_get snd) (\<lambda>nodes.
     act_bind (on_start (act_each (set_controller E) nodes)) (\<lambda>_.
     act_bind (on_start (act_each (await_node E timeout message) nodes)) (\<lambda>_.
       act_return nodes))))"

definition attempt_failed :: "env \<Rightarrow> dict \<Rightarrow> nat \<Rightarrow> nat \<Rightarrow> py_error \<Rightarrow> (world, unit) act" where
  "attempt_failed E extra attempt attempts exc =
     do_action E (RecordRaw ''gate_driver''
       ((''event'', JStr ''cluster_start_attempt_failed'') # extra @
        [(''attempt'', JInt (int attempt)), (''max_attempts'', JInt (int attempts)), (''detail'', JStr (exc_str E exc))]))"

end
