(* ===== verification/Scaling_Cluster.thy ===== *)
theory Scaling_Cluster
  imports Cluster_Attempts
begin

text \<open>
  The cluster of the scaling gate (\<open>network/scaling_prototype_gate.py\<close>): chains of any size, the launch
  of the nodes behind a barrier file, and the wait for the full mesh after the barrier is released.
\<close>

subsection \<open>Constants and topology\<close>

definition READY_TIMEOUT_BASE_S :: rat where "READY_TIMEOUT_BASE_S = 60"
definition READY_TIMEOUT_PER_NODE_S :: rat where "READY_TIMEOUT_PER_NODE_S = 8"
definition MESH_TIMEOUT_BASE_S :: rat where "MESH_TIMEOUT_BASE_S = 30"
definition MESH_TIMEOUT_PER_NODE_S :: rat where "MESH_TIMEOUT_PER_NODE_S = 4"
definition SPAWN_STAGGER_S :: rat where "SPAWN_STAGGER_S = 0.5"
definition PROPAGATION_REPETITIONS :: nat where "PROPAGATION_REPETITIONS = 30"
definition CLUSTER_START_MAX_ATTEMPTS :: nat where "CLUSTER_START_MAX_ATTEMPTS = 3"

definition node_counts :: "environ \<Rightarrow> int list res" where
  "node_counts env = res_map (py_int 10)
     (filter (\<lambda>x. x \<noteq> []) (py_split (CHR '','') (environ_get env ''DAIM_G7_NODE_COUNTS'' ''2,4,8,16,32'')))"

text \<open>\<open>range(1, n + 1)\<close>\<close>

definition node_ids :: "int \<Rightarrow> nat list" where
  "node_ids n = [1..<nat (n + 1)]"

definition scaled_host_ip :: "nat \<Rightarrow> string" where
  "scaled_host_ip i = ''10.0.0.'' @ nat_str 10 i"

definition scaled_topo :: "nat \<Rightarrow> chain_topo" where
  "scaled_topo n =
     (let switches = map (\<lambda>i. switch_name (i + 1)) [0..<n];
          hosts = map (\<lambda>i. (host_name (i + 1), scaled_host_ip (i + 1) @ ''/24'')) [0..<n]
      in \<lparr>topo_switches = switches, topo_hosts = hosts, topo_links = chain_links switches (map fst hosts)\<rparr>)"

subsection \<open>Node processes\<close>

definition scaled_environ :: "environ \<Rightarrow> nat \<Rightarrow> int \<Rightarrow> int \<Rightarrow> string list \<Rightarrow> string \<Rightarrow> environ" where
  "scaled_environ os_environ nid n owner_ep addrs barrier_file =
     (case chain_ports (int nid) n of
        (lower, higher) \<Rightarrow> dict_merge os_environ
          [(''DAIM_NODE_ID'', py_str (int nid)),
           (''DAIM_OWNER_EPOCH'', py_str owner_ep),
           (''DAIM_CHAIN_ORDER'', py_join (CHR '','') (map (\<lambda>i. py_str (int i)) (node_ids n))),
           (''DAIM_PORT_TOWARD_LOWER'', py_str lower),
           (''DAIM_PORT_TOWARD_HIGHER'', py_str higher),
           (''DAIM_PEER_LISTEN_PORT'', py_str (PEER_BASE_PORT + int nid)),
           (''DAIM_PEER_ADDRS'', py_join (CHR '','') addrs),
           (''DAIM_PEER_BARRIER_FILE'', barrier_file)])"

definition spawn_scaled :: "env \<Rightarrow> environ \<Rightarrow> string \<Rightarrow> int \<Rightarrow> string \<Rightarrow> int \<Rightarrow> string list \<Rightarrow> nat \<Rightarrow> (world, unit) act" where
  "spawn_scaled E os_environ app n barrier_file owner_ep addrs i =
     ask E (SpawnNode i (scaled_environ os_environ i n owner_ep addrs barrier_file)
              [''osken-manager'', app, ''--ofp-tcp-listen-port'', py_str (ofp_port i)]) (en_spawn E)"

subsection \<open>Bringing the cluster up\<close>

definition scaled_peer_addrs :: "int \<Rightarrow> int \<Rightarrow> string list" where
  "scaled_peer_addrs n i = map peer_addr [i + 1..n]"

definition scaled_not_ready :: "int \<Rightarrow> nat \<Rightarrow> string" where
  "scaled_not_ready n i = ''node'' @ nat_str 10 i @ '' never became ready (n='' @ py_str n @ '')''"

text \<open>The barrier's path is reserved by creating the file, closing and removing it.\<close>

definition reserve_barrier :: "env \<Rightarrow> (world, string) act" where
  "reserve_barrier E =
     act_bind (ask E (MakeTemp ''daim_g7_barrier_'') (en_temp E)) (\<lambda>barrier_path.
     act_bind (ask E (RemoveFile barrier_path) (en_file E)) (\<lambda>_. act_return barrier_path))"

definition remove_if_exists :: "env \<Rightarrow> string \<Rightarrow> (world, unit) act" where
  "remove_if_exists E path =
     act_bind (ask E (FileExists path) (\<lambda>hist. Inr (en_exists E hist))) (\<lambda>there.
       if there then ask E (RemoveFile path) (en_file E) else act_return ())"

fun build_attempts :: "env \<Rightarrow> environ \<Rightarrow> string \<Rightarrow> int \<Rightarrow> rat \<Rightarrow> nat \<Rightarrow> nat \<Rightarrow> (world, nat list \<times> string) act" where
  "build_attempts E os_environ app n ready_timeout_s attempt left =
     act_bind (reserve_barrier E) (\<lambda>barrier_path.
     with_nodes
       (act_bind (start_nodes E
            (\<lambda>i. spawn_scaled E os_environ app n barrier_path DEFAULT_OWNER_EPOCH (scaled_peer_addrs n (int i)) i)
            SPAWN_STAGGER_S ready_timeout_s (scaled_not_ready n) (node_ids n)) (\<lambda>nodes.
          act_return (nodes, barrier_path)))
       (\<lambda>nodes exc.
          act_bind (attempt_failed E [(''n_nodes'', JInt n)] attempt CLUSTER_START_MAX_ATTEMPTS exc) (\<lambda>_.
          act_bind (stop_cluster E nodes) (\<lambda>_.
          act_bind (remove_if_exists E barrier_path) (\<lambda>_.
          act_bind (run E (pkill_argv app)) (\<lambda>_.
          act_bind (sleep E 1) (\<lambda>_.
            case left of
              0 \<Rightarrow> act_raise (RuntimeError (''cluster of size '' @ py_str n @ '' failed to start after '' @
                     nat_str 10 CLUSTER_START_MAX_ATTEMPTS @ '' attempts''))
            | Suc left' \<Rightarrow> build_attempts E os_environ app n ready_timeout_s (attempt + 1) left')))))))"

definition build_cluster :: "env \<Rightarrow> environ \<Rightarrow> string \<Rightarrow> int \<Rightarrow> rat \<Rightarrow> (world, nat list \<times> string) act" where
  "build_cluster E os_environ app n ready_timeout_s =
     build_attempts E os_environ app n ready_timeout_s 1 (CLUSTER_START_MAX_ATTEMPTS - 1)"

subsection \<open>Waiting for the mesh\<close>

definition p_since :: "rat \<Rightarrow> event_pred" where
  "p_since t e = res_bind (py_number (dict_get_or e ''recorded_monotonic_s'' (JInt 0))) (\<lambda>r. Inr (r \<ge> t))"

definition p_synced :: "rat \<Rightarrow> event_pred" where
  "p_synced since = p_and p_lifecycle (p_and (p_has ''name'' (JStr ''snapshot_received'')) (p_since since))"

text \<open>\<open>all(...)\<close> over the nodes, up to the first that is not yet synced with enough peers.\<close>

fun all_synced :: "env \<Rightarrow> int \<Rightarrow> rat \<Rightarrow> nat list \<Rightarrow> (world, bool) act" where
  "all_synced E expected since [] = act_return True"
| "all_synced E expected since (i # is) =
     act_bind (events_matching E i (p_synced since)) (\<lambda>events.
       if int (length events) \<ge> expected then all_synced E expected since is else act_return False)"

lemma grows_synced [grows_intros]: "grows (all_synced E expected since is)"
  by (induction "is") (auto intro!: grows_intros)

definition MESH_POLL_S :: rat where "MESH_POLL_S = 0.001"

function mesh_loop :: "env \<Rightarrow> nat list \<Rightarrow> int \<Rightarrow> rat \<Rightarrow> rat \<Rightarrow> world \<Rightarrow> rat option res \<times> world" where
  "mesh_loop E nodes expected since deadline w =
     (let w1 = perform E Clock w
      in if \<not> w_now w1 < deadline then (Inr None, w1)
         else case all_synced E expected since nodes w1 of
           (Inl e, w2) \<Rightarrow> (Inl e, w2)
         | (Inr True, w2) \<Rightarrow> act_bind (monotonic E) (\<lambda>t. act_return (Some t)) w2
         | (Inr False, w2) \<Rightarrow> mesh_loop E nodes expected since deadline (perform E (Sleep MESH_POLL_S) w2))"
  by pat_completeness auto
termination
proof (relation "measure (\<lambda>(E, nodes, expected, since, deadline, w). nat \<lceil>(deadline - w_now w) / MESH_POLL_S\<rceil>)", goal_cases)
  case 1
  show ?case by simp
next
  case (2 E nodes expected since deadline w w1 r w2 x)
  have pos: "(0 :: rat) < MESH_POLL_S" by (simp add: MESH_POLL_S_def)
  have lt: "w_now w < deadline" using 2(1,2) perform_now [of w E Clock] by auto
  have "extends w1 w2" using 2(3) growsD [OF grows_synced] by metis
  then have "w_now w + MESH_POLL_S \<le> w_now (perform E (Sleep MESH_POLL_S) w2)"
    using perform_sleep [of MESH_POLL_S w2 E] perform_now [of w E Clock] 2(1) pos by (simp add: extends_def)
  then show ?case using poll_measure [OF lt pos] by simp
qed

declare mesh_loop.simps [simp del]

definition wait_for_full_mesh :: "env \<Rightarrow> nat list \<Rightarrow> int \<Rightarrow> rat \<Rightarrow> rat \<Rightarrow> (world, rat option) act" where
  "wait_for_full_mesh E nodes n timeout_s since =
     act_bind (monotonic E) (\<lambda>t. mesh_loop E nodes (n - 1) since (t + timeout_s))"

end
