(* ===== verification/Scaling_Gate.thy ===== *)
theory Scaling_Gate
  imports Scaling_Cluster
begin

text \<open>
  The scaling gate G7 (\<open>network/scaling_prototype_gate.py\<close>): one run of one chain size, the rows of the
  summary, and the sweep over the sizes. Checksums, time stamps, the messages on standard
  output and the writing of the files are left out; the value returned holds what they are made of.
\<close>

subsection \<open>Measurements\<close>

definition g7_samples :: "env \<Rightarrow> int \<Rightarrow> nat \<Rightarrow> (world, (nat \<times> rat) list) act" where
  "g7_samples E source target =
     act_bind (events_matching E target (p_and p_apply (p_and (p_has ''origin_node_id'' (JInt source))
                  (p_one_of ''result'' [JStr ''new'', JStr ''updated''])))) (\<lambda>events.
     act_lift (res_map (\<lambda>e. res_bind (propagation_latency_ms e) (\<lambda>ms. Inr (target, ms))) events))"

definition g7_repetition :: "env \<Rightarrow> nat \<Rightarrow> (world, unit) act" where
  "g7_repetition E source =
     act_bind (run E (del_flows_argv (switch_name source) ''in_port=1'')) (\<lambda>_.
     act_bind (host_cmd E (host_name source) (''ping -c 1 -W 1 '' @ scaled_host_ip 1)) (\<lambda>_. sleep E 0.15))"

definition measure_propagation :: "env \<Rightarrow> int \<Rightarrow> int \<Rightarrow> (world, dict) act" where
  "measure_propagation E seed n =
     act_bind (act_each (\<lambda>_. g7_repetition E (nat n)) [0..<PROPAGATION_REPETITIONS]) (\<lambda>_.
     act_bind (act_map (g7_samples E n) (node_ids (n - 1))) (\<lambda>per_target.
       let samples = concat per_target; observing = set (map fst samples)
       in act_bind (act_lift (latency_summary (en_randrange E) (map snd samples) seed)) (\<lambda>summary.
         act_return
           [(''n_repetitions_sent'', JInt (int PROPAGATION_REPETITIONS)),
            (''n_samples'', JInt (int (length samples))),
            (''observing_nodes'', JList (map (\<lambda>i. JInt (int i)) (sorted_list_of_set observing))),
            (''propagation_ok'', JBool (observing = set (node_ids (n - 1)))),
            (''latency_summary_ms'', JObj summary)])))"

definition count_events :: "env \<Rightarrow> event_pred \<Rightarrow> nat list \<Rightarrow> (world, int) act" where
  "count_events E P nodes =
     act_bind (act_map (\<lambda>i. events_matching E i P) nodes) (\<lambda>es. act_return (int (sum_list (map length es))))"

definition connections_observed :: "env \<Rightarrow> nat list \<Rightarrow> (world, int) act" where
  "connections_observed E nodes = count_events E (p_and p_lifecycle (p_has ''name'' (JStr ''connected''))) nodes"

subsection \<open>One size\<close>

text \<open>The variables that the try block assigns and that are read after it.\<close>

record size_state =
  sz_world :: world
  sz_net :: bool
  sz_nodes :: "nat list"
  sz_barrier :: "string option"
  sz_outcome :: dict
  sz_launch :: rat

definition in_size :: "(world, 'a) act \<Rightarrow> (size_state, 'a) act" where
  "in_size m s = (case m (sz_world s) of (r, w) \<Rightarrow> (r, s\<lparr>sz_world := w\<rparr>))"

definition set_outcome :: "string \<Rightarrow> json \<Rightarrow> (size_state, unit) act" where
  "set_outcome k v = act_modify (\<lambda>s. s\<lparr>sz_outcome := dict_put k v (sz_outcome s)\<rparr>)"

definition no_propagation :: "dict" where
  "no_propagation =
     [(''n_repetitions_sent'', JInt 0), (''n_samples'', JInt 0), (''observing_nodes'', JList []),
      (''propagation_ok'', JBool True),
      (''latency_summary_ms'', JObj [(''n'', JInt 0), (''median'', JNull), (''p95'', JNull), (''p99'', JNull),
         (''maximum'', JNull), (''median_bootstrap_95_ci'', JNull)])]"

text \<open>From the release of the barrier: convergence, propagation, and the counts of the outcome.\<close>

definition size_measure :: "env \<Rightarrow> int \<Rightarrow> int \<Rightarrow> nat list \<Rightarrow> string \<Rightarrow> (size_state, unit) act" where
  "size_measure E seed n nodes barrier_path =
     act_bind (in_size (ask E (TouchFile barrier_path) (en_file E))) (\<lambda>_.
     act_bind (in_size (monotonic E)) (\<lambda>mesh_start.
     act_bind (in_size (wait_for_full_mesh E nodes n (MESH_TIMEOUT_BASE_S + MESH_TIMEOUT_PER_NODE_S * of_int n) mesh_start)) (\<lambda>ready_at.
     let convergence_s = map_option (\<lambda>t. t - mesh_start) ready_at
     in
     act_bind (if n \<ge> 2 then in_size (measure_propagation E seed n) else act_return no_propagation) (\<lambda>propagation.
     act_bind (in_size (connections_observed E nodes)) (\<lambda>connections.
     act_bind (in_size (count_events E p_apply nodes)) (\<lambda>applies.
     act_bind (in_size (count_events E p_lifecycle nodes)) (\<lambda>lifecycles.
     act_bind (act_modify (\<lambda>s. s\<lparr>sz_outcome := dict_merge (sz_outcome s)
         [(''convergence_s'', opt_float convergence_s), (''connections_observed'', JInt connections),
          (''connections_expected'', JInt (n * (n - 1))), (''apply_events_total'', JInt applies),
          (''lifecycle_events_total'', JInt lifecycles), (''propagation'', JObj propagation)]\<rparr>)) (\<lambda>_.
     act_bind (act_lift (dict_item propagation ''propagation_ok'')) (\<lambda>ok.
       set_outcome ''pass'' (if convergence_s = None then JBool False else ok))))))))))"

definition size_body :: "env \<Rightarrow> environ \<Rightarrow> string \<Rightarrow> int \<Rightarrow> int \<Rightarrow> (size_state, unit) act" where
  "size_body E os_environ app seed n =
     act_bind (in_size (run E [''mn'', ''-c''])) (\<lambda>_.
     act_bind (in_size (run E (pkill_argv app))) (\<lambda>_.
     act_bind (in_size (sleep E 0.3)) (\<lambda>_.
     act_bind (act_modify (\<lambda>s. s\<lparr>sz_net := True\<rparr>)) (\<lambda>_.
     act_bind (in_size (ask E StartNet (en_net E))) (\<lambda>_.
     act_bind (in_size (monotonic E)) (\<lambda>t.
     act_bind (act_modify (\<lambda>s. s\<lparr>sz_launch := t\<rparr>)) (\<lambda>_.
     act_bind (in_size (build_cluster E os_environ app n (READY_TIMEOUT_BASE_S + READY_TIMEOUT_PER_NODE_S * of_int n))) (\<lambda>(nodes, barrier_path).
     act_bind (act_modify (\<lambda>s. s\<lparr>sz_nodes := nodes, sz_barrier := Some barrier_path\<rparr>)) (\<lambda>_.
       size_measure E seed n nodes barrier_path)))))))))"

definition size_cleanup :: "env \<Rightarrow> (size_state, unit) act" where
  "size_cleanup E s =
     act_bind (if sz_nodes s \<noteq> [] then in_size (stop_cluster E (sz_nodes s)) else act_return ()) (\<lambda>_.
     act_bind (if sz_net s then in_size (ask E StopNet (en_net E)) else act_return ()) (\<lambda>_.
     act_bind (in_size (run E [''mn'', ''-c''])) (\<lambda>_.
       case sz_barrier s of
         None \<Rightarrow> act_return ()
       | Some path \<Rightarrow> if path \<noteq> [] then in_size (remove_if_exists E path) else act_return ()))) s"

definition size_try :: "env \<Rightarrow> environ \<Rightarrow> string \<Rightarrow> int \<Rightarrow> int \<Rightarrow> (size_state, unit) act" where
  "size_try E os_environ app seed n =
     act_finally
       (act_catch (size_body E os_environ app seed n) (\<lambda>exc.
          let fatal = fatal_record E exc
          in Some (act_bind (set_outcome ''fatal_error'' (JObj fatal)) (\<lambda>_.
               in_size (do_action E (RecordRaw ''gate_driver''
                 (dict_merge [(''event'', JStr ''size_fatal_error''), (''n_nodes'', JInt n)] fatal)))))))
       (size_cleanup E)"

definition run_one_size :: "env \<Rightarrow> environ \<Rightarrow> string \<Rightarrow> int \<Rightarrow> int \<Rightarrow> (world, dict) act" where
  "run_one_size E os_environ app seed n =
     act_bind (do_action E (RecordRaw ''gate_driver'' [(''event'', JStr ''size_start''), (''n_nodes'', JInt n)])) (\<lambda>_.
     act_bind (monotonic E) (\<lambda>launch_start w.
       let outcome = [(''n_nodes'', JInt n), (''pass'', JBool False), (''fatal_error'', JNull)]
       in case size_try E os_environ app seed n
                 \<lparr>sz_world = w, sz_net = False, sz_nodes = [], sz_barrier = None, sz_outcome = outcome, sz_launch = launch_start\<rparr> of
            (Inl e, s) \<Rightarrow> (Inl e, sz_world s)
          | (Inr _, s) \<Rightarrow>
              act_bind (monotonic E) (\<lambda>t.
                let done = dict_put ''wall_time_s'' (JFloat (t - sz_launch s)) (sz_outcome s)
                in act_bind (act_lift (dict_item done ''pass'')) (\<lambda>pass.
                   act_bind (do_action E (RecordRaw ''gate_driver''
                     [(''event'', JStr ''size_done''), (''n_nodes'', JInt n), (''pass'', pass),
                      (''wall_time_s'', JFloat (t - sz_launch s))])) (\<lambda>_. act_return done))) (sz_world s)))"

subsection \<open>Rows\<close>

text \<open>\<open>v or {}\<close> where the result is used as a dictionary.\<close>

definition or_empty :: "json \<Rightarrow> dict res" where
  "or_empty v = (if py_truth v then (case v of JObj d \<Rightarrow> Inr d | _ \<Rightarrow> Inl AttributeError) else Inr [])"

definition summary_row :: "int \<Rightarrow> nat \<Rightarrow> dict \<Rightarrow> dict res" where
  "summary_row n repetition outcome =
     res_bind (or_empty (dict_get outcome ''propagation'')) (\<lambda>propagation.
     res_bind (or_empty (dict_get propagation ''latency_summary_ms'')) (\<lambda>lat.
     res_bind (dict_item outcome ''pass'') (\<lambda>pass.
     res_bind (or_empty (dict_get outcome ''fatal_error'')) (\<lambda>fatal.
       Inr [(''n_nodes'', JInt n), (''repetition'', JInt (int repetition)), (''pass'', pass),
            (''convergence_s'', dict_get outcome ''convergence_s''),
            (''connections_observed'', dict_get outcome ''connections_observed''),
            (''connections_expected'', dict_get outcome ''connections_expected''),
            (''propagation_n_samples'', dict_get propagation ''n_samples''),
            (''propagation_latency_median_ms'', dict_get lat ''median''),
            (''propagation_latency_p95_ms'', dict_get lat ''p95''),
            (''propagation_latency_p99_ms'', dict_get lat ''p99''),
            (''apply_events_total'', dict_get outcome ''apply_events_total''),
            (''lifecycle_events_total'', dict_get outcome ''lifecycle_events_total''),
            (''wall_time_s'', dict_get outcome ''wall_time_s''),
            (''fatal_error'', dict_get fatal ''message'')]))))"

definition present_numbers :: "string \<Rightarrow> dict list \<Rightarrow> rat list res" where
  "present_numbers k rows =
     res_bind (res_map (\<lambda>r. dict_item r k) rows) (\<lambda>vs. res_map py_number (filter (\<lambda>v. v \<noteq> JNull) vs))"

definition campaign_row :: "random_source \<Rightarrow> int \<Rightarrow> int \<Rightarrow> dict list \<Rightarrow> dict res" where
  "campaign_row randrange seed n rows =
     res_bind (res_map (\<lambda>r. res_bind (dict_item r ''pass'') py_number) rows) (\<lambda>passes.
     res_bind (present_numbers ''convergence_s'' rows) (\<lambda>convergence.
     res_bind (present_numbers ''propagation_latency_median_ms'' rows) (\<lambda>prop_median.
     res_bind (latency_summary randrange convergence seed) (\<lambda>convergence_summary.
     res_bind (latency_summary randrange prop_median seed) (\<lambda>prop_summary.
       Inr [(''n_nodes'', JInt n), (''repetitions'', JInt (int (length rows))),
            (''pass_rate'', JFloat (if passes \<noteq> [] then sum_list passes / of_nat (length passes) else 0)),
            (''n_passed'', JInt \<lfloor>sum_list passes\<rfloor>),
            (''convergence_s_summary'', JObj convergence_summary),
            (''propagation_latency_median_ms_summary'', JObj prop_summary)])))))"

subsection \<open>The sweep\<close>

record sweep =
  sw_results :: "(string \<times> dict) list"
  sw_rows :: "dict list"

definition sweep_step :: "env \<Rightarrow> environ \<Rightarrow> string \<Rightarrow> int \<Rightarrow> int \<Rightarrow> nat \<Rightarrow> sweep \<Rightarrow> (world, sweep) act" where
  "sweep_step E os_environ app seed n rep sw =
     act_bind (run_one_size E os_environ app seed n) (\<lambda>outcome.
     act_bind (act_lift (summary_row n rep outcome)) (\<lambda>row.
       act_return \<lparr>sw_results = dict_put (CHR ''n'' # py_str n @ ''_rep'' @ nat_str 10 rep) outcome (sw_results sw),
                   sw_rows = sw_rows sw @ [row]\<rparr>))"

fun sweep_runs :: "env \<Rightarrow> environ \<Rightarrow> string \<Rightarrow> int \<Rightarrow> int \<Rightarrow> nat list \<Rightarrow> sweep \<Rightarrow> (world, sweep) act" where
  "sweep_runs E os_environ app seed n [] sw = act_return sw"
| "sweep_runs E os_environ app seed n (rep # reps) sw =
     act_bind (sweep_step E os_environ app seed n rep sw) (\<lambda>sw'. sweep_runs E os_environ app seed n reps sw')"

text \<open>All repetitions of a size, with its campaign row when there are several.\<close>

definition sweep_size :: "env \<Rightarrow> environ \<Rightarrow> string \<Rightarrow> int \<Rightarrow> nat \<Rightarrow> int \<Rightarrow> sweep \<Rightarrow> (world, sweep) act" where
  "sweep_size E os_environ app seed repetitions n sw =
     act_bind (sweep_runs E os_environ app seed n [0..<repetitions] sw) (\<lambda>sw'.
     act_bind (act_lift (if repetitions > 1
          then campaign_row (en_randrange E) seed n (drop (length (sw_rows sw)) (sw_rows sw')) else Inr [])) (\<lambda>_.
       act_return sw'))"

fun sweep_sizes :: "env \<Rightarrow> environ \<Rightarrow> string \<Rightarrow> int \<Rightarrow> nat \<Rightarrow> int list \<Rightarrow> sweep \<Rightarrow> (world, sweep) act" where
  "sweep_sizes E os_environ app seed repetitions [] sw = act_return sw"
| "sweep_sizes E os_environ app seed repetitions (n # ns) sw =
     act_bind (sweep_size E os_environ app seed repetitions n sw) (\<lambda>sw'. sweep_sizes E os_environ app seed repetitions ns sw')"

definition rows_of_size :: "int \<Rightarrow> dict list \<Rightarrow> dict list" where
  "rows_of_size n rows = filter (\<lambda>r. py_eq (dict_get r ''n_nodes'') (JInt n)) rows"

record scaling_manifest =
  sm_sweep :: sweep
  sm_campaign :: "dict list option"
  sm_all_passed :: bool

definition scaling_main :: "env \<Rightarrow> environ \<Rightarrow> string \<Rightarrow> int \<Rightarrow> int list \<Rightarrow> nat \<Rightarrow> (world, scaling_manifest) act" where
  "scaling_main E os_environ app seed counts repetitions =
     act_bind (sweep_sizes E os_environ app seed repetitions counts \<lparr>sw_results = [], sw_rows = []\<rparr>) (\<lambda>sw.
     act_bind (act_lift (py_index (sw_rows sw) 0)) (\<lambda>_.
     act_bind (if repetitions > 1
               then act_bind (act_lift (res_map (\<lambda>n. campaign_row (en_randrange E) seed n (rows_of_size n (sw_rows sw))) counts))
                      (\<lambda>rows. act_return (Some rows))
               else act_return None) (\<lambda>campaign.
     act_bind (act_lift (all_pass (map snd (sw_results sw)))) (\<lambda>passed.
       act_return \<lparr>sm_sweep = sw, sm_campaign = campaign, sm_all_passed = passed\<rparr>))))"

end
