(* ===== verification/Scaling_Laws.thy ===== *)
theory Scaling_Laws
  imports Scaling_Gate Gate_Laws
begin

text \<open>
  What the scaling gate rests on: a node launched behind the barrier dials nobody before the barrier file is
  there and then exactly the higher nodes; the mesh counts as complete only when every node has enough
  snapshots since the release; and a size passes exactly when it converged and propagated.
\<close>

subsection \<open>The barrier\<close>

lemma await_barrier_sound:
  assumes "await_barrier exists n = Some k"
  shows "exists k"
  using assms by (rule await_barrier.raw_induct [rotated]) (auto split: if_splits)

lemma await_barrier_never: "await_barrier (\<lambda>_. False) n = None"
  using await_barrier_sound [of "\<lambda>_. False" n] by (cases "await_barrier (\<lambda>_. False) n") auto

lemma await_barrier_ends: "exists (n + k) \<Longrightarrow> await_barrier exists n \<noteq> None"
proof (induction k arbitrary: n)
  case (Suc k)
  then show ?case using Suc.IH [of "Suc n"] by (subst await_barrier.simps) simp
qed (simp add: await_barrier.simps)

definition scaled_config :: "environ \<Rightarrow> nat \<Rightarrow> int \<Rightarrow> int \<Rightarrow> string list \<Rightarrow> string \<Rightarrow> controller_config" where
  "scaled_config os_environ nid n owner_ep addrs barrier_file =
     \<lparr>cc_node_id = int nid, cc_owner_epoch = owner_ep, cc_chain_order = map int (node_ids n),
      cc_port_toward_lower = fst (chain_ports (int nid) n), cc_port_toward_higher = snd (chain_ports (int nid) n),
      cc_peer_listen_port = PEER_BASE_PORT + int nid, cc_peer_addrs = addrs, cc_barrier_file = Some barrier_file\<rparr>"

lemma read_scaled:
  assumes "\<forall>a \<in> set addrs. a \<noteq> [] \<and> CHR '','' \<notin> set a" and "1 \<le> n"
  shows "read_config (scaled_environ os_environ nid n owner_ep addrs barrier) = Inr (scaled_config os_environ nid n owner_ep addrs barrier)"
proof -
  obtain lower higher where cp: "chain_ports (int nid) n = (lower, higher)" by (cases "chain_ports (int nid) n")
  have chain: "map (\<lambda>i. py_str (int i)) (node_ids n) = map py_str (map int (node_ids n))" by simp
  have ne: "map int (node_ids n) \<noteq> []" using assms(2) by (simp add: node_ids_def)
  show ?thesis
    unfolding scaled_environ_def cp prod.case chain
    by (simp add: read_config_def environ_item_def environ_get_def map_of_dict_merge map_add_def
        split_addrs [OF assms(1)] split_chain [OF ne] py_int_py_str scaled_config_def cp del: map_map upt_Suc One_nat_def)
qed

lemma deferred_init_run:
  assumes "node_can_start (ce_node E) (cc_node_id cfg) (cc_owner_epoch cfg) (cc_chain_order cfg) (cc_peer_listen_port cfg)"
    and "cc_barrier_file cfg = Some path" and "path \<noteq> []"
  shows "DistributedNodeController_init E cfg controller0 = (Inr (), controller0
    \<lparr>ct_node := node0\<lparr>nd_process := started (cc_node_id cfg) (cc_owner_epoch cfg) (cc_chain_order cfg)
        (cc_port_toward_lower cfg) (cc_port_toward_higher cfg) HOST_PORT\<rparr>, ct_dial_deferred := True\<rparr>)"
proof -
  have "DistributedNode_init (ce_node E) (cc_node_id cfg) (cc_owner_epoch cfg) (cc_chain_order cfg)
      (cc_port_toward_lower cfg) (cc_port_toward_higher cfg) (cc_peer_listen_port cfg) HOST_PORT node0 =
      (Inr (), node0\<lparr>nd_process := started (cc_node_id cfg) (cc_owner_epoch cfg) (cc_chain_order cfg)
        (cc_port_toward_lower cfg) (cc_port_toward_higher cfg) HOST_PORT\<rparr>)"
    using assms(1) by (simp add: node_init_run node_can_start_def)
  then show ?thesis
    using assms(2,3) by (simp add: DistributedNodeController_init_def act_bind_def on_node_def act_modify_def controller0_def)
qed

lemma released_dials:
  assumes "\<forall>k. ne_thread_ok (ce_node E) k" and "cc_peer_addrs cfg = map peer_addr js"
    and "\<forall>j \<in> set js. 0 \<le> j \<and> j < 1000" and "length (nd_peers (ct_node s)) + length js \<le> MAX_CONFIGURED_PEERS"
    and "exists k"
  shows "\<exists>s'. dial_peers_after_barrier E cfg exists s = Some (Inr (), s') \<and>
    nd_peers (ct_node s') = nd_peers (ct_node s) @ map (\<lambda>j. (''127.0.0.1'', PEER_BASE_PORT + j)) js"
proof -
  obtain m where m: "await_barrier exists 0 = Some m" using await_barrier_ends [of "exists" 0 k] assms(5) by auto
  obtain s1 where s1: "on_node (emit ''lifecycle'' [(''name'', JStr ''peer_dial_released''), (''peer_node_id'', JInt 0),
      (''detail'', JInt (cc_node_id cfg))]) s = (Inr (), s1)" "nd_peers (ct_node s1) = nd_peers (ct_node s)"
    by (simp add: on_node_def emit_def act_modify_def)
  have "dial_peers (ce_node E) (map peer_addr js) (ct_node s1) =
      (Inr (), (ct_node s1)\<lparr>nd_peers := nd_peers (ct_node s1) @ map (\<lambda>j. (''127.0.0.1'', PEER_BASE_PORT + j)) js\<rparr>)"
    using dial_all [OF assms(1,3), of "ct_node s1"] assms(4) s1(2) by simp
  then show ?thesis
    using m s1 assms(2) by (simp add: dial_peers_after_barrier_def on_node_def)
qed

text \<open>
  Property C33 (launch behind the barrier). For every chain of up to 32 nodes, the controller that the scaling gate launches
  for node \<open>i\<close> comes up configured for place \<open>i\<close> of the chain without dialling anyone. While the barrier file is missing
  it goes on waiting; once the file is there it dials exactly the higher nodes. 32 is what the transport's peer
  table allows: in a chain of 33 node 1 cannot dial its last peer.
\<close>

theorem barrier_then_dial:
  assumes "1 \<le> i" and "i \<le> n" and "n \<le> 32" and "path \<noteq> []" and "exists k"
    and "node_can_start (ce_node E) (int i) owner_ep (map int (node_ids (int n))) (PEER_BASE_PORT + int i)"
    and "\<forall>k. ne_thread_ok (ce_node E) k"
  shows "\<exists>cfg s s'.
    read_config (scaled_environ os_environ i (int n) owner_ep (scaled_peer_addrs (int n) (int i)) path) = Inr cfg \<and>
    DistributedNodeController_init E cfg controller0 = (Inr (), s) \<and>
    handles_packets (nd_process (ct_node s)) \<and> chain_configured n i (nd_process (ct_node s)) \<and> nd_peers (ct_node s) = [] \<and>
    dial_peers_after_barrier E cfg (\<lambda>_. False) s = None \<and>
    dial_peers_after_barrier E cfg exists s = Some (Inr (), s') \<and>
    nd_peers (ct_node s') = map (\<lambda>j. (''127.0.0.1'', PEER_BASE_PORT + j)) [int i + 1..int n] \<and>
    length (scaled_peer_addrs 33 1) > MAX_CONFIGURED_PEERS"
proof -
  let ?cfg = "scaled_config os_environ i (int n) owner_ep (scaled_peer_addrs (int n) (int i)) path"
  obtain lower higher where cp: "chain_ports (int i) (int n) = (lower, higher)" by (cases "chain_ports (int i) (int n)")
  let ?p = "started (int i) owner_ep (map int (node_ids (int n))) lower higher HOST_PORT"
  let ?s = "controller0\<lparr>ct_node := node0\<lparr>nd_process := ?p\<rparr>, ct_dial_deferred := True\<rparr>"
  have ids: "node_ids (int n) = [1..<n + 1]" 
  proof -
    have "nat (int n + 1) = n + 1" by linarith
    then show ?thesis by (simp only: node_ids_def)
  qed
  have chain: "0 < length (map int (node_ids (int n)))" "length (map int (node_ids (int n))) \<le> DAIM_DIST_MAX_CHAIN"
    using assms(1-3) by (simp_all add: ids DAIM_DIST_MAX_CHAIN_def)
  note p = started_simps [OF chain, of "int i" owner_ep lower higher HOST_PORT]
  have conf: "chain_configured n i ?p"
    using p chain_ports_small [OF cp] cp word_of_int_chain [of "[1..<n + 1]"]
    by (simp add: chain_configured_def HOST_PORT_def ids del: map_map One_nat_def upt_Suc)
  have plain: "\<forall>a \<in> set (scaled_peer_addrs (int n) (int i)). a \<noteq> [] \<and> CHR '','' \<notin> set a"
    by (simp add: scaled_peer_addrs_def peer_addr_plain)
  have started: "DistributedNodeController_init E ?cfg controller0 = (Inr (), ?s)"
    using deferred_init_run [of E ?cfg path] assms(4,6) cp by (simp add: scaled_config_def)
  have dial: "\<forall>j \<in> set [int i + 1..int n]. 0 \<le> j \<and> j < 1000" "cc_peer_addrs ?cfg = map peer_addr [int i + 1..int n]"
    "length (nd_peers (ct_node ?s)) + length [int i + 1..int n] \<le> MAX_CONFIGURED_PEERS" and none: "nd_peers (ct_node ?s) = []"
    using assms(1-3) by (simp_all add: scaled_config_def scaled_peer_addrs_def MAX_CONFIGURED_PEERS_def controller0_def node0_def)
  obtain s' where s': "dial_peers_after_barrier E ?cfg exists ?s = Some (Inr (), s')"
    "nd_peers (ct_node s') = map (\<lambda>j. (''127.0.0.1'', PEER_BASE_PORT + j)) [int i + 1..int n]"
    using released_dials [where exists = "exists" and k = k, OF assms(7) dial(2,1,3) assms(5)] none by auto
  have waiting: "dial_peers_after_barrier E ?cfg (\<lambda>_. False) ?s = None"
    by (simp add: dial_peers_after_barrier_def await_barrier_never)
  have limit: "length (scaled_peer_addrs 33 1) > MAX_CONFIGURED_PEERS"
    by (simp add: scaled_peer_addrs_def MAX_CONFIGURED_PEERS_def)
  have read: "read_config (scaled_environ os_environ i (int n) owner_ep (scaled_peer_addrs (int n) (int i)) path) = Inr ?cfg"
    by (rule read_scaled [OF plain]) (use assms(1,2) in simp)
  have state: "handles_packets (nd_process (ct_node ?s))" "chain_configured n i (nd_process (ct_node ?s))"
    using conf p(1) by simp_all
  show ?thesis
    by (intro exI [of _ ?cfg] exI [of _ ?s] exI [of _ s'] conjI read started state none waiting s' limit)
qed

theorem barrier_then_dial_witness:
  "\<exists>cfg s s'. read_config (scaled_environ [] 30 32 1 (scaled_peer_addrs 32 30) ''/tmp/b'') = Inr cfg \<and>
    DistributedNodeController_init sample_controller_env cfg controller0 = (Inr (), s) \<and> nd_peers (ct_node s) = [] \<and>
    dial_peers_after_barrier sample_controller_env cfg (\<lambda>t. 3 < t) s = Some (Inr (), s') \<and>
    nd_peers (ct_node s') = [(''127.0.0.1'', 16831), (''127.0.0.1'', 16832)]"
proof -
  have "node_can_start (ce_node sample_controller_env) (int 30) 1 (map int (node_ids (int 32))) (PEER_BASE_PORT + int 30)"
    by (simp add: node_can_start_def sample_controller_env_def sample_env_def node_ids_def DAIM_DIST_MAX_CHAIN_def)
  moreover have "\<forall>k. ne_thread_ok (ce_node sample_controller_env) k"
    by (simp add: sample_controller_env_def sample_env_def)
  moreover have "[30 + 1..32 :: int] = [31, 32]" by code_simp
  ultimately show ?thesis
    using barrier_then_dial [of 30 32 "''/tmp/b''" "\<lambda>t. 3 < t" 4 sample_controller_env 1 "[]"]
    by (auto simp: PEER_BASE_PORT_def)
qed

subsection \<open>The full mesh\<close>

definition synced_count :: "env \<Rightarrow> rat \<Rightarrow> action list \<Rightarrow> nat \<Rightarrow> nat" where
  "synced_count E since h i = length (filter (\<lambda>e. p_synced since e = Inr True) (node_events E h i))"

lemma filter_events_Inr: "filter_events P es = Inr r \<Longrightarrow> r = filter (\<lambda>e. P e = Inr True) es"
  by (induction es arbitrary: r) (auto simp: res_bind_Inr_conv)

lemma same_nodes_synced: "same_nodes w w' \<Longrightarrow> synced_count E since (w_log w) i \<le> synced_count E since (w_log w') i"
  using same_nodes_events [of w w' E i] by (auto simp: synced_count_def prefix_def)

lemma same_all_synced: "moves same_nodes (all_synced E expected since is)"
  by (induction "is") (auto simp: events_matching_def intro!: same.sequence same.pure same_ask)

lemma all_synced_counts:
  "all_synced E expected since is w = (Inr True, w') \<Longrightarrow> i \<in> set is \<Longrightarrow> expected \<le> int (synced_count E since (w_log w') i)"
proof (induction "is" arbitrary: w)
  case (Cons j js)
  obtain events w1 where w1: "events_matching E j (p_synced since) w = (Inr events, w1)" "expected \<le> int (length events)"
      "all_synced E expected since js w1 = (Inr True, w')"
    using Cons.prems(1) by (auto simp: act_bind_Inr act_return_def split: if_splits)
  have "events = filter (\<lambda>e. p_synced since e = Inr True) (node_events E (w_log w1) j)"
    using w1(1) filter_events_Inr by (auto simp: events_matching_def ask_def Let_def)
  then have "expected \<le> int (synced_count E since (w_log w1) j)" using w1(2) by (simp add: synced_count_def)
  moreover have "synced_count E since (w_log w1) j \<le> synced_count E since (w_log w') j"
    by (rule same_nodes_synced [OF same.step [OF same_all_synced w1(3)]])
  ultimately show ?case using Cons.IH [OF w1(3)] Cons.prems(2) by auto
qed simp

lemma mesh_loop_spec:
  "mesh_loop E nodes expected since deadline w = (r, w') \<Longrightarrow>
   (case r of
      Inl e \<Rightarrow> True
    | Inr None \<Rightarrow> deadline \<le> w_now w'
    | Inr (Some t) \<Rightarrow> t = w_now w' \<and> list_all (\<lambda>i. expected \<le> int (synced_count E since (w_log w') i)) nodes)"
proof (induction E nodes expected since deadline w arbitrary: r w' rule: mesh_loop.induct)
  case (1 E nodes expected since deadline w)
  let ?w1 = "perform E Clock w"
  obtain r2 w2 where synced: "all_synced E expected since nodes ?w1 = (r2, w2)" by (cases "all_synced E expected since nodes ?w1")
  show ?case
  proof (cases "w_now ?w1 < deadline")
    case False
    then show ?thesis using "1.prems" by (subst (asm) mesh_loop.simps) (auto simp: Let_def)
  next
    case True
    consider (raise) e where "r2 = Inl e" | (yes) "r2 = Inr True" | (no) "r2 = Inr False" by (cases r2) auto
    then show ?thesis
    proof cases
      case raise
      then show ?thesis using "1.prems" True synced by (subst (asm) mesh_loop.simps) (auto simp: Let_def)
    next
      case yes
      have "r = Inr (Some (w_now (perform E Clock w2)))" "w' = perform E Clock w2"
        using "1.prems" True synced yes
        by (subst (asm) mesh_loop.simps, simp add: Let_def monotonic_def act_bind_def act_return_def)+
      moreover have "expected \<le> int (synced_count E since (w_log (perform E Clock w2)) i)" if "i \<in> set nodes" for i
        using same_nodes_perform [of Clock w2 E] all_synced_counts [OF synced [unfolded yes] that] same_nodes_synced [of w2 "perform E Clock w2" E since i]
        by simp
      ultimately show ?thesis by (simp add: list_all_iff)
    next
      case no
      have "mesh_loop E nodes expected since deadline (perform E (Sleep MESH_POLL_S) w2) = (r, w')"
        using "1.prems" True synced no by (subst (asm) mesh_loop.simps) (simp add: Let_def)
      from "1.IH" [OF refl _ synced [symmetric, unfolded no] _ _ this] True show ?thesis by simp blast
    qed
  qed
qed

text \<open>
  Property C34 (the full mesh). Waiting for the mesh ends: with the time of the last look at the clock, and then every
  node has printed enough received snapshots at or after the release of the barrier, or without a time, and then the timeout has
  passed. The snapshots are counted as events; nothing relates them to different peers.
\<close>

theorem full_mesh_sound:
  "case wait_for_full_mesh E nodes n timeout_s since w of
     (Inl e, w') \<Rightarrow> True
   | (Inr None, w') \<Rightarrow> w_now w + timeout_s \<le> w_now w'
   | (Inr (Some t), w') \<Rightarrow> t = w_now w' \<and> list_all (\<lambda>i. n - 1 \<le> int (synced_count E since (w_log w') i)) nodes"
proof -
  obtain r w' where go: "wait_for_full_mesh E nodes n timeout_s since w = (r, w')"
    by (cases "wait_for_full_mesh E nodes n timeout_s since w")
  have "mesh_loop E nodes (n - 1) since (w_now (perform E Clock w) + timeout_s) (perform E Clock w) = (r, w')"
    using go by (simp add: wait_for_full_mesh_def act_bind_def monotonic_def Let_def)
  from mesh_loop_spec [OF this] perform_now [of w E Clock] show ?thesis
    unfolding go by (auto split: sum.splits option.splits)
qed

end
