(* ===== verification/Scaling_Outcomes.thy ===== *)
theory Scaling_Outcomes
  imports Scaling_Laws
begin

text \<open>
  The type of the scaling gate's outcomes: whatever happens during a size, the outcome it returns has the
  entries that the summary needs, with the right kinds of values, and its verdict agrees with them.
\<close>

subsection \<open>Kinds of values\<close>

definition is_propagation :: "dict \<Rightarrow> bool" where
  "is_propagation p \<longleftrightarrow>
     (\<exists>l. dict_get p ''latency_summary_ms'' = JObj l) \<and> (\<exists>b. map_of p ''propagation_ok'' = Some (JBool b))"

text \<open>What every outcome satisfies, and what the verdict should be.\<close>

definition outcome_shape :: "dict \<Rightarrow> bool" where
  "outcome_shape out \<longleftrightarrow>
     (dict_get out ''fatal_error'' = JNull \<or> (\<exists>f. dict_get out ''fatal_error'' = JObj f)) \<and>
     (dict_get out ''propagation'' = JNull \<or> (\<exists>p. dict_get out ''propagation'' = JObj p \<and> is_propagation p)) \<and>
     (\<exists>b. map_of out ''pass'' = Some (JBool b))"

definition outcome_verdict :: "dict \<Rightarrow> bool" where
  "outcome_verdict out \<longleftrightarrow> dict_get out ''fatal_error'' = JNull \<and> dict_get out ''convergence_s'' \<noteq> JNull \<and>
     (case dict_get out ''propagation'' of JObj p \<Rightarrow> dict_get p ''propagation_ok'' = JBool True | _ \<Rightarrow> False)"

text \<open>While a size is being run, its verdict is still false.\<close>

definition undecided :: "dict \<Rightarrow> bool" where
  "undecided out \<longleftrightarrow> outcome_shape out \<and> dict_get out ''fatal_error'' = JNull \<and> map_of out ''pass'' = Some (JBool False)"

definition decided :: "dict \<Rightarrow> bool" where
  "decided out \<longleftrightarrow> outcome_shape out \<and> dict_get out ''pass'' = JBool (outcome_verdict out)"

subsection \<open>The steps of a size\<close>

lemma preserves_in_size [preserves_intros]: "preserves sz_outcome (in_size m)"
  by (simp add: preserves_def in_size_def split: prod.splits)

lemma preserves_cleanup: "preserves sz_outcome (size_cleanup E)"
proof -
  have "preserves sz_outcome (\<lambda>s. act_bind (if b then in_size m1 else act_return ()) (\<lambda>_.
      act_bind (if b' then in_size m2 else act_return ()) (\<lambda>_. act_bind (in_size m3) (\<lambda>_. k))) s)"
    if "preserves sz_outcome k" for b b' m1 m2 m3 k
    using that by (cases b; cases b') (auto intro!: preserves_intros)
  moreover have "preserves sz_outcome (case p of None \<Rightarrow> act_return ()
      | Some path \<Rightarrow> if path \<noteq> [] then in_size (remove_if_exists E path) else act_return ())" for p
    by (auto intro!: preserves_intros split: option.splits)
  ultimately show ?thesis unfolding preserves_def size_cleanup_def by blast
qed

lemma measured_shape: "measure_propagation E seed n w = (Inr p, w') \<Longrightarrow> is_propagation p"
  by (auto simp: measure_propagation_def act_bind_Inr Let_def is_propagation_def dict_get_def)

lemma no_propagation_shape: "is_propagation no_propagation"
  by (auto simp: no_propagation_def is_propagation_def dict_get_def intro: exI [of _ True])

lemmas size_step = triple_bind_view [where view = sz_outcome and p = undecided and r = undecided]

text \<open>The entries of the measurements are all set before the verdict is.\<close>

definition recorded :: "rat option \<Rightarrow> dict \<Rightarrow> dict \<Rightarrow> bool" where
  "recorded c p out \<longleftrightarrow> undecided out \<and> dict_get out ''convergence_s'' = opt_float c \<and> dict_get out ''propagation'' = JObj p"

lemma size_measure_outcome:
  "triple (\<lambda>s. undecided (sz_outcome s)) (size_measure E seed n nodes barrier)
     (\<lambda>_ s. decided (sz_outcome s)) (\<lambda>s. undecided (sz_outcome s))"
proof -
  let ?R = "\<lambda>s. undecided (sz_outcome s)"
  have verdict: "triple (\<lambda>s. recorded c p (sz_outcome s))
      (act_bind (act_lift (dict_item p ''propagation_ok'')) (\<lambda>ok. set_outcome ''pass'' (if c = None then JBool False else ok)))
      (\<lambda>_ s. decided (sz_outcome s)) ?R" if shape: "is_propagation p" for c p
  proof -
    obtain b where b: "map_of p ''propagation_ok'' = Some (JBool b)"
      using shape by (auto simp: is_propagation_def)
    then show ?thesis
      by (auto simp: triple_def act_bind_def act_lift_def set_outcome_def act_modify_def recorded_def decided_def undecided_def
          outcome_shape_def outcome_verdict_def dict_item_def dict_get_def opt_float_def shape split: option.splits)
  qed
  have stored: "triple (\<lambda>s. undecided (sz_outcome s)) (act_modify (\<lambda>s. s\<lparr>sz_outcome := dict_merge (sz_outcome s)
         [(''convergence_s'', opt_float c), (''connections_observed'', JInt k), (''connections_expected'', JInt (n * (n - 1))),
          (''apply_events_total'', JInt a), (''lifecycle_events_total'', JInt l), (''propagation'', JObj p)]\<rparr>))
      (\<lambda>_ s. recorded c p (sz_outcome s)) ?R" if "is_propagation p" for c k a l p
    by (rule triple_modify) (use that in \<open>auto simp: recorded_def undecided_def outcome_shape_def dict_get_def split: option.splits\<close>)
  have measured: "triple (\<lambda>s. undecided (sz_outcome s))
      (if n \<ge> 2 then in_size (measure_propagation E seed n) else act_return no_propagation)
      (\<lambda>p s. undecided (sz_outcome s) \<and> is_propagation p) ?R"
    by (auto simp: triple_def in_size_def act_return_def no_propagation_shape dest: measured_shape split: prod.splits sum.splits)
  have rest: "triple (\<lambda>s. undecided (sz_outcome s)) (act_bind m1 (\<lambda>k. act_bind m2 (\<lambda>a. act_bind m3 (\<lambda>l.
      act_bind (act_modify (\<lambda>s. s\<lparr>sz_outcome := dict_merge (sz_outcome s)
         [(''convergence_s'', opt_float c), (''connections_observed'', JInt k), (''connections_expected'', JInt (n * (n - 1))),
          (''apply_events_total'', JInt a), (''lifecycle_events_total'', JInt l), (''propagation'', JObj p)]\<rparr>)) (\<lambda>_.
      act_bind (act_lift (dict_item p ''propagation_ok'')) (\<lambda>ok. set_outcome ''pass'' (if c = None then JBool False else ok)))))))
      (\<lambda>_ s. decided (sz_outcome s)) ?R"
    if "is_propagation p" "preserves sz_outcome m1" "preserves sz_outcome m2" "preserves sz_outcome m3" for c p m1 m2 m3
    by (intro size_step that(2-4) triple_bind [OF stored [OF that(1)] verdict [OF that(1)]]) assumption
  have guarded: "triple (\<lambda>s. undecided (sz_outcome s) \<and> is_propagation p) (f p) Q R"
    if "is_propagation p \<Longrightarrow> triple (\<lambda>s. undecided (sz_outcome s)) (f p) Q R" for p f Q R
    using that by (auto simp: triple_def)
  show ?thesis
    unfolding size_measure_def Let_def
    apply (rule size_step, rule preserves_in_size, assumption)+
    apply (rule triple_bind [OF measured], rule guarded, rule rest)
    apply (assumption | rule preserves_in_size)+
    done
qed

lemma size_body_outcome:
  "triple (\<lambda>s. undecided (sz_outcome s)) (size_body E os_environ app seed n)
     (\<lambda>_ s. decided (sz_outcome s)) (\<lambda>s. undecided (sz_outcome s))"
  unfolding size_body_def
  apply (rule size_step, (rule preserves_in_size | rule preserves_modify, simp), assumption)+
  apply (rule triple_case_prod)
  apply (rule size_step, rule preserves_modify, simp, assumption)
  apply (rule size_measure_outcome)
  done

subsection \<open>The outcome of a size\<close>

lemma decided_cases: "undecided out \<Longrightarrow> decided (dict_put ''fatal_error'' (JObj f) out)"
  by (auto simp: undecided_def decided_def outcome_shape_def outcome_verdict_def dict_get_def)

lemma size_try_outcome:
  assumes "size_try E os_environ app seed n s = (r, s')" and "undecided (sz_outcome s)"
  shows "decided (sz_outcome s')"
proof -
  obtain r1 s1 where body: "size_body E os_environ app seed n s = (r1, s1)" by (cases "size_body E os_environ app seed n s")
  define s2 where "s2 = snd (act_catch (size_body E os_environ app seed n) (\<lambda>exc.
          let fatal = fatal_record E exc
          in Some (act_bind (set_outcome ''fatal_error'' (JObj fatal)) (\<lambda>_.
               in_size (do_action E (RecordRaw ''gate_driver''
                 (dict_merge [(''event'', JStr ''size_fatal_error''), (''n_nodes'', JInt n)] fatal)))))) s)"
  have "decided (sz_outcome s2)"
  proof (cases r1)
    case (Inl e)
    then have "undecided (sz_outcome s1)" using size_body_outcome [of E os_environ app seed n] assms(2) body by (fastforce simp: triple_def)
    then show ?thesis
      using body Inl by (simp add: s2_def act_catch_def Let_def act_bind_def set_outcome_def act_modify_def in_size_def
          do_action_def decided_cases)
  next
    case (Inr u)
    then show ?thesis
      using size_body_outcome [of E os_environ app seed n] assms(2) body by (fastforce simp: triple_def s2_def act_catch_def)
  qed
  moreover have "sz_outcome s' = sz_outcome s2"
  proof -
    obtain r3 s3 where "size_cleanup E s2 = (r3, s3)" by (cases "size_cleanup E s2")
    moreover from this have "sz_outcome s3 = sz_outcome s2" by (rule preservesD [OF preserves_cleanup])
    ultimately show ?thesis
      using assms(1) unfolding size_try_def s2_def by (auto simp: act_finally_def split: prod.splits sum.splits)
  qed
  ultimately show ?thesis by simp
qed

definition SCALING_COLUMNS :: "string list" where
  "SCALING_COLUMNS = [''n_nodes'', ''repetition'', ''pass'', ''convergence_s'', ''connections_observed'', ''connections_expected'',
     ''propagation_n_samples'', ''propagation_latency_median_ms'', ''propagation_latency_p95_ms'', ''propagation_latency_p99_ms'',
     ''apply_events_total'', ''lifecycle_events_total'', ''wall_time_s'', ''fatal_error'']"

lemma row_of_shape:
  assumes "outcome_shape out"
  shows "\<exists>row. summary_row n rep out = Inr row \<and> map fst row = SCALING_COLUMNS"
  using assms
  by (auto simp: outcome_shape_def is_propagation_def summary_row_def or_empty_def dict_item_def dict_get_def SCALING_COLUMNS_def
      split: if_splits)

text \<open>
  Property C35 (outcomes of the scaling gate). However a run of one chain size goes, exceptions included: when it returns an
  outcome, the summary row is computed from it without an exception and has the fixed columns, so that the rows of all
  runs fit into one table; and its verdict is a truth value that is true exactly when there was no fatal error,
  the mesh converged and the propagation was observed at every node that should see it.
\<close>

theorem size_outcome_wellformed:
  "case run_one_size E os_environ app seed n w of
     (Inl e, w') \<Rightarrow> True
   | (Inr out, w') \<Rightarrow>
       (\<exists>row. summary_row n rep out = Inr row \<and> map fst row = SCALING_COLUMNS) \<and>
       dict_get out ''pass'' = JBool (dict_get out ''fatal_error'' = JNull \<and> dict_get out ''convergence_s'' \<noteq> JNull \<and>
         (case dict_get out ''propagation'' of JObj p \<Rightarrow> dict_get p ''propagation_ok'' = JBool True | _ \<Rightarrow> False))"
proof -
  have final: "decided (dict_put ''wall_time_s'' v out)" if "decided out" for v out
    using that by (simp add: decided_def outcome_shape_def outcome_verdict_def dict_get_def)
  have "decided out" if run: "run_one_size E os_environ app seed n w = (Inr out, w')" for out w'
  proof -
    let ?start = "\<lambda>launch w. \<lparr>sz_world = w, sz_net = False, sz_nodes = [], sz_barrier = None,
      sz_outcome = [(''n_nodes'', JInt n), (''pass'', JBool False), (''fatal_error'', JNull)], sz_launch = launch\<rparr>"
    obtain launch w2 where try_run: "(case size_try E os_environ app seed n (?start launch w2) of
            (Inl e, s) \<Rightarrow> (Inl e, sz_world s)
          | (Inr _, s) \<Rightarrow>
              act_bind (monotonic E) (\<lambda>t.
                let done = dict_put ''wall_time_s'' (JFloat (t - sz_launch s)) (sz_outcome s)
                in act_bind (act_lift (dict_item done ''pass'')) (\<lambda>pass.
                   act_bind (do_action E (RecordRaw ''gate_driver''
                     [(''event'', JStr ''size_done''), (''n_nodes'', JInt n), (''pass'', pass),
                      (''wall_time_s'', JFloat (t - sz_launch s))])) (\<lambda>_. act_return done))) (sz_world s)) = (Inr out, w')"
      using run unfolding run_one_size_def act_bind_Inr Let_def by blast
    obtain r s' where r: "size_try E os_environ app seed n (?start launch w2) = (r, s')"
      by (cases "size_try E os_environ app seed n (?start launch w2)")
    with try_run obtain t where t: "out = dict_put ''wall_time_s'' (JFloat t) (sz_outcome s')"
      by (cases r) (auto simp: act_bind_Inr Let_def act_return_def)
    obtain s where s: "sz_outcome s = [(''n_nodes'', JInt n), (''pass'', JBool False), (''fatal_error'', JNull)]"
        "size_try E os_environ app seed n s = (r, s')" "out = dict_put ''wall_time_s'' (JFloat t) (sz_outcome s')"
      using r t that [of "?start launch w2"] by simp
    have "undecided (sz_outcome s)" by (auto simp: s(1) undecided_def outcome_shape_def dict_get_def intro: exI [of _ False])
    then show ?thesis using size_try_outcome [OF s(2)] final s(3) by simp
  qed
  then show ?thesis
    using row_of_shape by (auto simp: decided_def outcome_verdict_def split: prod.splits sum.splits)
qed

end
