(* ===== verification/No_Exchange_Gate.thy ===== *)
theory No_Exchange_Gate
  imports Cluster_Attempts
begin

text \<open>
  The baseline without an exchange of state (\<open>network/gate_no_exchange.py\<close>): the four nodes of the mechanism gate
  without any peers, the traffic that would make locations propagate, and the check that none did. The
  topology, the event reader and the waiting repeat those of the mechanism gate. Files and checksums are left out.
\<close>

subsection \<open>The cluster without peers\<close>

definition NO_EXCHANGE_REPETITIONS :: nat where "NO_EXCHANGE_REPETITIONS = 100"

text \<open>The environment of a node, with an empty list of peer addresses.\<close>

definition spawn_isolated :: "env \<Rightarrow> environ \<Rightarrow> string \<Rightarrow> nat \<Rightarrow> (world, unit) act" where
  "spawn_isolated E os_environ app i =
     ask E (SpawnNode i (node_environ os_environ (int i) DEFAULT_OWNER_EPOCH [])
              [''osken-manager'', app, ''--ofp-tcp-listen-port'', py_str (ofp_port i)]) (en_spawn E)"

text \<open>The last failure is raised again.\<close>

fun isolated_attempts :: "env \<Rightarrow> environ \<Rightarrow> string \<Rightarrow> nat \<Rightarrow> nat \<Rightarrow> (world, nat list) act" where
  "isolated_attempts E os_environ app attempt left =
     with_nodes
       (start_nodes E (spawn_isolated E os_environ app) 0.5 READY_TIMEOUT_S
          (\<lambda>i. ''node'' @ nat_str 10 i @ '' never became ready'') cluster_nodes)
       (\<lambda>nodes exc.
          act_bind (attempt_failed E [] attempt max_attempts exc) (\<lambda>_.
          act_bind (stop_cluster E nodes) (\<lambda>_.
          act_bind (run E (pkill_argv app)) (\<lambda>_.
          act_bind (sleep E 1) (\<lambda>_.
            case left of
              0 \<Rightarrow> act_raise exc
            | Suc left' \<Rightarrow> isolated_attempts E os_environ app (attempt + 1) left')))))"

definition start_isolated :: "env \<Rightarrow> environ \<Rightarrow> string \<Rightarrow> (world, nat list) act" where
  "start_isolated E os_environ app = isolated_attempts E os_environ app 1 (max_attempts - 1)"

subsection \<open>The gate\<close>

definition p_present :: "string \<Rightarrow> event_pred" where
  "p_present k e = Inr (dict_get e k \<noteq> JNull)"

definition p_propagated :: event_pred where
  "p_propagated = p_and p_apply (p_has ''origin_node_id'' (JInt 4))"

definition p_local_frame :: event_pred where
  "p_local_frame = p_and p_no_rule (p_and (p_has ''in_port'' (JInt 1)) (p_present ''mac_src''))"

text \<open>\<open>decisions[-5:]\<close>\<close>

definition last_five :: "'a list \<Rightarrow> 'a list" where
  "last_five xs = drop (length xs - 5) xs"

definition flooded :: "dict \<Rightarrow> bool" where
  "flooded e = py_in (dict_get e ''out_port'') [JInt PY_PORT_FLOOD, JInt PY_PORT_NONE]"

definition node_decisions :: "env \<Rightarrow> nat \<Rightarrow> (world, (nat \<times> dict) list) act" where
  "node_decisions E i =
     act_bind (events_matching E i (p_and p_no_rule (p_present ''mac_dst''))) (\<lambda>decisions.
       act_return (map (\<lambda>e. (i, e)) (last_five decisions)))"

definition flood_evidence :: "(nat \<times> dict) list \<Rightarrow> json list" where
  "flood_evidence decisions =
     map (\<lambda>(i, e). JObj [(''node'', JInt (int i)), (''mac_dst'', dict_get e ''mac_dst''), (''out_port'', dict_get e ''out_port'')])
       decisions"

definition no_exchange_traffic :: "env \<Rightarrow> nat \<Rightarrow> (world, unit) act" where
  "no_exchange_traffic E repetitions = act_each (\<lambda>_. g1_repetition E) [0..<repetitions]"

text \<open>The second part: traffic towards h4 with the flows towards it removed, and the decisions it met.\<close>

definition cross_node_decisions :: "env \<Rightarrow> (world, (nat \<times> dict) list) act" where
  "cross_node_decisions E =
     act_bind (ask E (HostMAC ''h4'') (en_name E)) (\<lambda>h4_mac.
     act_bind (act_each (\<lambda>sw. act_bind (run E (del_flows_argv sw (''dl_dst='' @ h4_mac))) (\<lambda>_. act_return ())) [''s1'', ''s2'', ''s3'']) (\<lambda>_.
     act_bind (host_cmd E ''h1'' (ping_cmd 1 4)) (\<lambda>_.
     act_bind (sleep E 0.3) (\<lambda>_.
     act_bind (act_map (node_decisions E) [1, 2, 3]) (\<lambda>per_node. act_return (concat per_node))))))"

definition gate_no_exchange :: "env \<Rightarrow> nat \<Rightarrow> (world, dict) act" where
  "gate_no_exchange E repetitions =
     act_bind (no_exchange_traffic E repetitions) (\<lambda>_.
     act_bind (act_map (\<lambda>i. events_matching E i p_propagated) [1, 2, 3]) (\<lambda>propagation.
     act_bind (act_map (\<lambda>i. events_matching E i p_lifecycle) cluster_nodes) (\<lambda>lifecycle.
     act_bind (wait_for E 4 p_local_frame 5) (\<lambda>local_learn.
     act_bind (cross_node_decisions E) (\<lambda>decisions.
       let n_propagation = length (concat propagation); n_lifecycle = length (concat lifecycle);
           always_flooded = list_all (\<lambda>(i, e). flooded e) decisions
       in act_return
         [(''gate'', JStr ''no_exchange_propagation''),
          (''description'', JStr (''with peer dissemination disabled, propagation must be exactly zero, '' @
             ''and cross-node forwarding decisions must stay FLOOD -- both are the expected, correct result of this baseline, not a failure'')),
          (''pass'', JBool (n_propagation = 0 \<and> n_lifecycle = 0 \<and> opt_truth local_learn \<and> always_flooded)),
          (''n_repetitions_sent'', JInt (int repetitions)),
          (''propagation_events_observed'', JInt (int n_propagation)),
          (''lifecycle_events_observed'', JInt (int n_lifecycle)),
          (''node4_local_learn_confirmed'', JBool (opt_truth local_learn)),
          (''cross_node_decisions_always_flooded'', JBool always_flooded),
          (''flood_evidence_sample'', JList (flood_evidence decisions))])))))"

subsection \<open>Repetitions\<close>

definition repetition_body :: "env \<Rightarrow> environ \<Rightarrow> string \<Rightarrow> (gate_state, dict) act" where
  "repetition_body E os_environ app =
     act_bind (on_world (run E [''mn'', ''-c''])) (\<lambda>_.
     act_bind (on_world (run E (pkill_argv app))) (\<lambda>_.
     act_bind (on_world (sleep E 0.3)) (\<lambda>_.
     act_bind (act_lift (ChainTopo_build N_NODES)) (\<lambda>_.
     act_bind (act_modify (\<lambda>s. s\<lparr>gs_net := True\<rparr>)) (\<lambda>_.
     act_bind (on_world (ask E StartNet (en_net E))) (\<lambda>_.
     act_bind (on_world (start_isolated E os_environ app)) (\<lambda>nodes.
     act_bind (act_modify (\<lambda>s. s\<lparr>gs_nodes := nodes\<rparr>)) (\<lambda>_.
       on_world (gate_no_exchange E NO_EXCHANGE_REPETITIONS)))))))))"

text \<open>The result and the fatal error of a repetition; the cleanup is that of the mechanism gate.\<close>

definition repetition_try :: "env \<Rightarrow> environ \<Rightarrow> string \<Rightarrow> (gate_state, dict option \<times> dict option) act" where
  "repetition_try E os_environ app =
     act_finally
       (act_catch (act_bind (repetition_body E os_environ app) (\<lambda>result. act_return (Some result, None))) (\<lambda>exc.
          let fatal = fatal_record E exc
          in Some (act_bind (on_world (do_action E (RecordRaw ''gate_driver'' (dict_merge [(''event'', JStr ''fatal_error'')] fatal))))
               (\<lambda>_. act_return (None, Some fatal)))))
       (main_cleanup E)"

record repetition =
  rp_rep :: nat
  rp_result :: "dict option"
  rp_fatal :: "dict option"

definition run_one_repetition :: "env \<Rightarrow> environ \<Rightarrow> string \<Rightarrow> nat \<Rightarrow> (world, repetition) act" where
  "run_one_repetition E os_environ app rep w =
     (case repetition_try E os_environ app \<lparr>gs_world = w, gs_net = False, gs_nodes = [], gs_results = []\<rparr> of
        (Inl e, s) \<Rightarrow> (Inl e, gs_world s)
      | (Inr (result, fatal), s) \<Rightarrow> (Inr \<lparr>rp_rep = rep, rp_result = result, rp_fatal = fatal\<rparr>, gs_world s))"

definition repetition_passes :: "repetition \<Rightarrow> bool res" where
  "repetition_passes r =
     (case rp_result r of
        None \<Rightarrow> Inr False
      | Some result \<Rightarrow> if result = [] then Inr False else report_passes result)"

record no_exchange_manifest =
  nm_repetitions :: "repetition list"
  nm_n_passed :: nat
  nm_pass_rate :: rat

definition no_exchange_main :: "env \<Rightarrow> environ \<Rightarrow> string \<Rightarrow> nat \<Rightarrow> (world, no_exchange_manifest) act" where
  "no_exchange_main E os_environ app repetitions =
     act_bind (act_map (run_one_repetition E os_environ app) [0..<repetitions]) (\<lambda>reps.
     act_bind (act_lift (res_map repetition_passes reps)) (\<lambda>passes.
       act_return \<lparr>nm_repetitions = reps, nm_n_passed = length (filter (\<lambda>b. b) passes),
         nm_pass_rate = (if passes \<noteq> [] then of_nat (length (filter (\<lambda>b. b) passes)) / of_nat (length passes) else 0)\<rparr>))"

end
