(* ===== verification/No_Exchange_Laws.thy ===== *)
theory No_Exchange_Laws
  imports No_Exchange_Gate
begin

text \<open>
  Why the baseline without an exchange of state sees only flooding: a node that is launched without peers never
  decides a port for an address it did not see on its own host port.
\<close>

subsection \<open>Runs of packets\<close>

definition run_packets :: "executor \<Rightarrow> (u64 \<times> string \<times> no_rule_packet_info) list \<Rightarrow> process \<Rightarrow> process" where
  "run_packets exec ps p = fold (\<lambda>(now, bridge, info). snd \<circ> daim_distributed_learning_app_packet_in exec now bridge info) ps p"

text \<open>The node's own host never used the address as a source.\<close>

definition never_local :: "u16 \<Rightarrow> bytes \<Rightarrow> u64 \<times> string \<times> no_rule_packet_info \<Rightarrow> bool" where
  "never_local hport m f \<longleftrightarrow> (case f of (now, bridge, info) \<Rightarrow> info_in_port info \<noteq> hport \<or> \<not> mac_eq (info_mac_src info) m)"

lemma learn_other:
  assumes "\<not> mac_eq m m'" and "daim_host_lookup s m' = None"
  shows "daim_host_lookup (snd (daim_host_learn_local now m dpid port s)) m' = None"
proof (cases "ready s \<and> has_room m (table s)")
  case True
  then show ?thesis using lookup_learn(2) [of s m now dpid port m'] assms by simp
next
  case False
  then have "table (snd (daim_host_learn_local now m dpid port s)) = table s"
    by (auto simp: daim_host_learn_local_def has_room_def Let_def split: option.splits)
  moreover have "ready (snd (daim_host_learn_local now m dpid port s)) = ready s"
    by (auto simp: daim_host_learn_local_def Let_def split: option.splits)
  ultimately show ?thesis using assms(2) by (simp add: daim_host_lookup_def split: if_splits)
qed

lemma install_flow_core: "daim_core_emit sig (pr_core (act_on_decision exec info port p)) = daim_core_emit sig (pr_core p)"
  by (auto simp: act_on_decision_def Let_def daim_core_emit_def daim_table_write_def set_store_def split: option.splits)

lemma isolated_packet:
  fixes exec :: executor
  assumes "handles_packets p" and "never_local (host_port (pr_app p)) m (now, bridge, info)" and "daim_host_lookup (pr_hosts p) m = None"
  defines "q \<equiv> snd (daim_distributed_learning_app_packet_in exec now bridge info p)"
  shows "handles_packets q" and "host_port (pr_app q) = host_port (pr_app p)" and "daim_host_lookup (pr_hosts q) m = None"
    and "info_mac_dst info = m \<Longrightarrow> fst (daim_distributed_learning_app_packet_in exec now bridge info p) = PORT_FLOOD \<and>
      pr_commands q = pr_commands p"
proof -
  let ?l = "learned_process now bridge info p"
  have q: "q = act_on_decision exec info (decide ?l (info_mac_dst info)) ?l"
    "fst (daim_distributed_learning_app_packet_in exec now bridge info p) = decide ?l (info_mac_dst info)"
    by (simp_all add: q_def packet_in_handled [OF assms(1)] Let_def)
  have l: "daim_host_lookup (pr_hosts ?l) m = None"
    using assms(2,3) by (auto simp: learned_hosts never_local_def intro: learn_other)
  have config: "same_config p ?l" "same_config ?l q"
    using learned_config act_on_decision_config q(1) by auto
  then show "host_port (pr_app q) = host_port (pr_app p)" by (simp add: same_config_def)
  show "daim_host_lookup (pr_hosts q) m = None" using l by (simp add: q(1) act_on_decision_frame)
  show "handles_packets q"
    using assms(1) config by (simp add: handles_packets_def same_config_def q(1) install_flow_core) (simp add: learned_process_def)
  assume "info_mac_dst info = m"
  then have "decide ?l (info_mac_dst info) = PORT_FLOOD" using l by (simp add: decide_def)
  then show "fst (daim_distributed_learning_app_packet_in exec now bridge info p) = PORT_FLOOD \<and> pr_commands q = pr_commands p"
    by (simp add: q act_on_decision_def Let_def)
qed

lemma isolated_run:
  assumes "handles_packets p" and "daim_host_lookup (pr_hosts p) m = None" and "\<forall>f \<in> set ps. never_local (host_port (pr_app p)) m f"
  shows "handles_packets (run_packets exec ps p) \<and> host_port (pr_app (run_packets exec ps p)) = host_port (pr_app p) \<and>
    daim_host_lookup (pr_hosts (run_packets exec ps p)) m = None"
  using assms
proof (induction ps arbitrary: p)
  case (Cons f ps)
  obtain now bridge info where f: "f = (now, bridge, info)" by (cases f)
  let ?q = "snd (daim_distributed_learning_app_packet_in exec now bridge info p)"
  have "never_local (host_port (pr_app p)) m (now, bridge, info)" using Cons.prems(3) f by simp
  note q = isolated_packet(1-3) [OF Cons.prems(1) this Cons.prems(2), of exec]
  have "\<forall>f \<in> set ps. never_local (host_port (pr_app ?q)) m f" using Cons.prems(3) q(2) by simp
  from Cons.IH [OF q(1,3) this] q(2) show ?case by (simp add: run_packets_def f)
qed (simp add: run_packets_def)

text \<open>
  Property C36 (no exchange, no direction). A node of the no-exchange baseline starts without dialling anyone. Whatever frames it
  handles, as long as its own host never used an address as a source, a frame to this address is decided to be
  flooded, which the gate counts as flooded, and no flow is installed for it.
\<close>

theorem no_exchange_floods:
  assumes "1 \<le> i" and "i \<le> N_NODES"
    and "node_can_start (ce_node E) (int i) DEFAULT_OWNER_EPOCH (map int [1..<N_NODES + 1]) (PEER_BASE_PORT + int i)"
    and "\<forall>k. ne_thread_ok (ce_node E) k" and "map_of os_environ ''DAIM_PEER_BARRIER_FILE'' = None"
    and "\<forall>f \<in> set (ps @ [(now, bridge, info)]). never_local 1 (info_mac_dst info) f"
  shows "\<exists>cfg s. read_config (node_environ os_environ (int i) DEFAULT_OWNER_EPOCH []) = Inr cfg \<and>
    DistributedNodeController_init E cfg controller0 = (Inr (), s) \<and> nd_peers (ct_node s) = [] \<and>
    (case daim_distributed_learning_app_packet_in exec now bridge info (run_packets exec ps (nd_process (ct_node s))) of
       (port, q) \<Rightarrow> port = PORT_FLOOD \<and> flooded [(''out_port'', JInt (uint port))] \<and>
         pr_commands q = pr_commands (run_packets exec ps (nd_process (ct_node s))))"
proof -
  let ?cfg = "launched_config os_environ (int i) DEFAULT_OWNER_EPOCH []"
  let ?p = "started (cc_node_id ?cfg) (cc_owner_epoch ?cfg) (cc_chain_order ?cfg) (cc_port_toward_lower ?cfg)
    (cc_port_toward_higher ?cfg) HOST_PORT"
  let ?s = "controller0\<lparr>ct_node := node0\<lparr>nd_process := ?p, nd_peers := []\<rparr>\<rparr>"
  have run: "DistributedNodeController_init E ?cfg controller0 = (Inr (), ?s)"
    using controller_init_run [of E ?cfg "[]"] assms(3-5) by (simp add: launched_config_def)
  have chain: "0 < length (cc_chain_order ?cfg)" "length (cc_chain_order ?cfg) \<le> DAIM_DIST_MAX_CHAIN"
    by (simp_all add: launched_config_def N_NODES_def DAIM_DIST_MAX_CHAIN_def)
  note p = started_simps [OF chain, of "cc_node_id ?cfg" "cc_owner_epoch ?cfg" "cc_port_toward_lower ?cfg" "cc_port_toward_higher ?cfg" HOST_PORT]
  have port: "host_port (pr_app ?p) = 1" using p(7) by (simp add: HOST_PORT_def)
  have "daim_host_lookup (pr_hosts ?p) (info_mac_dst info) = None"
    by (simp add: p(4) daim_host_lookup_def daim_host_state_init_def)
  then have after: "handles_packets (run_packets exec ps ?p)" "host_port (pr_app (run_packets exec ps ?p)) = 1"
      "daim_host_lookup (pr_hosts (run_packets exec ps ?p)) (info_mac_dst info) = None"
    using isolated_run [OF p(1), of "info_mac_dst info" ps exec] assms(6) port by simp_all
  have "never_local (host_port (pr_app (run_packets exec ps ?p))) (info_mac_dst info) (now, bridge, info)"
    using assms(6) after(2) by simp
  note decided = isolated_packet(4) [OF after(1) this after(3), of exec]
  have "flooded [(''out_port'', JInt (uint PORT_FLOOD))]"
    by (simp add: flooded_def py_in_def dict_get_def PY_PORT_FLOOD_def PORT_FLOOD_def)
  with decided have "case daim_distributed_learning_app_packet_in exec now bridge info (run_packets exec ps ?p) of
       (port, q) \<Rightarrow> port = PORT_FLOOD \<and> flooded [(''out_port'', JInt (uint port))] \<and> pr_commands q = pr_commands (run_packets exec ps ?p)"
    by (auto split: prod.splits)
  moreover have "nd_process (ct_node ?s) = ?p" "nd_peers (ct_node ?s) = []" by simp_all
  ultimately show ?thesis
    using run read_launched [of "[]" os_environ "int i" DEFAULT_OWNER_EPOCH] by (intro exI [of _ ?cfg] exI [of _ ?s]) simp
qed

theorem no_exchange_floods_witness:
  "\<exists>s :: controller. nd_peers (ct_node s) = [] \<and>
    fst (daim_distributed_learning_app_packet_in (\<lambda>_ _. 0) 9 ''s2'' (sample_info 3 7 4)
      (run_packets (\<lambda>_ _. 0) [(5, ''s2'', sample_info 1 6 4)] (nd_process (ct_node s)))) = PORT_FLOOD"
proof -
  have can: "node_can_start (ce_node sample_controller_env) (int 2) DEFAULT_OWNER_EPOCH (map int [1..<N_NODES + 1]) (PEER_BASE_PORT + int 2)"
    by (simp add: node_can_start_def sample_controller_env_def sample_env_def N_NODES_def DAIM_DIST_MAX_CHAIN_def)
  have threads: "\<forall>k. ne_thread_ok (ce_node sample_controller_env) k"
    by (simp add: sample_controller_env_def sample_env_def)
  have frames: "\<forall>f \<in> set ([(5, ''s2'', sample_info 1 6 4)] @ [(9, ''s2'', sample_info 3 7 4)]).
      never_local 1 (info_mac_dst (sample_info 3 7 4)) f"
    by (simp add: never_local_def sample_info_def mac_eq_def MAC_ADDR_LEN_def)
  have small: "1 \<le> (2 :: nat)" "2 \<le> N_NODES" "map_of ([] :: environ) ''DAIM_PEER_BARRIER_FILE'' = None"
    by (simp_all add: N_NODES_def)
  let ?e = "\<lambda>_ _. 0" and ?i = "sample_info 3 7 4"
  obtain s :: controller where s: "nd_peers (ct_node s) = []"
      "case daim_distributed_learning_app_packet_in ?e 9 ''s2'' ?i (run_packets ?e [(5, ''s2'', sample_info 1 6 4)] (nd_process (ct_node s))) of
        (port, q) \<Rightarrow> port = PORT_FLOOD \<and> flooded [(''out_port'', JInt (uint port))] \<and>
          pr_commands q = pr_commands (run_packets ?e [(5, ''s2'', sample_info 1 6 4)] (nd_process (ct_node s)))"
    using no_exchange_floods [OF small(1,2) can threads small(3) frames, of ?e] by (elim exE conjE) (rule that)
  from s(2) have "fst (daim_distributed_learning_app_packet_in ?e 9 ''s2'' ?i
      (run_packets ?e [(5, ''s2'', sample_info 1 6 4)] (nd_process (ct_node s)))) = PORT_FLOOD"
    by (simp only: split_def)
  with s(1) show ?thesis by (intro exI conjI)
qed

end
