(* ===== verification/Latency_Trials.thy ===== *)
theory Latency_Trials
  imports Gate_Checks
begin

text \<open>
  The latency experiment of the single-controller mode (\<open>network/packetin_latency_breakdown.py\<close>): reading the output of
  the controller process until an event, one trial on a fresh switch, and the shuffled run of all trials with its table.
  The controller process is process 0 of \<open>Harness\<close>. Its output is read from the pipe line by line; a process that
  ends, by itself or by the watchdog, has printed finitely many lines.
\<close>

subsection \<open>The output of the controller\<close>

definition CONTROLLER :: nat where "CONTROLLER = 0"

definition lines_read :: "action list \<Rightarrow> nat" where
  "lines_read hist = length (filter (\<lambda>a. a = ReadLine) (drop (spawned_at hist CONTROLLER) hist))"

definition lines_printed :: "env \<Rightarrow> action list \<Rightarrow> nat" where
  "lines_printed E hist = en_printed E (take (spawned_at hist CONTROLLER) hist)"

text \<open>\<open>proc.stdout.readline()\<close>: empty at the end of the output.\<close>

definition piped_line :: "env \<Rightarrow> action list \<Rightarrow> string" where
  "piped_line E hist = (if lines_printed E hist < lines_read hist then [] else en_readline E hist)"

type_synonym value_pred = "json \<Rightarrow> bool res"

definition raw_output :: "string \<Rightarrow> json" where
  "raw_output line = JObj [(''event'', JStr ''raw_output''), (''line'', JStr line)]"

lemma spawned_at_step: "\<not> spawns n a \<Longrightarrow> spawned_at (h @ [a]) n = spawned_at h n"
  by (simp add: spawned_at_def)

lemma spawned_at_le: "spawned_at h n \<le> length h"
  by (simp add: spawned_at_def)

lemma lines_printed_step: "\<not> spawns CONTROLLER a \<Longrightarrow> lines_printed E (h @ [a]) = lines_printed E h"
  using spawned_at_le [of h CONTROLLER] by (simp add: lines_printed_def spawned_at_step)

lemma lines_read_step: "\<not> spawns CONTROLLER a \<Longrightarrow> lines_read (h @ [a]) = lines_read h + (if a = ReadLine then 1 else 0)"
  using spawned_at_le [of h CONTROLLER] by (simp add: lines_read_def spawned_at_step)

lemma read_line_measure:
  assumes "piped_line E (w_log (perform E ReadLine (perform E Clock w))) \<noteq> []"
  shows "Suc (lines_printed E (w_log (perform E ReadLine (perform E Clock w)))) - lines_read (w_log (perform E ReadLine (perform E Clock w)))
    < Suc (lines_printed E (w_log w)) - lines_read (w_log w)"
proof -
  have "w_log (perform E ReadLine (perform E Clock w)) = (w_log w @ [Clock]) @ [ReadLine]" by simp
  moreover have "lines_read ((w_log w @ [Clock]) @ [ReadLine]) = lines_read (w_log w) + 1"
    by (simp only: lines_read_step spawns.simps not_False_eq_True action.distinct if_False if_True simp_thms add_0_right)
  moreover have "lines_printed E ((w_log w @ [Clock]) @ [ReadLine]) = lines_printed E (w_log w)"
    by (simp only: lines_printed_step spawns.simps not_False_eq_True)
  ultimately show ?thesis using assms by (auto simp: piped_line_def split: if_splits)
qed

text \<open>
  The loop of \<open>read_json_lines_until\<close>, with the events read so far. Every round reads a line, so it ends with the output
  if not before.
\<close>

function read_until :: "env \<Rightarrow> value_pred \<Rightarrow> rat \<Rightarrow> json list \<Rightarrow> world \<Rightarrow> (json option \<times> json list) res \<times> world" where
  "read_until E P deadline events w =
     (let w1 = perform E Clock w
      in if \<not> w_now w1 < deadline then (Inr (None, events), w1)
         else
           let w2 = perform E ReadLine w1; read = piped_line E (w_log w2); line = py_strip read
           in if read = [] then (Inr (None, events), w2)
              else if line = [] then read_until E P deadline events w2
              else case en_loads E line of
                  Inl JSONDecodeError \<Rightarrow> read_until E P deadline (events @ [raw_output line]) w2
                | Inl e \<Rightarrow> (Inl e, w2)
                | Inr event \<Rightarrow>
                    (case P event of
                       Inl e \<Rightarrow> (Inl e, w2)
                     | Inr True \<Rightarrow> (Inr (Some event, events @ [event]), w2)
                     | Inr False \<Rightarrow> read_until E P deadline (events @ [event]) w2))"
  by pat_completeness auto
termination
  by (relation "measure (\<lambda>(E, P, deadline, events, w). lines_printed E (w_log w) + 1 - lines_read (w_log w))")
    (auto intro: read_line_measure simp del: perform_log)

declare read_until.simps [simp del]

definition read_json_lines_until :: "env \<Rightarrow> value_pred \<Rightarrow> rat \<Rightarrow> (world, json option \<times> json list) act" where
  "read_json_lines_until E P timeout_s = act_bind (monotonic E) (\<lambda>t. read_until E P (t + timeout_s) [])"

subsection \<open>One trial\<close>

definition H1_IP :: string where "H1_IP = ''10.0.0.1''"
definition H2_IP :: string where "H2_IP = ''10.0.0.2''"
definition H3_IP :: string where "H3_IP = ''10.0.0.3''"

definition SEED :: int where "SEED = 20260719"
definition OFP_PORT :: int where "OFP_PORT = 6653"
definition PERSISTENT_BASE_PORT :: int where "PERSISTENT_BASE_PORT = 17200"
definition TRIAL_READY_TIMEOUT_S :: rat where "TRIAL_READY_TIMEOUT_S = 20"
definition TIMING_TIMEOUT_S :: rat where "TIMING_TIMEOUT_S = 10"

definition SingleSwitchTopo_build :: chain_topo where
  "SingleSwitchTopo_build =
     \<lparr>topo_switches = [''s1''], topo_hosts = [(''h1'', H1_IP @ ''/24''), (''h2'', H2_IP @ ''/24''), (''h3'', H3_IP @ ''/24'')],
      topo_links = [(''h1'', ''s1''), (''h2'', ''s1''), (''h3'', ''s1'')]\<rparr>"

text \<open>\<open>lambda e: e.get("event") in names\<close>\<close>

definition v_event_in :: "string list \<Rightarrow> value_pred" where
  "v_event_in names v =
     (case v of JObj d \<Rightarrow> Inr (py_in (dict_get d ''event'') (map JStr names)) | _ \<Rightarrow> Inl AttributeError)"

definition port_str :: "int option \<Rightarrow> string" where
  "port_str port = (case port of None \<Rightarrow> ''None'' | Some p \<Rightarrow> py_str p)"

definition trial_environ :: "environ \<Rightarrow> string \<Rightarrow> int option \<Rightarrow> environ" where
  "trial_environ os_environ mode port =
     (let env = dict_put ''DAIM_TARGET_IP'' H2_IP (dict_put ''DAIM_ADAPTER_MODE'' mode os_environ)
      in if mode = ''persistent'' then dict_put ''DAIM_PERSISTENT_PORT'' (port_str port) env else env)"

definition trial_app :: "string \<Rightarrow> string \<Rightarrow> string \<Rightarrow> string" where
  "trial_app app baseline mode = (if mode = ''reactive_osken'' then baseline else app)"

definition trial_argv :: "string \<Rightarrow> string list" where
  "trial_argv controller_app = [''osken-manager'', controller_app, ''--ofp-tcp-listen-port'', py_str OFP_PORT]"

definition controller_targets :: "string \<Rightarrow> int option \<Rightarrow> string list" where
  "controller_targets mode port =
     (''tcp:127.0.0.1:'' @ py_str OFP_PORT) # (if mode = ''persistent'' then [''tcp:127.0.0.1:'' @ port_str port] else [])"

text \<open>The last \<open>n\<close> elements, \<open>xs[-n:]\<close>.\<close>

definition last_n :: "nat \<Rightarrow> 'a list \<Rightarrow> 'a list" where
  "last_n n xs = drop (length xs - n) xs"

definition trial_label :: "string \<Rightarrow> nat \<Rightarrow> string" where
  "trial_label mode rep = mode @ '' rep '' @ nat_str 10 rep"

definition await_controller :: "env \<Rightarrow> string \<Rightarrow> nat \<Rightarrow> (world, unit) act" where
  "await_controller E mode rep =
     act_bind (read_json_lines_until E (v_event_in [''ready'', ''adapter_error'']) TRIAL_READY_TIMEOUT_S) (\<lambda>(ready, ready_events).
       case ready of
         None \<Rightarrow> act_raise (RuntimeError (trial_label mode rep @ '': controller never became ready; last output='' @
                   en_str E (JList (last_n 12 ready_events))))
       | Some (JObj d) \<Rightarrow>
           if py_eq (dict_get d ''event'') (JStr ''adapter_error'')
           then act_raise (RuntimeError (trial_label mode rep @ '': adapter_error: '' @ en_str E (dict_get d ''detail'')))
           else act_return ()
       | Some _ \<Rightarrow> act_raise AttributeError)"

definition priming_ok :: "string \<Rightarrow> bool" where
  "priming_ok prime \<longleftrightarrow> no_packet_loss prime \<or> py_substring ''1 packets transmitted, 2 received'' prime"

definition trial_row :: "string \<Rightarrow> nat \<Rightarrow> string \<Rightarrow> string \<Rightarrow> dict \<Rightarrow> dict" where
  "trial_row mode rep prime timed_ping timing =
     dict_merge
       [(''mode'', JStr mode), (''repetition'', JInt (int rep)), (''priming_ok'', JInt (of_bool (priming_ok prime))),
        (''ping_success'', JInt (of_bool (no_packet_loss timed_ping))), (''evidence_level'', JStr ''measured_emulation'')]
       (filter (\<lambda>(k, v). k \<noteq> ''event'') timing)"

record trial_state =
  tr_world :: world
  tr_net :: bool

definition in_trial :: "(world, 'a) act \<Rightarrow> (trial_state, 'a) act" where
  "in_trial m s = (case m (tr_world s) of (r, w) \<Rightarrow> (r, s\<lparr>tr_world := w\<rparr>))"

text \<open>The pings and the report of the measured packet.\<close>

definition trial_measure :: "env \<Rightarrow> string \<Rightarrow> nat \<Rightarrow> (world, dict) act" where
  "trial_measure E mode rep =
     act_bind (host_cmd E ''h3'' (''ping -c 2 -W 1 '' @ H2_IP)) (\<lambda>prime.
     act_bind (host_cmd E ''h1'' (''ping -c 1 -W 1 '' @ H2_IP)) (\<lambda>timed_ping.
     act_bind (read_json_lines_until E (v_event_in [''timing'']) TIMING_TIMEOUT_S) (\<lambda>(timing, _).
     act_bind (do_action E SetWatchdog) (\<lambda>_.
       case timing of
         Some (JObj d) \<Rightarrow> act_return (trial_row mode rep prime timed_ping d)
       | Some _ \<Rightarrow> act_raise AttributeError
       | None \<Rightarrow> act_raise (RuntimeError (trial_label mode rep @ '': no timing event reported''))))))"

definition trial_body :: "env \<Rightarrow> string \<Rightarrow> nat \<Rightarrow> int option \<Rightarrow> (trial_state, dict) act" where
  "trial_body E mode rep port =
     act_bind (act_modify (\<lambda>s. s\<lparr>tr_net := True\<rparr>)) (\<lambda>_.
     act_bind (in_trial (ask E StartNet (en_net E))) (\<lambda>_.
     act_bind (in_trial (run_check E ([''ovs-vsctl'', ''set-controller'', ''s1''] @ controller_targets mode port))) (\<lambda>_.
     act_bind (in_trial (await_controller E mode rep)) (\<lambda>_.
     act_bind (in_trial (sleep E 0.15)) (\<lambda>_.
       in_trial (trial_measure E mode rep))))))"

definition trial_cleanup :: "env \<Rightarrow> (trial_state, unit) act" where
  "trial_cleanup E s =
     act_bind (in_trial (do_action E SetWatchdog)) (\<lambda>_.
     act_bind (if tr_net s then in_trial (ask E StopNet (en_net E)) else act_return ()) (\<lambda>_.
     act_bind (in_trial (node_terminate E CONTROLLER)) (\<lambda>_.
     act_bind (in_trial (run E [''mn'', ''-c''])) (\<lambda>_. act_return ())))) s"

text \<open>Before the try block: the remains of earlier runs, the controller process and the watchdog.\<close>

definition trial_start :: "env \<Rightarrow> environ \<Rightarrow> string \<Rightarrow> string \<Rightarrow> string \<Rightarrow> int option \<Rightarrow> (world, unit) act" where
  "trial_start E os_environ app baseline mode port =
     act_bind (run E [''mn'', ''-c'']) (\<lambda>_.
     act_bind (run E [''pkill'', ''-9'', ''-f'', app]) (\<lambda>_.
     act_bind (run E [''pkill'', ''-9'', ''-f'', baseline]) (\<lambda>_.
     act_bind (sleep E 0.2) (\<lambda>_.
     act_bind (ask E (SpawnNode CONTROLLER (trial_environ os_environ mode port) (trial_argv (trial_app app baseline mode)))
                (en_spawn E)) (\<lambda>_.
       do_action E (StartWatchdog (TRIAL_READY_TIMEOUT_S + TIMING_TIMEOUT_S + 15)))))))"

definition run_trial :: "env \<Rightarrow> environ \<Rightarrow> string \<Rightarrow> string \<Rightarrow> string \<Rightarrow> nat \<Rightarrow> int option \<Rightarrow> (world, dict) act" where
  "run_trial E os_environ app baseline mode rep port =
     act_bind (trial_start E os_environ app baseline mode port) (\<lambda>_ w.
       case act_finally (trial_body E mode rep port) (trial_cleanup E) \<lparr>tr_world = w, tr_net = False\<rparr> of
         (r, s) \<Rightarrow> (r, tr_world s))"

subsection \<open>All trials\<close>

definition latency_modes :: "environ \<Rightarrow> string list" where
  "latency_modes os_environ = py_split CHR '','' (environ_get os_environ ''PACKETIN_MODES'' ''process_per_rule,persistent,reactive_osken'')"

definition latency_repetitions :: "environ \<Rightarrow> int res" where
  "latency_repetitions os_environ = py_int 10 (environ_get os_environ ''PACKETIN_REPETITIONS'' ''30'')"

definition all_trials :: "string list \<Rightarrow> int \<Rightarrow> (string \<times> nat) list" where
  "all_trials modes repetitions = concat (map (\<lambda>mode. map (Pair mode) [1..<nat repetitions + 1]) modes)"

text \<open>
  \<open>random.Random(seed).shuffle\<close>: from the end, every element changes places with a random one that is not behind it;
  \<open>rnd k n\<close> is the k-th random number, below \<open>n\<close>.
\<close>

definition swap_items :: "'a list \<Rightarrow> nat \<Rightarrow> int \<Rightarrow> 'a list res" where
  "swap_items xs i j =
     (if i < length xs \<and> 0 \<le> j \<and> nat j < length xs then Inr (xs[i := xs ! nat j, nat j := xs ! i]) else Inl IndexError)"

fun shuffle_from :: "(nat \<Rightarrow> nat \<Rightarrow> int) \<Rightarrow> nat \<Rightarrow> nat \<Rightarrow> 'a list \<Rightarrow> 'a list res" where
  "shuffle_from rnd k 0 xs = Inr xs"
| "shuffle_from rnd k (Suc i) xs = res_bind (swap_items xs (Suc i) (rnd k (i + 2))) (shuffle_from rnd (k + 1) i)"

definition py_shuffle :: "(nat \<Rightarrow> nat \<Rightarrow> int) \<Rightarrow> 'a list \<Rightarrow> 'a list res" where
  "py_shuffle rnd xs = shuffle_from rnd 0 (length xs - 1) xs"

text \<open>The ports that the trials of a list get, counted in the order of the persistent ones.\<close>

fun run_trials ::
    "env \<Rightarrow> environ \<Rightarrow> string \<Rightarrow> string \<Rightarrow> nat \<Rightarrow> nat \<Rightarrow> int \<Rightarrow> (string \<times> nat) list \<Rightarrow> (world, dict list) act" where
  "run_trials E os_environ app baseline n_trials order counter [] = act_return []"
| "run_trials E os_environ app baseline n_trials order counter ((mode, rep) # trials) =
     (let port = (if mode = ''persistent'' then Some (PERSISTENT_BASE_PORT + counter) else None);
          counter' = (if mode = ''persistent'' then counter + 1 else counter)
      in act_bind (do_action E (Print (''trial '' @ nat_str 10 order @ ''/'' @ nat_str 10 n_trials @ '': mode='' @ mode @
             '' repetition='' @ nat_str 10 rep))) (\<lambda>_.
         act_bind (run_trial E os_environ app baseline mode rep port) (\<lambda>row.
         act_bind (run_trials E os_environ app baseline n_trials (order + 1) counter' trials) (\<lambda>rows.
           act_return (dict_put ''trial_order'' (JInt (int order)) row # rows)))))"

definition add_field :: "string list \<Rightarrow> string \<Rightarrow> string list" where
  "add_field fieldnames key = (if key \<in> set fieldnames then fieldnames else fieldnames @ [key])"

definition csv_fields :: "dict list \<Rightarrow> string list" where
  "csv_fields rows = foldl (\<lambda>fs row. foldl add_field fs (map fst row)) [] rows"

text \<open>A cell of the table is the value of the field, or empty.\<close>

definition csv_cells :: "dict list \<Rightarrow> json list list" where
  "csv_cells rows = map (\<lambda>row. map (\<lambda>k. dict_get_or row k (JStr [])) (csv_fields rows)) rows"

definition latency_main :: "env \<Rightarrow> environ \<Rightarrow> string \<Rightarrow> string \<Rightarrow> (world, string list \<times> json list list) act" where
  "latency_main E os_environ app baseline =
     act_bind (act_lift (latency_repetitions os_environ)) (\<lambda>repetitions.
     act_bind (act_lift (py_shuffle (en_randrange E SEED) (all_trials (latency_modes os_environ) repetitions))) (\<lambda>trials.
     act_bind (run_trials E os_environ app baseline (length trials) 1 0 trials) (\<lambda>rows.
       act_return (csv_fields rows, csv_cells rows))))"

end
