(* ===== verification/Latency_Laws.thy ===== *)
theory Latency_Laws
  imports Latency_Trials Gate_Laws "HOL-Library.Multiset"
begin

text \<open>
  The latency experiment runs every trial once, in a shuffled order, each with a process of its own; and reading the output of the
  controller stops at the first event asked for.
\<close>

subsection \<open>Shuffling\<close>

definition random_below :: "(nat \<Rightarrow> nat \<Rightarrow> int) \<Rightarrow> bool" where
  "random_below rnd \<longleftrightarrow> (\<forall>k n. 0 < n \<longrightarrow> 0 \<le> rnd k n \<and> rnd k n < int n)"

lemma swap_items_mset: "swap_items xs i j = Inr ys \<Longrightarrow> mset ys = mset xs"
  by (auto simp: swap_items_def mset_swap split: if_splits)

lemma shuffle_from_ends: "random_below rnd \<Longrightarrow> i < length xs \<or> i = 0 \<Longrightarrow> \<exists>ys. shuffle_from rnd k i xs = Inr ys \<and> mset ys = mset xs"
proof (induction i arbitrary: k xs)
  case (Suc i)
  have "0 \<le> rnd k (i + 2) \<and> rnd k (i + 2) < int (i + 2)" using Suc.prems(1) unfolding random_below_def by (metis add_gr_0 zero_less_numeral)
  moreover from this Suc.prems(2) have "nat (rnd k (i + 2)) < length xs" by linarith
  ultimately obtain zs where zs: "swap_items xs (Suc i) (rnd k (i + 2)) = Inr zs"
    using Suc.prems(2) by (auto simp: swap_items_def)
  note same = swap_items_mset [OF zs]
  then have "length zs = length xs" by (metis size_mset)
  then obtain ys where "shuffle_from rnd (k + 1) i zs = Inr ys" "mset ys = mset zs"
    using Suc.IH [OF Suc.prems(1), of zs "k + 1"] Suc.prems(2) by auto
  then show ?case using zs same by simp
qed simp

lemma shuffle_permutes: "random_below rnd \<Longrightarrow> \<exists>ys. py_shuffle rnd xs = Inr ys \<and> mset ys = mset xs"
  unfolding py_shuffle_def by (rule shuffle_from_ends) (auto simp: Suc_diff_Suc)

subsection \<open>Processes of a run\<close>

definition is_spawn :: "action \<Rightarrow> bool" where
  "is_spawn a = (case a of SpawnNode i e argv \<Rightarrow> True | _ \<Rightarrow> False)"

definition spawned :: "world \<Rightarrow> action list" where
  "spawned w = filter is_spawn (w_log w)"

lemma same_nodes_spawned: "same_nodes w w' \<Longrightarrow> spawned w' = spawned w"
  by (auto simp: same_nodes_def spawned_def is_spawn_def filter_empty_conv list_all_iff split: action.splits) (metis spawns.simps(1))

lemma same_basic [intro, simp]:
  "moves same_nodes (run E argv)" "moves same_nodes (host_cmd E h c)" "moves same_nodes (sleep E d)" "moves same_nodes (monotonic E)"
  "moves same_nodes (do_action E SetWatchdog)" "moves same_nodes (do_action E (StartWatchdog d))" "moves same_nodes (do_action E (Print s))"
  by (auto simp: run_def host_cmd_def sleep_def do_action_def act_modify_def monotonic_def moves_def ask_def Let_def)

lemma same_net [intro, simp]: "moves same_nodes (ask E StartNet f)" "moves same_nodes (ask E StopNet f)"
  by (simp_all add: same_ask)

lemma same_action: "(\<And>n. \<not> spawns n a) \<Longrightarrow> moves same_nodes (do_action E a)"
  by (auto simp: do_action_def act_modify_def moves_def)

lemma same_check [intro, simp]: "moves same_nodes (run_check E argv)"
  unfolding run_check_def by (intro same.sequence) (auto intro: same.pure split: prod.splits)

lemma same_read_until: "moves same_nodes (read_until E P deadline events)"
  unfolding moves_def
proof
  fix w show "same_nodes w (snd (read_until E P deadline events w))"
  proof (induction E P deadline events w rule: read_until.induct)
    case (1 E P deadline events w)
    let ?w2 = "perform E ReadLine (perform E Clock w)"
    have s: "same_nodes w (perform E Clock w)" "same_nodes w ?w2" by (auto simp: same_nodes_def)
    show ?case
      using "1.IH" [OF refl _ refl refl refl] s same.trans [OF s(2)]
      by (subst read_until.simps) (auto simp: Let_def split: sum.splits py_error.splits bool.splits)
  qed
qed

lemma same_read [intro, simp]: "moves same_nodes (read_json_lines_until E P t)"
  unfolding read_json_lines_until_def by (intro same.sequence same_read_until) simp

lemma same_terminate [intro, simp]: "moves same_nodes (node_terminate E n)"
  unfolding node_terminate_def
  by (intro same.sequence same_ask) (auto intro!: same.pure same.sequence same.handled same_ask same_action split: if_splits)

interpretation trial: history "\<lambda>s s'. same_nodes (tr_world s) (tr_world s')"
  by unfold_locales (auto intro: same.refl same.trans)

lemma trial_in [intro, simp]: "moves same_nodes m \<Longrightarrow> moves (\<lambda>s s'. same_nodes (tr_world s) (tr_world s')) (in_trial m)"
  by (auto simp: moves_def in_trial_def split: prod.splits) (metis snd_conv)

lemma trial_modify [intro, simp]: "moves (\<lambda>s s'. same_nodes (tr_world s) (tr_world s')) (act_modify (\<lambda>s. s\<lparr>tr_net := b\<rparr>))"
  by (simp add: moves_def act_modify_def same.refl)

lemma same_await_controller [intro, simp]: "moves same_nodes (await_controller E mode rep)"
  unfolding await_controller_def by (intro same.sequence) (auto intro: same.pure split: prod.splits option.splits json.splits)

lemma same_measure [intro, simp]: "moves same_nodes (trial_measure E mode rep)"
  unfolding trial_measure_def
  by (intro same.sequence) (auto intro!: same.sequence intro: same.pure split: prod.splits option.splits json.splits)

lemma same_body: "moves (\<lambda>s s'. same_nodes (tr_world s) (tr_world s')) (trial_body E mode rep port)"
  unfolding trial_body_def by (intro trial.sequence) (auto intro: same_ask)

lemma same_cleanup: "moves (\<lambda>s s'. same_nodes (tr_world s) (tr_world s')) (trial_cleanup E)"
proof -
  have "moves (\<lambda>s s'. same_nodes (tr_world s) (tr_world s')) (\<lambda>s. act_bind (in_trial (do_action E SetWatchdog)) (\<lambda>_.
     act_bind (if b then in_trial (ask E StopNet (en_net E)) else act_return ()) (\<lambda>_.
     act_bind (in_trial (node_terminate E CONTROLLER)) (\<lambda>_.
     act_bind (in_trial (run E [''mn'', ''-c''])) (\<lambda>_. act_return ())))) s)" for b
    by (intro trial.sequence) (auto intro: same_ask trial.pure)
  then show ?thesis by (simp add: moves_def trial_cleanup_def)
qed

text \<open>The process of a trial.\<close>

definition trial_spawn :: "environ \<Rightarrow> string \<Rightarrow> string \<Rightarrow> string \<Rightarrow> int option \<Rightarrow> action" where
  "trial_spawn os_environ app baseline mode port =
     SpawnNode CONTROLLER (trial_environ os_environ mode port) (trial_argv (trial_app app baseline mode))"

lemma run_trial_spawned:
  assumes "run_trial E os_environ app baseline mode rep port w = (Inr row, w')"
  shows "spawned w' = spawned w @ [trial_spawn os_environ app baseline mode port]"
proof -
  let ?a = "trial_spawn os_environ app baseline mode port"
  obtain w2 where start: "trial_start E os_environ app baseline mode port w = (Inr (), w2)"
    and then_case: "(case act_finally (trial_body E mode rep port) (trial_cleanup E) \<lparr>tr_world = w2, tr_net = False\<rparr> of
      (r, s) \<Rightarrow> (r, tr_world s)) = (Inr row, w')"
    using assms unfolding run_trial_def act_bind_Inr by auto
  from then_case obtain s where rest: "act_finally (trial_body E mode rep port) (trial_cleanup E) \<lparr>tr_world = w2, tr_net = False\<rparr> = (Inr row, s)"
      "w' = tr_world s" by (auto split: prod.split_asm)
  have w': "spawned w' = spawned w2"
    using trial.step [OF trial.cleanup [OF same_body same_cleanup] rest(1)] rest(2) by (simp add: same_nodes_spawned)
  obtain w1 where before: "act_bind (run E [''mn'', ''-c'']) (\<lambda>_. act_bind (run E [''pkill'', ''-9'', ''-f'', app]) (\<lambda>_.
      act_bind (run E [''pkill'', ''-9'', ''-f'', baseline]) (\<lambda>_. sleep E 0.2))) w = (Inr (), w1)"
    and w2: "w2 = perform E (StartWatchdog (TRIAL_READY_TIMEOUT_S + TIMING_TIMEOUT_S + 15)) (perform E ?a w1)"
    using start by (auto simp: trial_start_def act_bind_Inr ask_def Let_def do_action_def act_modify_def trial_spawn_def)
  have "moves same_nodes (act_bind (run E [''mn'', ''-c'']) (\<lambda>_. act_bind (run E [''pkill'', ''-9'', ''-f'', app]) (\<lambda>_.
      act_bind (run E [''pkill'', ''-9'', ''-f'', baseline]) (\<lambda>_. sleep E 0.2))))"
    by (intro same.sequence same_basic)
  from same.step [where w = w, OF this before] have "same_nodes w w1" .
  then have "spawned w1 = spawned w" by (rule same_nodes_spawned)
  moreover have "spawned w2 = spawned w1 @ [?a]" by (simp add: w2 spawned_def is_spawn_def trial_spawn_def)
  ultimately show ?thesis by (simp add: w')
qed

lemma trial_row_order: "map_of (dict_put ''trial_order'' v row) ''trial_order'' = Some v"
  by simp

text \<open>Every trial of the list in its place, with the port it gets.\<close>

definition persistent_before :: "(string \<times> nat) list \<Rightarrow> nat \<Rightarrow> int" where
  "persistent_before trials i = int (length (filter (\<lambda>(mode, rep). mode = ''persistent'') (take i trials)))"

definition trial_port :: "int \<Rightarrow> (string \<times> nat) list \<Rightarrow> nat \<Rightarrow> int option" where
  "trial_port counter trials i =
     (if fst (trials ! i) = ''persistent'' then Some (PERSISTENT_BASE_PORT + counter + persistent_before trials i) else None)"

definition planned :: "environ \<Rightarrow> string \<Rightarrow> string \<Rightarrow> int \<Rightarrow> (string \<times> nat) list \<Rightarrow> action list" where
  "planned os_environ app baseline counter trials =
     map (\<lambda>i. trial_spawn os_environ app baseline (fst (trials ! i)) (trial_port counter trials i)) [0..<length trials]"

lemma persistent_before_less:
  assumes "j < i" and "j < length trials" and "fst (trials ! j) = ''persistent''"
  shows "persistent_before trials j < persistent_before trials i"
proof -
  have "take i trials = take j trials @ take (i - j) (drop j trials)"
    using assms(1) take_add [of j "i - j" trials] by simp
  moreover have "take (i - j) (drop j trials) = trials ! j # take (i - j - 1) (drop (Suc j) trials)"
    using assms(1,2) by (simp add: Cons_nth_drop_Suc [symmetric] take_Cons')
  ultimately show ?thesis using assms(3) by (simp add: persistent_before_def case_prod_beta)
qed

lemma trial_ports_distinct:
  "j < i \<Longrightarrow> i < length trials \<Longrightarrow> trial_port c trials i = trial_port c trials j \<Longrightarrow> trial_port c trials i = None"
  using persistent_before_less [of j i trials] by (auto simp: trial_port_def split: if_splits)

lemma planned_Cons:
  "planned os_environ app baseline counter ((mode, rep) # trials) =
     trial_spawn os_environ app baseline mode (if mode = ''persistent'' then Some (PERSISTENT_BASE_PORT + counter) else None) #
     planned os_environ app baseline (if mode = ''persistent'' then counter + 1 else counter) trials"
proof -
  have "trial_port counter ((mode, rep) # trials) (Suc i) =
      trial_port (if mode = ''persistent'' then counter + 1 else counter) trials i" for i
    by (simp add: trial_port_def persistent_before_def)
  then show ?thesis
    by (simp add: planned_def upt_conv_Cons map_Suc_upt [symmetric] trial_port_def [of counter _ 0] persistent_before_def
        del: upt_Suc)
qed

lemma run_trials_spawned:
  "run_trials E os_environ app baseline n_trials order counter trials w = (Inr rows, w') \<Longrightarrow>
   length rows = length trials \<and> spawned w' = spawned w @ planned os_environ app baseline counter trials \<and>
   (\<forall>i < length trials. map_of (rows ! i) ''trial_order'' = Some (JInt (int (order + i))))"
proof (induction trials arbitrary: order counter w rows)
  case Nil
  then show ?case by (simp add: act_return_def planned_def)
next
  case (Cons t trials)
  obtain mode rep where t: "t = (mode, rep)" by (cases t)
  let ?port = "if mode = ''persistent'' then Some (PERSISTENT_BASE_PORT + counter) else None"
  let ?counter = "if mode = ''persistent'' then counter + 1 else counter"
  let ?w = "perform E (Print (''trial '' @ nat_str 10 order @ ''/'' @ nat_str 10 n_trials @ '': mode='' @ mode @
      '' repetition='' @ nat_str 10 rep)) w"
  obtain row w1 rest where run: "run_trial E os_environ app baseline mode rep ?port ?w = (Inr row, w1)"
      "run_trials E os_environ app baseline n_trials (order + 1) ?counter trials w1 = (Inr rest, w')"
      "rows = dict_put ''trial_order'' (JInt (int order)) row # rest"
    using Cons.prems by (auto simp: t Let_def act_bind_Inr act_return_def do_action_def act_modify_def split: if_splits)
  note ih = Cons.IH [OF run(2)]
  have w1: "spawned w1 = spawned w @ [trial_spawn os_environ app baseline mode ?port]"
    using run_trial_spawned [OF run(1)] by (simp add: spawned_def is_spawn_def)
  have "map_of (rows ! i) ''trial_order'' = Some (JInt (int (order + i)))" if "i < length (t # trials)" for i
    using that ih by (cases i) (simp_all add: run(3) add.commute)
  then show ?case using ih w1 by (simp add: run(3) t planned_Cons)
qed

subsection \<open>Reading until an event\<close>

text \<open>What the reader passed over: output that is no JSON, and events that were not asked for.\<close>

definition passed_over :: "value_pred \<Rightarrow> json \<Rightarrow> bool" where
  "passed_over P v \<longleftrightarrow> P v = Inr False \<or> (\<exists>line. v = raw_output line)"

definition reading_ends :: "env \<Rightarrow> value_pred \<Rightarrow> rat \<Rightarrow> json list \<Rightarrow> (json option \<times> json list) res \<Rightarrow> world \<Rightarrow> bool" where
  "reading_ends E P deadline events r w' \<longleftrightarrow>
     (case r of
        Inr (Some event, es) \<Rightarrow> P event = Inr True \<and> (\<exists>passed. es = events @ passed @ [event] \<and> list_all (passed_over P) passed)
      | Inr (None, es) \<Rightarrow> (deadline \<le> w_now w' \<or> piped_line E (w_log w') = []) \<and>
          (\<exists>passed. es = events @ passed \<and> list_all (passed_over P) passed)
      | Inl e \<Rightarrow> True)"

lemma reading_ends_step:
  assumes "reading_ends E P deadline (events @ [v]) r w'" and "passed_over P v"
  shows "reading_ends E P deadline events r w'"
proof (cases r)
  case (Inr x)
  obtain found es where x: "x = (found, es)" by (cases x)
  obtain passed where "es = (events @ [v]) @ passed @ (case found of None \<Rightarrow> [] | Some e \<Rightarrow> [e])" "list_all (passed_over P) passed"
    using assms(1) by (auto simp: reading_ends_def Inr x split: option.splits)
  then have "es = events @ (v # passed) @ (case found of None \<Rightarrow> [] | Some e \<Rightarrow> [e]) \<and> list_all (passed_over P) (v # passed)"
    using assms(2) by simp
  then show ?thesis using assms(1) by (cases found) (auto simp: reading_ends_def Inr x simp del: append_Cons)
qed (simp add: reading_ends_def)

lemma read_until_spec:
  "read_until E P deadline events w = (r, w') \<Longrightarrow> extends w w' \<and> reading_ends E P deadline events r w'"
proof (induction E P deadline events w arbitrary: r w' rule: read_until.induct)
  case (1 E P deadline events w)
  let ?w1 = "perform E Clock w" and ?w2 = "perform E ReadLine (perform E Clock w)"
  let ?read = "piped_line E (w_log ?w2)" and ?line = "py_strip (piped_line E (w_log (perform E ReadLine (perform E Clock w))))"
  have ext: "extends w ?w1" "extends w ?w2" using extends_trans [OF extends_perform extends_perform] by auto
  note step = "1.prems" [unfolded read_until.simps [of E P deadline events w] Let_def]
  consider (late) "\<not> w_now ?w1 < deadline" | (eof) "w_now ?w1 < deadline" "?read = []"
    | (blank) "w_now ?w1 < deadline" "?read \<noteq> []" "?line = []"
    | (noise) "w_now ?w1 < deadline" "?read \<noteq> []" "?line \<noteq> []" "en_loads E ?line = Inl JSONDecodeError"
    | (raise) e where "w_now ?w1 < deadline" "?read \<noteq> []" "?line \<noteq> []" "en_loads E ?line = Inl e" "e \<noteq> JSONDecodeError"
    | (event) v where "w_now ?w1 < deadline" "?read \<noteq> []" "?line \<noteq> []" "en_loads E ?line = Inr v"
    by (cases "en_loads E ?line") blast+
  then show ?case
  proof cases
    case late
    then show ?thesis using step ext by (auto simp: reading_ends_def)
  next
    case eof
    then show ?thesis using step ext by (auto simp: reading_ends_def)
  next
    case blank
    then have go: "read_until E P deadline events ?w2 = (r, w')" using step by simp
    from "1.IH"(1) [OF refl _ refl refl refl _ _ go] blank ext show ?thesis by (auto intro: extends_trans)
  next
    case noise
    then have go: "read_until E P deadline (events @ [raw_output ?line]) ?w2 = (r, w')" using step by simp
    have "extends ?w2 w' \<and> reading_ends E P deadline (events @ [raw_output ?line]) r w'"
      using "1.IH"(2) [OF refl _ refl refl refl _ _ _ refl go] noise by simp
    moreover have "passed_over P (raw_output ?line)" by (auto simp: passed_over_def)
    ultimately show ?thesis using ext reading_ends_step extends_trans by blast
  next
    case raise
    then have "(r, w') = (Inl e, ?w2)" using step by (cases e) auto
    then show ?thesis using ext by (simp add: reading_ends_def)
  next
    case (event v)
    show ?thesis
    proof (cases "P v")
      case (Inl e)
      then show ?thesis using step event ext by (auto simp: reading_ends_def)
    next
      case (Inr b)
      show ?thesis
      proof (cases b)
        case True
        then show ?thesis using step event ext Inr by (auto simp: reading_ends_def)
      next
        case False
        then have go: "read_until E P deadline (events @ [v]) ?w2 = (r, w')" using step event Inr by simp
        have "extends ?w2 w' \<and> reading_ends E P deadline (events @ [v]) r w'"
          using "1.IH"(3) [OF refl _ refl refl refl _ _ event(4) Inr _ go] False event by simp
        moreover have "passed_over P v" using Inr False by (simp add: passed_over_def)
        ultimately show ?thesis using ext reading_ends_step extends_trans by blast
      qed
    qed
  qed
qed

subsection \<open>The table\<close>

lemma add_fields_set: "set (foldl add_field fs ks) = set fs \<union> set ks" "distinct fs \<Longrightarrow> distinct (foldl add_field fs ks)"
  by (induction ks arbitrary: fs) (auto simp: add_field_def)

lemma csv_fields_sound: "distinct (csv_fields rows)" "set (csv_fields rows) = (\<Union>row \<in> set rows. fst ` set row)"
proof -
  have "distinct (foldl (\<lambda>fs row. foldl add_field fs (map fst row)) fs rows) \<and>
      set (foldl (\<lambda>fs row. foldl add_field fs (map fst row)) fs rows) = set fs \<union> (\<Union>row \<in> set rows. fst ` set row)"
    if "distinct fs" for fs
    using that
  proof (induction rows arbitrary: fs)
    case (Cons r rows)
    from Cons.IH [OF add_fields_set(2) [OF Cons.prems, of "map fst r"]] show ?case
      by (auto simp: add_fields_set(1))
  qed simp
  from this [of "[]"] show "distinct (csv_fields rows)" "set (csv_fields rows) = (\<Union>row \<in> set rows. fst ` set row)"
    by (simp_all add: csv_fields_def)
qed

lemma csv_cell:
  assumes "row \<in> set rows" and "map_of row k = Some v"
  shows "map_of (zip (csv_fields rows) (map (\<lambda>k. dict_get_or row k (JStr [])) (csv_fields rows))) k = Some v"
proof -
  have "k \<in> set (csv_fields rows)" using assms by (force simp: csv_fields_sound dest: map_of_SomeD)
  then show ?thesis using assms(2) by (simp add: map_of_zip_map dict_get_or_def)
qed

text \<open>
  Property C37 (the latency run). When the run ends with a table, it ran every mode and repetition exactly once, in a
  shuffled order: in this order the controller processes were spawned, and nothing else was, each with the
  environment of its mode; the persistent trials got consecutive ports, so no two of them share one. The table has a
  line for each trial and names it in the column of the order.
\<close>

theorem latency_run_complete:
  assumes "latency_main E os_environ app baseline w = (Inr (columns, cells), w')" and "random_below (en_randrange E SEED)"
  shows "\<exists>repetitions trials. latency_repetitions os_environ = Inr repetitions \<and>
    mset trials = mset (all_trials (latency_modes os_environ) repetitions) \<and>
    spawned w' = spawned w @ planned os_environ app baseline 0 trials \<and>
    (\<forall>i < length trials. \<forall>j < i. trial_port 0 trials i = trial_port 0 trials j \<longrightarrow> trial_port 0 trials i = None) \<and>
    distinct columns \<and> length cells = length trials \<and>
    (\<forall>i < length trials. length (cells ! i) = length columns \<and>
       map_of (zip columns (cells ! i)) ''trial_order'' = Some (JInt (int i + 1)))"
proof -
  obtain repetitions trials rows where run: "latency_repetitions os_environ = Inr repetitions"
      "py_shuffle (en_randrange E SEED) (all_trials (latency_modes os_environ) repetitions) = Inr trials"
      "run_trials E os_environ app baseline (length trials) 1 0 trials w = (Inr rows, w')"
      "columns = csv_fields rows" "cells = csv_cells rows"
    using assms(1) by (auto simp: latency_main_def act_bind_Inr act_lift_def act_return_def)
  have "mset trials = mset (all_trials (latency_modes os_environ) repetitions)"
    using shuffle_permutes [OF assms(2), of "all_trials (latency_modes os_environ) repetitions"] run(2) by auto
  moreover note spec = run_trials_spawned [OF run(3)]
  moreover have "map_of (zip columns (cells ! i)) ''trial_order'' = Some (JInt (int i + 1))" if "i < length trials" for i
    using that spec csv_cell [of "rows ! i" rows "''trial_order''" "JInt (int i + 1)"]
    by (simp add: run(4,5) csv_cells_def add.commute)
  ultimately show ?thesis using run(1,4,5) trial_ports_distinct by (auto simp: csv_cells_def csv_fields_sound)
qed

text \<open>A controller that announces itself and then reports a timing, in every trial.\<close>

definition talking_env :: env where
  "talking_env = quiet_env\<lparr>
     en_loads := (\<lambda>s. if s = ''r'' then Inr (JObj [(''event'', JStr ''ready'')])
                     else if s = ''t'' then Inr (JObj [(''event'', JStr ''timing''), (''confirmed'', JBool True)])
                     else Inl JSONDecodeError),
     en_readline := (\<lambda>hist. if lines_read hist = 1 then ''log line'' else if lines_read hist = 2 then ''r'' else ''t''),
     en_printed := (\<lambda>_. 3)\<rparr>"

definition small_run :: environ where
  "small_run = [(''PACKETIN_MODES'', ''persistent''), (''PACKETIN_REPETITIONS'', ''2'')]"


lemma lines_read_append:
  "list_all (\<lambda>a. \<not> spawns CONTROLLER a) t \<Longrightarrow> lines_read (h @ t) = lines_read h + length (filter (\<lambda>a. a = ReadLine) t)"
  using spawned_at_le [of h CONTROLLER] by (simp add: lines_read_def spawned_at_append)

lemma lines_read_start: "lines_read (h @ [a, b, c, d, SpawnNode CONTROLLER e argv, StartWatchdog x]) = 0"
proof -
  have "lines_read ((h @ [a, b, c, d, SpawnNode CONTROLLER e argv]) @ [StartWatchdog x]) = 0"
    by (subst lines_read_append) (simp_all add: lines_read_def spawned_at_def)
  then show ?thesis by simp
qed

lemma talking_simps:
  "en_loads talking_env ''r'' = Inr (JObj [(''event'', JStr ''ready'')])"
  "en_loads talking_env ''t'' = Inr (JObj [(''event'', JStr ''timing''), (''confirmed'', JBool True)])"
  "en_loads talking_env ''log line'' = Inl JSONDecodeError"
  "lines_printed talking_env h = 3" "duration talking_env h a = (case a of Sleep d \<Rightarrow> max 0 d | _ \<Rightarrow> 0)"
  "en_readline talking_env h = (if lines_read h = 1 then ''log line'' else if lines_read h = 2 then ''r'' else ''t'')"
  "en_run talking_env h = Inr (0, [])" "en_spawn talking_env h = Inr ()" "en_net talking_env h = Inr ()" "en_cmd talking_env h = Inr []"
  "en_exited talking_env h = False" "en_wait talking_env h = True"
  by (simp_all add: talking_env_def quiet_env_def lines_printed_def duration_def)

lemma talking_ready:
  assumes "lines_read (w_log w) = 0"
  shows "\<exists>es w'. read_json_lines_until talking_env (v_event_in [''ready'', ''adapter_error'']) TRIAL_READY_TIMEOUT_S w =
      (Inr (Some (JObj [(''event'', JStr ''ready'')]), es), w') \<and> lines_read (w_log w') = 2"
  using assms
  by (simp add: read_json_lines_until_def act_bind_def monotonic_def Let_def TRIAL_READY_TIMEOUT_S_def v_event_in_def
      read_until.simps [of talking_env P d es w for P d es w] perform_def talking_simps piped_line_def lines_read_append
      py_strip_def py_space_def py_in_def dict_get_def py_eq_def raw_output_def)

lemma talking_timing:
  assumes "lines_read (w_log w) = 2"
  shows "\<exists>es w'. read_json_lines_until talking_env (v_event_in [''timing'']) TIMING_TIMEOUT_S w =
      (Inr (Some (JObj [(''event'', JStr ''timing''), (''confirmed'', JBool True)]), es), w')"
  using assms
  by (simp add: read_json_lines_until_def act_bind_def monotonic_def Let_def TIMING_TIMEOUT_S_def v_event_in_def
      read_until.simps [of talking_env P d es w for P d es w] perform_def talking_simps piped_line_def lines_read_append
      py_strip_def py_space_def py_in_def dict_get_def py_eq_def raw_output_def)

lemma talking_await:
  assumes "lines_read (w_log w) = 0"
  shows "\<exists>w'. await_controller talking_env mode rep w = (Inr (), w') \<and> lines_read (w_log w') = 2"
proof -
  obtain es w' where "read_json_lines_until talking_env (v_event_in [''ready'', ''adapter_error'']) TRIAL_READY_TIMEOUT_S w =
      (Inr (Some (JObj [(''event'', JStr ''ready'')]), es), w')" "lines_read (w_log w') = 2"
    using talking_ready [OF assms] by blast
  then show ?thesis
    by (simp add: await_controller_def act_bind_def act_return_def dict_get_def py_eq_def)
qed

lemma talking_measure:
  assumes "lines_read (w_log w) = 2"
  shows "\<exists>row w'. trial_measure talking_env mode rep w = (Inr row, w')"
proof -
  let ?ping = "\<lambda>h n. HostCmd h (''ping -c '' @ n @ '' -W 1 '' @ H2_IP)"
  let ?w = "perform talking_env (?ping ''h1'' ''1'') (perform talking_env (?ping ''h3'' ''2'') w)"
  have "lines_read (w_log ?w) = 2" using assms by (simp add: lines_read_append)
  from talking_timing [OF this] show ?thesis
    by (auto simp: trial_measure_def act_bind_def host_cmd_def ask_def Let_def talking_simps do_action_def act_modify_def act_return_def)
qed

lemma talking_trial: "\<exists>row w'. run_trial talking_env os_environ app baseline mode rep port w = (Inr row, w')"
proof -
  obtain w1 where start: "trial_start talking_env os_environ app baseline mode port w = (Inr (), w1)" "lines_read (w_log w1) = 0"
    by (simp add: trial_start_def act_bind_def run_def ask_def Let_def talking_simps sleep_def do_action_def act_modify_def
        lines_read_start)
  let ?w2 = "perform talking_env StartNet w1"
  let ?w3 = "perform talking_env (Run ([''ovs-vsctl'', ''set-controller'', ''s1''] @ controller_targets mode port)) ?w2"
  have "lines_read (w_log ?w3) = 0" using start(2) by (simp add: lines_read_append)
  then obtain w4 where w4: "await_controller talking_env mode rep ?w3 = (Inr (), w4)" "lines_read (w_log w4) = 2"
    using talking_await by blast
  have "lines_read (w_log (perform talking_env (Sleep 0.15) w4)) = 2" using w4(2) by (simp add: lines_read_append)
  then obtain row w5 where w5: "trial_measure talking_env mode rep (perform talking_env (Sleep 0.15) w4) = (Inr row, w5)"
    using talking_measure by blast
  have "trial_body talking_env mode rep port \<lparr>tr_world = w1, tr_net = False\<rparr> = (Inr row, \<lparr>tr_world = w5, tr_net = True\<rparr>)"
    using w4(1) w5
    by (simp add: trial_body_def act_bind_def act_modify_def in_trial_def ask_def Let_def talking_simps run_check_def run_def
        act_return_def sleep_def do_action_def)
  then show ?thesis
    using start(1)
    by (auto simp: run_trial_def act_bind_def act_finally_def trial_cleanup_def in_trial_def do_action_def act_modify_def ask_def Let_def
        talking_simps node_terminate_def act_catch_def run_def act_return_def)
qed

lemma talking_trials: "\<exists>rows w'. run_trials talking_env os_environ app baseline n order counter trials w = (Inr rows, w')"
proof (induction trials arbitrary: order counter w)
  case (Cons t trials)
  obtain mode rep where t: "t = (mode, rep)" by (cases t)
  let ?port = "if mode = ''persistent'' then Some (PERSISTENT_BASE_PORT + counter) else None"
  let ?counter = "if mode = ''persistent'' then counter + 1 else counter"
  let ?w = "perform talking_env (Print (''trial '' @ nat_str 10 order @ ''/'' @ nat_str 10 n @ '': mode='' @ mode @
      '' repetition='' @ nat_str 10 rep)) w"
  obtain row w1 where row: "run_trial talking_env os_environ app baseline mode rep ?port ?w = (Inr row, w1)"
    using talking_trial by blast
  obtain rows w2 where "run_trials talking_env os_environ app baseline n (order + 1) ?counter trials w1 = (Inr rows, w2)"
    using Cons.IH by blast
  with row show ?case
    unfolding t run_trials.simps Let_def by (simp add: act_bind_def do_action_def act_modify_def act_return_def del: perform_log)
qed (simp add: act_return_def)

theorem latency_run_complete_witness:
  "\<exists>trials columns cells w'. latency_main talking_env small_run ''c'' ''b'' quiet_world = (Inr (columns, cells), w') \<and>
     mset trials = {#(''persistent'', 1), (''persistent'', 2)#} \<and> spawned w' = planned small_run ''c'' ''b'' 0 trials \<and>
     length cells = 2"
proof -
  have reps: "latency_repetitions small_run = Inr 2"
    by (simp add: latency_repetitions_def small_run_def environ_get_def) code_simp
  have modes: "latency_modes small_run = [''persistent'']"
    by (simp add: latency_modes_def small_run_def environ_get_def)
  have trials: "all_trials (latency_modes small_run) 2 = [(''persistent'', 1), (''persistent'', 2)]"
    by (simp add: modes all_trials_def upt_rec)
  have rnd: "random_below (en_randrange talking_env SEED)"
    by (simp add: random_below_def talking_env_def quiet_env_def)
  obtain ts where ts: "py_shuffle (en_randrange talking_env SEED) (all_trials (latency_modes small_run) 2) = Inr ts"
    using shuffle_permutes [OF rnd] by blast
  obtain rows w' where "run_trials talking_env small_run ''c'' ''b'' (length ts) 1 0 ts quiet_world = (Inr rows, w')"
    using talking_trials by blast
  then have run: "latency_main talking_env small_run ''c'' ''b'' quiet_world = (Inr (csv_fields rows, csv_cells rows), w')"
    by (simp add: latency_main_def act_bind_def act_lift_def act_return_def reps ts)
  obtain repetitions us where us: "latency_repetitions small_run = Inr repetitions"
      "mset us = mset (all_trials (latency_modes small_run) repetitions)"
      "spawned w' = spawned quiet_world @ planned small_run ''c'' ''b'' 0 us" "length (csv_cells rows) = length us"
    using latency_run_complete [OF run rnd] by blast
  have m: "mset us = {#(''persistent'', 1), (''persistent'', 2)#}" using us(1,2) reps trials by simp
  then have "length us = 2" by (metis size_mset size_add_mset size_empty One_nat_def numeral_2_eq_2)
  with m us(3,4) run show ?thesis by (fastforce simp: spawned_def quiet_world_def)
qed

end
