(* ===== verification/Campaigns.thy ===== *)
theory Campaigns
  imports Latency_Trials Gate_Main Scaling_Gate Py_Dumps
begin

text \<open>
  The two statistical campaigns: \<open>network/campaign_distributed.py\<close> runs the mechanism gate as a subprocess and reads its
  manifest from the standard output; \<open>network/campaign_single_core.py\<close> repeats the trial of the latency experiment. The
  statistics functions of both repeat those of the gates. The written files and their checksums are left out.
\<close>

subsection \<open>The distributed campaign\<close>

definition CONDITIONS :: "string list" where
  "CONDITIONS = [''G1'', ''G2'', ''G3'', ''G4'', ''G5'', ''G6'', ''G8'']"

definition campaign_seed :: "environ \<Rightarrow> int res" where
  "campaign_seed os_environ = py_int 10 (environ_get os_environ ''DAIM_CAMPAIGN_SEED'' ''20260810'')"

definition campaign_repetitions :: "environ \<Rightarrow> int res" where
  "campaign_repetitions os_environ = py_int 10 (environ_get os_environ ''DAIM_CAMPAIGN_REPETITIONS'' ''30'')"

text \<open>The positions of the lines that are a lone opening bracket, and the text from the last of them on.\<close>

definition brace_starts :: "string list \<Rightarrow> nat list" where
  "brace_starts stdout_lines = filter (\<lambda>i. stdout_lines ! i = ''{'') [0..<length stdout_lines]"

definition manifest_text :: "string list \<Rightarrow> string" where
  "manifest_text stdout_lines = py_join NL (drop (last (brace_starts stdout_lines)) stdout_lines)"

record campaign_result =
  cr_rep :: nat
  cr_seed :: int
  cr_returncode :: int
  cr_manifest :: json
  cr_gate_results :: json
  cr_parse_error :: "string option"
  cr_tails :: "(string \<times> string) option"

text \<open>\<open>v[k]\<close> for a value that should be a dictionary and a string key.\<close>

definition json_item :: "json \<Rightarrow> string \<Rightarrow> json res" where
  "json_item v k = (case v of JObj d \<Rightarrow> dict_item d k | _ \<Rightarrow> Inl TypeError)"

definition tail_text :: "string \<Rightarrow> string" where
  "tail_text s = py_join NL (last_n 40 (py_splitlines s))"

text \<open>The gate script, run with the seed in its environment; its return code and standard output.\<close>

definition run_gate_script :: "env \<Rightarrow> environ \<Rightarrow> string \<Rightarrow> string \<Rightarrow> int \<Rightarrow> (world, int \<times> string) act" where
  "run_gate_script E os_environ python script seed =
     ask E (RunScript (dict_put ''DAIM_GATE_SEED'' (py_str seed) os_environ) [python, script, ''--include-g8'']) (en_run E)"

definition read_gate_results :: "env \<Rightarrow> string \<Rightarrow> json \<Rightarrow> (world, json) act" where
  "read_gate_results E results_dir manifest =
     act_bind (act_lift (json_item manifest ''run_timestamp'')) (\<lambda>timestamp.
       let path = results_dir @ ''/gate_results_'' @ en_str E timestamp @ ''.json''
       in act_bind (ask E (FileExists path) (\<lambda>hist. Inr (en_exists E hist))) (\<lambda>there.
            if there then act_bind (ask E (ReadFile path) (en_content E)) (\<lambda>content. act_lift (en_loads E content))
            else act_return JNull))"

definition campaign_repetition ::
    "env \<Rightarrow> environ \<Rightarrow> string \<Rightarrow> string \<Rightarrow> string \<Rightarrow> nat \<Rightarrow> int \<Rightarrow> (world, campaign_result) act" where
  "campaign_repetition E os_environ python script results_dir rep seed =
     act_bind (run_gate_script E os_environ python script seed) (\<lambda>(returncode, out) w.
       let stdout_lines = py_splitlines out; err = en_stderr E (w_log w)
       in (if brace_starts stdout_lines = [] then
             act_return \<lparr>cr_rep = rep, cr_seed = seed, cr_returncode = returncode, cr_manifest = JNull, cr_gate_results = JNull,
               cr_parse_error = Some ''no manifest JSON found in stdout'', cr_tails = Some (tail_text out, tail_text err)\<rparr>
           else
             act_bind (act_lift (en_loads E (manifest_text stdout_lines))) (\<lambda>manifest.
             act_bind (read_gate_results E results_dir manifest) (\<lambda>gate_results.
               act_return \<lparr>cr_rep = rep, cr_seed = seed, cr_returncode = returncode, cr_manifest = manifest,
                 cr_gate_results = gate_results, cr_parse_error = None, cr_tails = None\<rparr>))) w)"

text \<open>\<open>v.get(k)\<close> on the value itself, which raises for anything but a dictionary.\<close>

definition json_get :: "json \<Rightarrow> string \<Rightarrow> json res" where
  "json_get v k = (case v of JObj d \<Rightarrow> Inr (dict_get d k) | _ \<Rightarrow> Inl AttributeError)"

definition gate_report :: "json \<Rightarrow> string \<Rightarrow> dict res" where
  "gate_report gate_results g = res_bind (json_get gate_results g) or_empty"

text \<open>Appending to a series.\<close>

definition add_values :: "string \<Rightarrow> json list \<Rightarrow> (string \<times> json list) list \<Rightarrow> (string \<times> json list) list" where
  "add_values name vs series = dict_put name ((case map_of series name of None \<Rightarrow> [] | Some xs \<Rightarrow> xs) @ vs) series"

definition add_metric :: "string \<Rightarrow> json \<Rightarrow> (string \<times> json list) list \<Rightarrow> (string \<times> json list) list" where
  "add_metric name v series = (if v \<noteq> JNull then add_values name [v] series else series)"

definition extract_metrics :: "json \<Rightarrow> (string \<times> json list) list res" where
  "extract_metrics gate_results =
     res_bind (gate_report gate_results ''G1'') (\<lambda>g1.
     res_bind (or_empty (dict_get g1 ''latency_summary_ms'')) (\<lambda>lat.
     res_bind (gate_report gate_results ''G6'') (\<lambda>g6.
       Inr (add_metric ''G6_reconvergence_time_s'' (dict_get g6 ''reconvergence_time_s'')
             (add_metric ''G6_detection_time_s'' (dict_get g6 ''detection_time_s'')
               (add_metric ''G1_propagation_latency_median_ms'' (dict_get lat ''median'') []))))))"

definition condition_passed :: "json \<Rightarrow> string \<Rightarrow> bool res" where
  "condition_passed gate_results c = res_bind (gate_report gate_results c) (\<lambda>report. Inr (py_truth (dict_get report ''pass'')))"

record campaign =
  cp_repetitions :: "campaign_result list"
  cp_pass :: "(string \<times> bool list) list"
  cp_series :: "(string \<times> json list) list"

definition campaign0 :: campaign where
  "campaign0 = \<lparr>cp_repetitions = [], cp_pass = map (\<lambda>c. (c, [])) CONDITIONS, cp_series = []\<rparr>"

text \<open>\<open>pass_by_condition[c].append(v)\<close>\<close>

definition add_pass :: "string \<times> bool \<Rightarrow> (string \<times> bool list) list \<Rightarrow> (string \<times> bool list) list" where
  "add_pass cv passes = map (\<lambda>(c, bs). (c, if c = fst cv then bs @ [snd cv] else bs)) passes"

definition campaign_add :: "campaign_result \<Rightarrow> campaign \<Rightarrow> campaign res" where
  "campaign_add result cp =
     (let cp = cp\<lparr>cp_repetitions := cp_repetitions cp @ [result]\<rparr>
      in if cr_gate_results result = JNull then
           Inr (cp\<lparr>cp_pass := fold add_pass (map (\<lambda>c. (c, False)) CONDITIONS) (cp_pass cp)\<rparr>)
         else
           res_bind (res_map (\<lambda>c. res_bind (condition_passed (cr_gate_results result) c) (\<lambda>b. Inr (c, b))) CONDITIONS) (\<lambda>verdicts.
           res_bind (extract_metrics (cr_gate_results result)) (\<lambda>metrics.
             Inr (cp\<lparr>cp_pass := fold add_pass verdicts (cp_pass cp),
                     cp_series := fold (\<lambda>(name, vs). add_values name vs) metrics (cp_series cp)\<rparr>))))"

fun campaign_loop ::
    "env \<Rightarrow> environ \<Rightarrow> string \<Rightarrow> string \<Rightarrow> string \<Rightarrow> int \<Rightarrow> nat list \<Rightarrow> campaign \<Rightarrow> (world, campaign) act" where
  "campaign_loop E os_environ python script results_dir base_seed [] cp = act_return cp"
| "campaign_loop E os_environ python script results_dir base_seed (rep # reps) cp =
     act_bind (campaign_repetition E os_environ python script results_dir rep (base_seed + int rep)) (\<lambda>result.
     act_bind (act_lift (campaign_add result cp)) (\<lambda>cp'.
       campaign_loop E os_environ python script results_dir base_seed reps cp'))"

definition condition_summary :: "(string \<times> bool list) list \<Rightarrow> (string \<times> (nat \<times> nat \<times> rat)) list" where
  "condition_summary passes =
     map (\<lambda>(c, bs). let n = length (filter (\<lambda>b. b) bs)
                    in (c, length bs, n, if bs \<noteq> [] then of_nat n / of_nat (length bs) else 0)) passes"

record campaign_report =
  rt_conditions :: "(string \<times> (nat \<times> nat \<times> rat)) list"
  rt_metrics :: "(string \<times> dict) list"
  rt_all_passed :: bool

definition campaign_main :: "env \<Rightarrow> environ \<Rightarrow> string \<Rightarrow> string \<Rightarrow> string \<Rightarrow> (world, campaign_report) act" where
  "campaign_main E os_environ python script results_dir =
     act_bind (act_lift (campaign_seed os_environ)) (\<lambda>base_seed.
     act_bind (act_lift (campaign_repetitions os_environ)) (\<lambda>repetitions.
     act_bind (campaign_loop E os_environ python script results_dir base_seed [0..<nat repetitions] campaign0) (\<lambda>cp.
     act_bind (act_lift (res_map (\<lambda>(name, vs). res_bind (res_map py_number vs) (\<lambda>values.
          res_bind (latency_summary (en_randrange E) values base_seed) (\<lambda>summary. Inr (name, summary)))) (cp_series cp))) (\<lambda>metrics.
       act_return \<lparr>rt_conditions = condition_summary (cp_pass cp), rt_metrics = metrics,
         rt_all_passed = list_all (\<lambda>(c, bs). list_all (\<lambda>b. b) bs) (cp_pass cp)\<rparr>))))"

subsection \<open>The single-core campaign\<close>

definition CAMPAIGN_MODE :: string where "CAMPAIGN_MODE = ''process_per_rule''"

text \<open>The difference of two times of a row, when it has both.\<close>

definition time_between :: "string \<Rightarrow> string \<Rightarrow> dict \<Rightarrow> rat list res" where
  "time_between begins ends row =
     (if dict_get row ends \<noteq> JNull \<and> dict_get row begins \<noteq> JNull
      then res_bind (py_number (dict_get row ends)) (\<lambda>b. res_bind (py_number (dict_get row begins)) (\<lambda>a. Inr [b - a]))
      else Inr [])"

record single_campaign =
  sc_rows :: "dict list"
  sc_total_ns :: "rat list"
  sc_decision_ns :: "rat list"
  sc_install_ns :: "rat list"
  sc_confirmed :: "bool list"

definition single_campaign0 :: single_campaign where
  "single_campaign0 = \<lparr>sc_rows = [], sc_total_ns = [], sc_decision_ns = [], sc_install_ns = [], sc_confirmed = []\<rparr>"

definition single_add :: "dict \<Rightarrow> single_campaign \<Rightarrow> single_campaign res" where
  "single_add row sc =
     res_bind (time_between ''t_dispatch_enter_ns'' ''t_confirmed_ns'' row) (\<lambda>total_ns.
     res_bind (time_between ''c_entry_ns'' ''c_decision_done_ns'' row) (\<lambda>decision_ns.
     res_bind (time_between ''c_table_write_done_ns'' ''c_install_done_ns'' row) (\<lambda>install_ns.
       Inr \<lparr>sc_rows = sc_rows sc @ [row], sc_total_ns = sc_total_ns sc @ total_ns, sc_decision_ns = sc_decision_ns sc @ decision_ns,
            sc_install_ns = sc_install_ns sc @ install_ns,
            sc_confirmed = sc_confirmed sc @ [py_truth (dict_get row ''confirmed'')]\<rparr>)))"

fun single_loop :: "env \<Rightarrow> environ \<Rightarrow> string \<Rightarrow> string \<Rightarrow> nat list \<Rightarrow> single_campaign \<Rightarrow> (world, single_campaign) act" where
  "single_loop E os_environ app baseline [] sc = act_return sc"
| "single_loop E os_environ app baseline (rep # reps) sc =
     act_bind (run_trial E os_environ app baseline CAMPAIGN_MODE rep None) (\<lambda>row.
     act_bind (act_lift (single_add row sc)) (\<lambda>sc'. single_loop E os_environ app baseline reps sc'))"

definition to_ms :: "rat list \<Rightarrow> rat list" where
  "to_ms values = map (\<lambda>v. v / 10 ^ 6) values"

record single_report =
  sr_campaign :: single_campaign
  sr_metrics :: "(string \<times> dict) list"
  sr_n_confirmed :: nat
  sr_confirmed_rate :: rat
  sr_all_confirmed :: bool

definition single_main :: "env \<Rightarrow> environ \<Rightarrow> string \<Rightarrow> string \<Rightarrow> (world, single_report) act" where
  "single_main E os_environ app baseline =
     act_bind (act_lift (campaign_seed os_environ)) (\<lambda>base_seed.
     act_bind (act_lift (campaign_repetitions os_environ)) (\<lambda>repetitions.
     act_bind (single_loop E os_environ app baseline [1..<nat repetitions + 1] single_campaign0) (\<lambda>sc.
     act_bind (act_lift (res_map (\<lambda>(name, values). res_bind (latency_summary (en_randrange E) (to_ms values) base_seed) (\<lambda>summary.
          Inr (name, summary))) [(''total_dispatch_to_confirmed_ms'', sc_total_ns sc), (''core_decision_ms'', sc_decision_ns sc),
            (''core_table_write_to_install_ms'', sc_install_ns sc)])) (\<lambda>metrics.
       let n = length (filter (\<lambda>b. b) (sc_confirmed sc))
       in act_return \<lparr>sr_campaign = sc, sr_metrics = metrics, sr_n_confirmed = n,
            sr_confirmed_rate = (if sc_confirmed sc \<noteq> [] then of_nat n / of_nat (length (sc_confirmed sc)) else 0),
            sr_all_confirmed = list_all (\<lambda>b. b) (sc_confirmed sc)\<rparr>))))"

end
