(* ===== verification/Campaign_Laws.thy ===== *)
theory Campaign_Laws
  imports Campaigns
begin

text \<open>
  The campaign finds the manifest that the gate prints, whatever was printed before it; and its counts say of every
  condition how many of all repetitions passed it.
\<close>

subsection \<open>The manifest on standard output\<close>

lemma brace_starts_append:
  "brace_starts (pre @ ''{'' # rest) \<noteq> [] \<and> (''{'' \<notin> set rest \<longrightarrow> last (brace_starts (pre @ ''{'' # rest)) = length pre)"
proof -
  let ?ls = "pre @ ''{'' # rest"
  have upt: "[0..<length ?ls] = [0..<length pre] @ length pre # [Suc (length pre)..<length ?ls]"
    using upt_add_eq_append [of 0 "length pre" "Suc (length rest)"] by (simp add: upt_conv_Cons del: upt_Suc)
  have here: "?ls ! length pre = ''{''" by simp
  have "brace_starts ?ls = filter (\<lambda>i. ?ls ! i = ''{'') [0..<length pre] @ length pre #
      filter (\<lambda>i. ?ls ! i = ''{'') [Suc (length pre)..<length ?ls]"
    unfolding brace_starts_def upt by (simp add: here)
  moreover have "filter (\<lambda>i. ?ls ! i = ''{'') [Suc (length pre)..<length ?ls] = []" if none: "''{'' \<notin> set rest"
  proof -
    have "?ls ! i \<noteq> ''{''" if "Suc (length pre) \<le> i" "i < length ?ls" for i
    proof -
      have "?ls ! i = rest ! (i - Suc (length pre))" using that(1) by (simp add: nth_append nth_Cons')
      moreover have "i - Suc (length pre) < length rest" using that by simp
      ultimately show ?thesis using none by (metis nth_mem)
    qed
    then show ?thesis by (auto simp: filter_empty_conv simp del: upt_Suc)
  qed
  ultimately show ?thesis by simp
qed

lemma printed_manifest:
  assumes "\<forall>r. \<forall>c \<in> set (fl r). \<not> line_break c" and "d \<noteq> []" and "before = [] \<or> last before = NL"
  defines "out \<equiv> before @ json_dumps fl (JObj d) 0 @ [NL]"
  shows "brace_starts (py_splitlines out) \<noteq> [] \<and> manifest_text (py_splitlines out) = json_dumps fl (JObj d) 0"
proof -
  obtain rest where rest: "py_splitlines (json_dumps fl (JObj d) 0 @ [NL]) = ''{'' # rest"
      "py_join NL (''{'' # rest) = json_dumps fl (JObj d) 0" "''{'' \<notin> set rest"
    using json_dumps_lines [of fl d] assms(1,2) by blast
  have "\<exists>pre. py_splitlines out = pre @ ''{'' # rest"
  proof (cases "before = []")
    case True
    with rest(1) show ?thesis by (intro exI [of _ "[]"]) (simp add: out_def del: json_dumps.simps)
  next
    case False
    then have "before = butlast before @ [NL]" using assms(3) by (metis append_butlast_last_id)
    then show ?thesis using split_append [of "butlast before"] rest(1) by (metis out_def)
  qed
  then obtain pre where pre: "py_splitlines out = pre @ ''{'' # rest" by blast
  with brace_starts_append [of pre rest] rest(2,3) show ?thesis by (simp add: manifest_text_def)
qed

text \<open>
  Property C38 (the manifest found). When the gate script ends by printing its manifest, whatever it printed before, the
  campaign decodes exactly the printed text of the manifest, goes on to the results file of its time stamp, and records
  the manifest with the return code.
\<close>

theorem campaign_reads_manifest:
  assumes "\<forall>r. \<forall>c \<in> set (fl r). \<not> line_break c" and "d \<noteq> []" and "before = [] \<or> last before = NL"
    and "action = RunScript (dict_put ''DAIM_GATE_SEED'' (py_str seed) os_environ) [python, script, ''--include-g8'']"
    and "en_run E (w_log w @ [action]) = Inr (returncode, before @ json_dumps fl (JObj d) 0 @ [NL])"
    and "en_loads E (json_dumps fl (JObj d) 0) = Inr (JObj d)"
  shows "campaign_repetition E os_environ python script results_dir rep seed w =
    act_bind (read_gate_results E results_dir (JObj d)) (\<lambda>gate_results.
      act_return \<lparr>cr_rep = rep, cr_seed = seed, cr_returncode = returncode, cr_manifest = JObj d, cr_gate_results = gate_results,
        cr_parse_error = None, cr_tails = None\<rparr>) (perform E action w)"
proof -
  have "brace_starts (py_splitlines (before @ json_dumps fl (JObj d) 0 @ [NL])) \<noteq> []"
      "manifest_text (py_splitlines (before @ json_dumps fl (JObj d) 0 @ [NL])) = json_dumps fl (JObj d) 0"
    using printed_manifest [OF assms(1-3)] by simp_all
  moreover have "run_gate_script E os_environ python script seed w =
      (Inr (returncode, before @ json_dumps fl (JObj d) 0 @ [NL]), perform E action w)"
    using assms(4,5) by (simp add: run_gate_script_def ask_def Let_def)
  ultimately show ?thesis
    using assms(6) by (simp add: campaign_repetition_def Let_def act_bind_def [of "run_gate_script E e p s sd" for e p s sd]
        act_bind_def [of "act_lift r" for r] act_lift_def del: json_dumps.simps)
qed

definition sample_manifest :: dict where
  "sample_manifest = [(''run_timestamp'', JStr ''t''), (''gate_pass'', JObj [(''G1'', JBool True)])]"

definition printing_env :: env where
  "printing_env = quiet_env\<lparr>
     en_run := (\<lambda>_. Inr (0, (''running G1 (propagation)...'' @ [NL] @ ''{'' @ [NL]) @ json_dumps (\<lambda>_. ''0.5'') (JObj sample_manifest) 0 @ [NL])),
     en_loads := (\<lambda>s. if s = json_dumps (\<lambda>_. ''0.5'') (JObj sample_manifest) 0 then Inr (JObj sample_manifest) else Inl JSONDecodeError)\<rparr>"

theorem campaign_reads_manifest_witness:
  "\<exists>result. fst (campaign_repetition printing_env [] ''python3'' ''gate.py'' ''results'' 0 20260810 quiet_world) = Inr result \<and>
     cr_manifest result = JObj sample_manifest \<and> cr_gate_results result = JNull \<and> cr_parse_error result = None"
proof -
  let ?action = "RunScript (dict_put ''DAIM_GATE_SEED'' (py_str 20260810) []) [''python3'', ''gate.py'', ''--include-g8'']"
  have "campaign_repetition printing_env [] ''python3'' ''gate.py'' ''results'' 0 20260810 quiet_world =
    act_bind (read_gate_results printing_env ''results'' (JObj sample_manifest)) (\<lambda>gate_results.
      act_return \<lparr>cr_rep = 0, cr_seed = 20260810, cr_returncode = 0, cr_manifest = JObj sample_manifest, cr_gate_results = gate_results,
        cr_parse_error = None, cr_tails = None\<rparr>) (perform printing_env ?action quiet_world)"
    by (rule campaign_reads_manifest [where fl = "\<lambda>_. ''0.5''" and before = "''running G1 (propagation)...'' @ [NL] @ ''{'' @ [NL]"])
      (simp_all add: printing_env_def sample_manifest_def line_break_def del: json_dumps.simps)
  then show ?thesis
    by (simp add: read_gate_results_def act_bind_def act_lift_def json_item_def sample_manifest_def dict_item_def ask_def Let_def
        printing_env_def quiet_env_def act_return_def)
qed

subsection \<open>The counts of a campaign\<close>

text \<open>A repetition passes a condition when it has results and the report of the condition is a pass.\<close>

definition repetition_passed :: "campaign_result \<Rightarrow> string \<Rightarrow> bool" where
  "repetition_passed result c \<longleftrightarrow>
     cr_gate_results result \<noteq> JNull \<and> condition_passed (cr_gate_results result) c = Inr True"

definition passes_of :: "campaign_result list \<Rightarrow> (string \<times> bool list) list" where
  "passes_of results = map (\<lambda>c. (c, map (\<lambda>r. repetition_passed r c) results)) CONDITIONS"

lemma add_verdicts: "fold add_pass (map (\<lambda>c. (c, g c)) CONDITIONS) (map (\<lambda>c. (c, f c)) CONDITIONS) = map (\<lambda>c. (c, f c @ [g c])) CONDITIONS"
  by (simp add: CONDITIONS_def add_pass_def)

lemma campaign_add_passes:
  assumes "campaign_add result cp = Inr cp'" and "cp_pass cp = passes_of (cp_repetitions cp)"
  shows "cp_repetitions cp' = cp_repetitions cp @ [result] \<and> cp_pass cp' = passes_of (cp_repetitions cp')"
proof (cases "cr_gate_results result = JNull")
  case True
  with assms have "cp_repetitions cp' = cp_repetitions cp @ [result]"
      "cp_pass cp' = fold add_pass (map (\<lambda>c. (c, False)) CONDITIONS) (passes_of (cp_repetitions cp))"
    by (auto simp: campaign_add_def Let_def)
  then show ?thesis using True add_verdicts [of "\<lambda>c. False"] by (simp add: passes_of_def repetition_passed_def)
next
  case False
  let ?v = "\<lambda>c. res_bind (condition_passed (cr_gate_results result) c) (\<lambda>b. Inr (c, b))"
  obtain verdicts where v: "res_map ?v CONDITIONS = Inr verdicts"
    and cp': "cp_repetitions cp' = cp_repetitions cp @ [result]" "cp_pass cp' = fold add_pass verdicts (cp_pass cp)"
    using assms(1) False by (auto simp: campaign_add_def Let_def res_bind_Inr_conv)
  have "verdicts = map (\<lambda>c. (c, repetition_passed result c)) CONDITIONS"
    using res_map_nth [OF v] False by (intro nth_equalityI) (fastforce simp: repetition_passed_def res_bind_Inr_conv)+
  then show ?thesis using cp' assms(2) add_verdicts [of "repetition_passed result"] by (simp add: passes_of_def)
qed

lemma campaign_repetition_names:
  "campaign_repetition E os_environ python script results_dir rep seed w = (Inr result, w') \<Longrightarrow> cr_rep result = rep \<and> cr_seed result = seed"
  by (auto simp: campaign_repetition_def Let_def act_bind_Inr act_return_def split: if_splits)

lemma campaign_loop_passes:
  assumes "campaign_loop E os_environ python script results_dir base_seed reps cp w = (Inr cp', w')"
    and "cp_pass cp = passes_of (cp_repetitions cp)"
  shows "cp_pass cp' = passes_of (cp_repetitions cp') \<and>
    map (\<lambda>r. (cr_rep r, cr_seed r)) (cp_repetitions cp') =
      map (\<lambda>r. (cr_rep r, cr_seed r)) (cp_repetitions cp) @ map (\<lambda>rep. (rep, base_seed + int rep)) reps"
  using assms
proof (induction reps arbitrary: cp w)
  case (Cons rep reps)
  obtain result cp1 w1 where step: "campaign_repetition E os_environ python script results_dir rep (base_seed + int rep) w = (Inr result, w1)"
      "campaign_add result cp = Inr cp1"
      "campaign_loop E os_environ python script results_dir base_seed reps cp1 w1 = (Inr cp', w')"
    using Cons.prems(1) by (auto simp: act_bind_Inr act_lift_def)
  note added = campaign_add_passes [OF step(2) Cons.prems(2)]
  with Cons.IH [OF step(3)] campaign_repetition_names [OF step(1)] show ?case by simp
qed (simp add: act_return_def)

text \<open>
  Property C39 (the campaign's counts). When the distributed campaign ends with a report, it ran the gate for every
  repetition with a seed of its own; a repetition without results counts as failed, not as missing; and the report says of
  every condition how many of all repetitions passed it, and that all passed exactly if every repetition passed every
  condition.
\<close>

theorem campaign_counts_all_repetitions:
  assumes "campaign_main E os_environ python script results_dir w = (Inr report, w')"
  shows "\<exists>base_seed repetitions results. campaign_seed os_environ = Inr base_seed \<and> campaign_repetitions os_environ = Inr repetitions \<and>
    map (\<lambda>r. (cr_rep r, cr_seed r)) results = map (\<lambda>rep. (rep, base_seed + int rep)) [0..<nat repetitions] \<and>
    rt_conditions report =
      map (\<lambda>c. let n = length (filter (\<lambda>r. repetition_passed r c) results)
               in (c, nat repetitions, n, if results \<noteq> [] then of_nat n / of_nat (nat repetitions) else 0)) CONDITIONS \<and>
    rt_all_passed report = list_all (\<lambda>r. list_all (repetition_passed r) CONDITIONS) results"
proof -
  obtain base_seed repetitions cp w1 where run: "campaign_seed os_environ = Inr base_seed" "campaign_repetitions os_environ = Inr repetitions"
      "campaign_loop E os_environ python script results_dir base_seed [0..<nat repetitions] campaign0 w = (Inr cp, w1)"
      "rt_conditions report = condition_summary (cp_pass cp)"
      "rt_all_passed report = list_all (\<lambda>(c, bs). list_all (\<lambda>b. b) bs) (cp_pass cp)"
    using assms by (auto simp: campaign_main_def act_bind_Inr act_lift_def act_return_def)
  have "cp_pass campaign0 = passes_of (cp_repetitions campaign0)" by (simp add: campaign0_def passes_of_def)
  from campaign_loop_passes [OF run(3) this] have cp: "cp_pass cp = passes_of (cp_repetitions cp)"
      "map (\<lambda>r. (cr_rep r, cr_seed r)) (cp_repetitions cp) = map (\<lambda>rep. (rep, base_seed + int rep)) [0..<nat repetitions]"
    by (simp_all add: campaign0_def)
  have "length (cp_repetitions cp) = nat repetitions" using arg_cong [OF cp(2), of length] by simp
  then have "rt_conditions report =
      map (\<lambda>c. let n = length (filter (\<lambda>r. repetition_passed r c) (cp_repetitions cp))
               in (c, nat repetitions, n, if cp_repetitions cp \<noteq> [] then of_nat n / of_nat (nat repetitions) else 0)) CONDITIONS"
    by (simp add: run(4) cp(1) condition_summary_def passes_of_def Let_def filter_map comp_def)
  moreover have "rt_all_passed report = list_all (\<lambda>r. list_all (repetition_passed r) CONDITIONS) (cp_repetitions cp)"
    by (auto simp: run(5) cp(1) passes_of_def list_all_iff)
  ultimately show ?thesis using run(1,2) cp(2) by blast
qed

text \<open>A gate script that prints its manifest and leaves results in which only G1 passed.\<close>

definition g1_results :: json where
  "g1_results = JObj [(''G1'', JObj [(''pass'', JBool True)])]"

definition results_env :: env where
  "results_env = printing_env\<lparr>
     en_loads := (\<lambda>s. if s = ''g'' then Inr g1_results else en_loads printing_env s),
     en_exists := (\<lambda>_. True), en_content := (\<lambda>_. Inr ''g'')\<rparr>"

definition two_repetitions :: environ where
  "two_repetitions = [(''DAIM_CAMPAIGN_SEED'', ''7''), (''DAIM_CAMPAIGN_REPETITIONS'', ''2'')]"

lemma repetition_with_results:
  assumes "\<And>h. en_run E h = Inr (0, out)" and "brace_starts (py_splitlines out) \<noteq> []" and "manifest_text (py_splitlines out) = m"
    and "en_loads E m = Inr (JObj d)" and "map_of d ''run_timestamp'' = Some ts" and "\<And>h. en_exists E h"
    and "\<And>h. en_content E h = Inr content" and "en_loads E content = Inr g"
  shows "\<exists>w'. campaign_repetition E os_environ python script results_dir rep seed w =
     (Inr \<lparr>cr_rep = rep, cr_seed = seed, cr_returncode = 0, cr_manifest = JObj d, cr_gate_results = g,
       cr_parse_error = None, cr_tails = None\<rparr>, w')"
  using assms
  by (simp add: campaign_repetition_def run_gate_script_def Let_def act_bind_def act_lift_def act_return_def read_gate_results_def
      json_item_def dict_item_def ask_def)

lemma sample_repetition:
  "\<exists>w'. campaign_repetition results_env two_repetitions ''python3'' ''gate.py'' ''results'' rep seed w =
     (Inr \<lparr>cr_rep = rep, cr_seed = seed, cr_returncode = 0, cr_manifest = JObj sample_manifest, cr_gate_results = g1_results,
       cr_parse_error = None, cr_tails = None\<rparr>, w')"
proof (rule repetition_with_results)
  let ?before = "''running G1 (propagation)...'' @ [NL] @ ''{'' @ [NL]" and ?m = "json_dumps (\<lambda>_. ''0.5'') (JObj sample_manifest) 0"
  show "en_run results_env h = Inr (0, ?before @ ?m @ [NL])" for h by (simp add: results_env_def printing_env_def)
  show "brace_starts (py_splitlines (?before @ ?m @ [NL])) \<noteq> []" "manifest_text (py_splitlines (?before @ ?m @ [NL])) = ?m"
    using printed_manifest [of "\<lambda>_. ''0.5''" sample_manifest ?before] by (simp_all add: sample_manifest_def line_break_def del: json_dumps.simps)
  have "?m \<noteq> ''g''" by (simp add: sample_manifest_def bracketed_def new_line_def)
  then show "en_loads results_env ?m = Inr (JObj sample_manifest)"
    by (simp add: results_env_def printing_env_def del: json_dumps.simps)
  show "en_loads results_env ''g'' = Inr g1_results" "map_of sample_manifest ''run_timestamp'' = Some (JStr ''t'')"
    by (simp_all add: results_env_def sample_manifest_def)
  show "en_exists results_env h" "en_content results_env h = Inr ''g''" for h by (simp_all add: results_env_def)
qed

theorem campaign_counts_all_repetitions_witness:
  "\<exists>report w' results. campaign_main results_env two_repetitions ''python3'' ''gate.py'' ''results'' quiet_world = (Inr report, w') \<and>
     map (\<lambda>r. (cr_rep r, cr_seed r)) results = [(0, 7), (1, 8)] \<and>
     rt_all_passed report = list_all (\<lambda>r. list_all (repetition_passed r) CONDITIONS) results"
proof -
  let ?r = "\<lambda>rep seed. \<lparr>cr_rep = rep, cr_seed = seed, cr_returncode = 0, cr_manifest = JObj sample_manifest, cr_gate_results = g1_results,
       cr_parse_error = None, cr_tails = None\<rparr>"
  have config: "campaign_seed two_repetitions = Inr 7" "campaign_repetitions two_repetitions = Inr 2"
    by (simp_all add: campaign_seed_def campaign_repetitions_def two_repetitions_def environ_get_def) code_simp+
  have verdict: "condition_passed g1_results c = Inr (c = ''G1'')" for c
    by (simp add: condition_passed_def gate_report_def json_get_def g1_results_def or_empty_def dict_get_def)
  have metrics: "extract_metrics g1_results = Inr []"
    by (simp add: extract_metrics_def gate_report_def json_get_def g1_results_def or_empty_def dict_get_def add_metric_def)
  have some: "g1_results \<noteq> JNull" by (simp add: g1_results_def)
  have add: "\<exists>cp'. campaign_add (?r rep seed) cp = Inr cp' \<and> cp_series cp' = cp_series cp" for rep seed cp
    by (simp add: campaign_add_def Let_def some verdict metrics CONDITIONS_def)
  obtain w1 where w1: "campaign_repetition results_env two_repetitions ''python3'' ''gate.py'' ''results'' 0 7 quiet_world = (Inr (?r 0 7), w1)"
    using sample_repetition by blast
  obtain w2 where w2: "campaign_repetition results_env two_repetitions ''python3'' ''gate.py'' ''results'' 1 8 w1 = (Inr (?r 1 8), w2)"
    using sample_repetition by blast
  obtain cp1 where cp1: "campaign_add (?r 0 7) campaign0 = Inr cp1" "cp_series cp1 = []" using add [of 0 7 campaign0] by (auto simp: campaign0_def)
  obtain cp2 where cp2: "campaign_add (?r 1 8) cp1 = Inr cp2" "cp_series cp2 = []" using add [of 1 8 cp1] cp1(2) by auto
  have "[0..<nat 2] = [0, 1]" by (simp add: upt_rec)
  then obtain report where run: "campaign_main results_env two_repetitions ''python3'' ''gate.py'' ''results'' quiet_world = (Inr report, w2)"
    using w1 w2 cp1 cp2 config by (simp add: campaign_main_def act_bind_def act_lift_def act_return_def)
  from campaign_counts_all_repetitions [OF run] obtain base repetitions results
    where all: "campaign_seed two_repetitions = Inr base" "campaign_repetitions two_repetitions = Inr repetitions"
      "map (\<lambda>r. (cr_rep r, cr_seed r)) results = map (\<lambda>rep. (rep, base + int rep)) [0..<nat repetitions]"
      "rt_all_passed report = list_all (\<lambda>r. list_all (repetition_passed r) CONDITIONS) results" by blast
  have "base = 7" "repetitions = 2" using all(1,2) config by simp_all
  then have seeds: "map (\<lambda>r. (cr_rep r, cr_seed r)) results = [(0, 7), (1, 8)]" using all(3) \<open>[0..<nat 2] = [0, 1]\<close> by simp
  show ?thesis by (rule exI, rule exI, rule exI, rule conjI [OF run], rule conjI [OF seeds all(4)])
qed

end
