(* ===== verification/Link_Monitor.thy ===== *)
theory Link_Monitor
  imports Harness_Laws
begin

text \<open>
  The link monitor of the fault experiments (\<open>implementation/tools/daim_monitor.py\<close>): poll the state of an interface, run the
  repair command when the link is down, and report the times. The output file is left out.
\<close>

subsection \<open>The monitor\<close>

record monitor_args =
  ma_interface :: string
  ma_repair :: string
  ma_timeout :: rat
  ma_poll_ms :: rat

definition link_down :: "env \<Rightarrow> string \<Rightarrow> (world, bool) act" where
  "link_down E interface =
     act_bind (run E [''ovs-vsctl'', ''get'', ''Interface'', interface, ''link_state'']) (\<lambda>(rc, out).
       act_return (rc = 0 \<and> py_substring ''down'' out))"

text \<open>How the loop ends: without a detection, with the three times, or by \<open>SystemExit\<close> with a text.\<close>

datatype monitor_end =
    Missed
  | Repaired int int int
  | ExitText string

definition repair_link :: "env \<Rightarrow> string \<Rightarrow> (world, monitor_end) act" where
  "repair_link E repair =
     act_bind (perf_counter_ns E) (\<lambda>detected.
     act_bind (perf_counter_ns E) (\<lambda>decided.
     act_bind (ask E (Run [repair]) (\<lambda>hist. res_bind (en_run E hist) (\<lambda>(rc, out). Inr (rc, en_stderr E hist)))) (\<lambda>(rc, err).
     act_bind (perf_counter_ns E) (\<lambda>acted.
       act_return (if rc \<noteq> 0 then ExitText (if py_strip err \<noteq> [] then py_strip err else ''repair command failed'')
                   else Repaired detected decided acted)))))"

text \<open>The loop compares a reading in seconds, less the start in nanoseconds, with the timeout.\<close>

partial_function (option) monitor_loop :: "env \<Rightarrow> monitor_args \<Rightarrow> int \<Rightarrow> world \<Rightarrow> (monitor_end res \<times> world) option" where
  "monitor_loop E a started w =
     (let w1 = perform E Clock w
      in if \<not> w_now w1 - of_int started < ma_timeout a then Some (Inr Missed, w1)
         else
           let (r, w2) = link_down E (ma_interface a) w1
           in case r of
                Inl e \<Rightarrow> Some (Inl e, w2)
              | Inr down \<Rightarrow>
                  if down then Some (repair_link E (ma_repair a) w2)
                  else if ma_poll_ms a < 0 then Some (Inl ValueError, w2)
                  else monitor_loop E a started (perform E (Sleep (ma_poll_ms a / 1000)) w2))"

text \<open>\<open>x / 1000 if t else None\<close>; a time of 0 counts as none.\<close>

definition micros :: "int \<Rightarrow> int \<Rightarrow> json" where
  "micros t x = (if t \<noteq> 0 then JFloat (of_int x / 1000) else JNull)"

definition monitor_result :: "string \<Rightarrow> int \<Rightarrow> (int \<times> int \<times> int) option \<Rightarrow> dict" where
  "monitor_result interface started found =
     [(''evidence_level'', JStr ''measured_emulation_autonomous''), (''interface'', JStr interface),
      (''detected'', JBool (found \<noteq> None)),
      (''failure_to_detection_us'', case found of None \<Rightarrow> JNull | Some (detected, decided, acted) \<Rightarrow> micros detected (detected - started)),
      (''decision_us'', case found of None \<Rightarrow> JNull | Some (detected, decided, acted) \<Rightarrow> micros decided (decided - detected)),
      (''actuation_us'', case found of None \<Rightarrow> JNull | Some (detected, decided, acted) \<Rightarrow> micros acted (acted - decided)),
      (''total_us'', case found of None \<Rightarrow> JNull | Some (detected, decided, acted) \<Rightarrow> micros acted (acted - started))]"

text \<open>The printed result with the exit code, or the text of an early exit.\<close>

definition monitor_report :: "monitor_args \<Rightarrow> int \<Rightarrow> monitor_end \<Rightarrow> string + (dict \<times> int)" where
  "monitor_report a started e =
     (case e of
        ExitText s \<Rightarrow> Inl s
      | Missed \<Rightarrow> Inr (monitor_result (ma_interface a) started None, 2)
      | Repaired detected decided acted \<Rightarrow>
          Inr (monitor_result (ma_interface a) started (Some (detected, decided, acted)), if detected \<noteq> 0 then 0 else 2))"

definition monitor_run :: "env \<Rightarrow> monitor_args \<Rightarrow> world \<Rightarrow> ((string + (dict \<times> int)) res \<times> world) option" where
  "monitor_run E a w =
     (let w1 = perform E Clock w; started = \<lfloor>w_now w1 * 10 ^ 9\<rfloor>
      in map_option (\<lambda>(r, w'). (res_bind r (\<lambda>e. Inr (monitor_report a started e)), w')) (monitor_loop E a started w1))"

subsection \<open>When it ends\<close>

lemma extends_link_down: "link_down E i w = (r, w') \<Longrightarrow> extends w w'"
  by (rule growsD [of "link_down E i"]) (auto simp: link_down_def intro!: grows_intros split: prod.splits)

text \<open>With a positive poll interval every round takes time, so the loop ends.\<close>

lemma monitor_loop_ends:
  assumes "0 < ma_poll_ms a"
  shows "\<exists>r. monitor_loop E a started w = Some r"
proof (induction "nat \<lceil>(ma_timeout a + of_int started - w_now w) / (ma_poll_ms a / 1000)\<rceil>" arbitrary: w rule: less_induct)
  case less
  let ?w1 = "perform E Clock w"
  obtain r w2 where down: "link_down E (ma_interface a) ?w1 = (r, w2)" by (cases "link_down E (ma_interface a) ?w1")
  let ?w3 = "perform E (Sleep (ma_poll_ms a / 1000)) w2"
  show ?case
  proof (cases "w_now ?w1 - of_int started < ma_timeout a \<and> r = Inr False")
    case True
    have "w_now w \<le> w_now ?w1" by (rule perform_now)
    moreover have "w_now ?w1 \<le> w_now w2" using extends_link_down [OF down] by (simp add: extends_def)
    moreover have "w_now w2 + ma_poll_ms a / 1000 \<le> w_now ?w3" using assms by (intro perform_sleep) simp
    ultimately have "w_now w < ma_timeout a + of_int started" "w_now w + ma_poll_ms a / 1000 \<le> w_now ?w3"
      using True by linarith+
    from less(1) [OF poll_measure [OF this(1) _ this(2)]] assms obtain r' where "monitor_loop E a started ?w3 = Some r'" by auto
    then show ?thesis using True down assms by (subst monitor_loop.simps) (simp add: Let_def)
  next
    case False
    then show ?thesis using down
      by (subst monitor_loop.simps) (auto simp: Let_def split: sum.splits prod.splits)
  qed
qed

definition ends_right :: "monitor_args \<Rightarrow> int \<Rightarrow> world \<Rightarrow> monitor_end res \<Rightarrow> world \<Rightarrow> bool" where
  "ends_right a started w r w' \<longleftrightarrow> extends w w' \<and>
     (case r of
        Inr Missed \<Rightarrow> ma_timeout a + of_int started \<le> w_now w'
      | Inr (Repaired detected decided acted) \<Rightarrow> \<lfloor>w_now w * 10 ^ 9\<rfloor> \<le> detected \<and> detected \<le> decided \<and> decided \<le> acted
      | _ \<Rightarrow> True)"

lemma ns_mono: "extends w w' \<Longrightarrow> \<lfloor>w_now w * 10 ^ 9\<rfloor> \<le> \<lfloor>w_now w' * 10 ^ 9\<rfloor>"
  by (intro floor_mono) (simp add: extends_def)

lemma ends_right_earlier: "extends w1 w \<Longrightarrow> ends_right a started w r w' \<Longrightarrow> ends_right a started w1 r w'"
  using ns_mono [of w1 w] by (auto simp: ends_right_def intro: extends_trans split: sum.splits monitor_end.splits)

lemma repair_link_times: "repair_link E repair w = (r, w') \<Longrightarrow> ends_right a started w r w'"
proof -
  assume go: "repair_link E repair w = (r, w')"
  let ?w1 = "perform E Clock w"
  let ?w2 = "perform E Clock ?w1"
  let ?w3 = "perform E (Run [repair]) ?w2"
  let ?w4 = "perform E Clock ?w3"
  have e: "extends w ?w1" "extends ?w1 ?w2" "extends ?w2 ?w4" "extends w ?w3" "extends w ?w4"
    by (metis extends_perform extends_trans)+
  show ?thesis
  proof (cases "en_run E (w_log ?w3)")
    case (Inl x)
    with go have "r = Inl x" "w' = ?w3"
      by (simp_all add: repair_link_def perf_counter_ns_def act_bind_def monotonic_def act_return_def ask_def Let_def)
    then show ?thesis using e by (simp add: ends_right_def)
  next
    case (Inr x)
    let ?err = "py_strip (en_stderr E (w_log ?w3))"
    have "repair_link E repair w = (Inr (if fst x \<noteq> 0 then ExitText (if ?err \<noteq> [] then ?err else ''repair command failed'')
        else Repaired \<lfloor>w_now ?w1 * 10 ^ 9\<rfloor> \<lfloor>w_now ?w2 * 10 ^ 9\<rfloor> \<lfloor>w_now ?w4 * 10 ^ 9\<rfloor>), ?w4)"
      using Inr by (simp add: repair_link_def perf_counter_ns_def act_bind_def monotonic_def act_return_def ask_def Let_def split_def)
    then have w': "w' = ?w4" and "r = Inr (if fst x \<noteq> 0 then ExitText (if ?err \<noteq> [] then ?err else ''repair command failed'')
        else Repaired \<lfloor>w_now ?w1 * 10 ^ 9\<rfloor> \<lfloor>w_now ?w2 * 10 ^ 9\<rfloor> \<lfloor>w_now ?w4 * 10 ^ 9\<rfloor>)"
      using go by (metis prod.inject)+
    then show ?thesis
      using e(5) ns_mono [OF e(1)] ns_mono [OF e(2)] ns_mono [OF e(3)] by (cases "fst x = 0") (simp_all only: ends_right_def sum.case monitor_end.case if_True if_False simp_thms w')
  qed
qed

lemma monitor_loop_right: "monitor_loop E a started w = Some y \<Longrightarrow> ends_right a started w (fst y) (snd y)"
proof (induction E a started w y rule: monitor_loop.raw_induct [rotated 1, consumes 1, case_names step])
  case (step loop E a started w y)
  let ?w1 = "perform E Clock w"
  obtain d w2 where down: "link_down E (ma_interface a) ?w1 = (d, w2)" by (cases "link_down E (ma_interface a) ?w1")
  let ?w3 = "perform E (Sleep (ma_poll_ms a / 1000)) w2"
  have e: "extends w ?w1" "extends w w2" "extends w ?w3"
    using extends_link_down [OF down] extends_perform extends_trans by blast+
  note go = step(2) [unfolded Let_def down prod.case]
  show ?case
  proof (cases "w_now ?w1 - of_int started < ma_timeout a")
    case False
    then show ?thesis using go e by (auto simp: ends_right_def)
  next
    case True
    show ?thesis
    proof (cases d)
      case (Inl x)
      then show ?thesis using go True e by (auto simp: ends_right_def)
    next
      case (Inr b)
      consider "b" | "\<not> b" "ma_poll_ms a < 0" | "\<not> b" "\<not> ma_poll_ms a < 0" by blast
      then show ?thesis
      proof cases
        case 1
        then have "repair_link E (ma_repair a) w2 = (fst y, snd y)" using go True Inr by simp
        then show ?thesis by (rule ends_right_earlier [OF e(2) repair_link_times])
      next
        case 2
        then show ?thesis using go True Inr e by (auto simp: ends_right_def)
      next
        case 3
        then have "loop E a started ?w3 = Some y" using go True Inr by simp
        then show ?thesis by (rule ends_right_earlier [OF e(3) step(1)])
      qed
    qed
  qed
qed

text \<open>What a report says: a detection with its times, or none long after the timeout.\<close>

definition report_right :: "monitor_args \<Rightarrow> world \<Rightarrow> dict \<Rightarrow> int \<Rightarrow> world \<Rightarrow> bool" where
  "report_right a w report code w' \<longleftrightarrow>
     (code = 0 \<and> dict_get report ''detected'' = JBool True \<and>
        (\<exists>x y z. 0 \<le> x \<and> 0 \<le> y \<and> 0 \<le> z \<and> dict_get report ''failure_to_detection_us'' = JFloat x \<and>
           dict_get report ''decision_us'' = JFloat y \<and> dict_get report ''actuation_us'' = JFloat z \<and>
           dict_get report ''total_us'' = JFloat (x + y + z))) \<or>
     (code = 2 \<and> dict_get report ''detected'' = JBool False \<and> ma_timeout a + 10 ^ 9 * w_now w - 1 \<le> w_now w')"

lemma report_repaired:
  assumes "0 < started" and "started \<le> detected" and "detected \<le> decided" and "decided \<le> acted"
  shows "report_right a w (monitor_result i started (Some (detected, decided, acted))) (if detected \<noteq> 0 then 0 else 2) w'"
proof -
  let ?x = "of_int (detected - started) / 1000 :: rat" and ?y = "of_int (decided - detected) / 1000 :: rat"
    and ?z = "of_int (acted - decided) / 1000 :: rat"
  have "0 \<le> ?x" "0 \<le> ?y" "0 \<le> ?z" using assms by simp_all
  moreover have "of_int (acted - started) / 1000 = ?x + ?y + ?z" by (simp add: field_simps)
  moreover have "detected \<noteq> 0" "decided \<noteq> 0" "acted \<noteq> 0" using assms by simp_all
  ultimately show ?thesis
    unfolding report_right_def monitor_result_def
    by (intro disjI1 conjI exI [of _ ?x] exI [of _ ?y] exI [of _ ?z]) (simp_all add: dict_get_def micros_def)
qed

text \<open>
  Property C40 (the timeout of the monitor). With a positive poll interval the monitor always ends. If it reports a detection,
  the total time is the sum of its three parts. But it gives up only when the clock, in seconds, has passed the sum of the
  timeout and the start in nanoseconds: from a clock of one second on that is more than 31 years later than asked
  for, so in practice the timeout never takes effect.
\<close>

theorem monitor_gives_up_too_late:
  assumes "0 < ma_poll_ms a" and "1 \<le> w_now w"
  shows "case monitor_run E a w of
     None \<Rightarrow> False
   | Some (r, w') \<Rightarrow> (case r of Inr (Inr (report, code)) \<Rightarrow> report_right a w report code w' | _ \<Rightarrow> True)"
proof -
  let ?w1 = "perform E Clock w"
  let ?started = "\<lfloor>w_now ?w1 * 10 ^ 9\<rfloor>"
  obtain r w' where loop: "monitor_loop E a ?started ?w1 = Some (r, w')"
    using monitor_loop_ends [OF assms(1), of E ?started ?w1] by auto
  from monitor_loop_right [OF loop] have right: "ends_right a ?started ?w1 r w'" by simp
  have run: "monitor_run E a w = Some (res_bind r (\<lambda>e. Inr (monitor_report a ?started e)), w')"
    using loop by (simp add: monitor_run_def Let_def)
  have now: "w_now w \<le> w_now ?w1" by (rule perform_now)
  then have "w_now w * 10 ^ 9 \<le> w_now ?w1 * 10 ^ 9" by (intro mult_right_mono) simp_all
  moreover have "1 * 10 ^ 9 \<le> w_now w * 10 ^ 9" using assms(2) by (intro mult_right_mono) simp_all
  moreover have "w_now ?w1 * 10 ^ 9 < of_int ?started + 1" by linarith
  ultimately have "10 ^ 9 * w_now w - 1 \<le> of_int ?started" and "(1 :: rat) < of_int ?started" by simp_all
  then have start: "0 < ?started" "10 ^ 9 * w_now w - 1 \<le> of_int ?started" by simp_all
  show ?thesis
  proof (cases r)
    case (Inr e)
    show ?thesis
    proof (cases e)
      case Missed
      with right Inr start(2) have "ma_timeout a + 10 ^ 9 * w_now w - 1 \<le> w_now w'" by (simp add: ends_right_def)
      then show ?thesis
        unfolding run Inr Missed by (simp add: monitor_report_def report_right_def monitor_result_def dict_get_def)
    next
      case (Repaired detected decided acted)
      with right Inr have "?started \<le> detected" "detected \<le> decided" "decided \<le> acted" by (simp_all add: ends_right_def)
      from report_repaired [OF start(1) this] show ?thesis
        unfolding run Inr Repaired by (simp add: monitor_report_def)
    qed (simp add: run Inr monitor_report_def)
  qed (simp add: run)
qed

theorem monitor_gives_up_too_late_witness:
  "case monitor_run (quiet_env\<lparr>en_run := \<lambda>_. Inr (0, ''down'')\<rparr>)
       \<lparr>ma_interface = ''s1-eth2'', ma_repair = ''repair.sh'', ma_timeout = 10, ma_poll_ms = 5\<rparr> \<lparr>w_now = 1, w_log = []\<rparr> of
     None \<Rightarrow> False
   | Some (r, w') \<Rightarrow> (case r of Inr (Inr (report, code)) \<Rightarrow>
       report_right \<lparr>ma_interface = ''s1-eth2'', ma_repair = ''repair.sh'', ma_timeout = 10, ma_poll_ms = 5\<rparr> \<lparr>w_now = 1, w_log = []\<rparr> report code w'
     | _ \<Rightarrow> True)"
  by (rule monitor_gives_up_too_late) simp_all

end
