(* ===== verification/Foreign_Layout.thy ===== *)
theory Foreign_Layout
  imports Core_Bridge
begin

text \<open>
  How C and Python see the same memory. \<open>network/daim_distributed_node.py\<close> and \<open>network/daim_core_bridge.py\<close> declare
  to ctypes the structs and functions of the C headers once more; nothing checks at run time that the two agree.
  Here a struct is a list of typed fields, its layout is computed by the rules of the platform ABI
  (LP64, little endian), and an object is the bytes at an address. What the padding holds is arbitrary.
\<close>

subsection \<open>Types and layouts\<close>

text \<open>A pointer carries the name of what it points to; callbacks are pointers to functions.\<close>

datatype ctype =
    C_uint8 | C_uint16 | C_uint32 | C_uint64 | C_int | C_size_t
  | C_pointer string
  | C_array ctype nat
  | C_void

fun size_of :: "ctype \<Rightarrow> nat" where
  "size_of C_uint8 = 1"
| "size_of C_uint16 = 2"
| "size_of C_uint32 = 4"
| "size_of C_uint64 = 8"
| "size_of C_int = 4"
| "size_of C_size_t = 8"
| "size_of (C_pointer _) = 8"
| "size_of (C_array t n) = size_of t * n"
| "size_of C_void = 0"

fun align_of :: "ctype \<Rightarrow> nat" where
  "align_of (C_array t n) = align_of t"
| "align_of C_void = 1"
| "align_of t = size_of t"

text \<open>A struct: the bound on alignment that \<open>_pack_\<close> or \<open>#pragma pack\<close> sets, if any, and the fields.\<close>

record struct_decl =
  sd_pack :: "nat option"
  sd_fields :: "(string \<times> ctype) list"

definition field_align :: "nat option \<Rightarrow> ctype \<Rightarrow> nat" where
  "field_align pack t = (case pack of None \<Rightarrow> align_of t | Some p \<Rightarrow> min p (align_of t))"

definition align_up :: "nat \<Rightarrow> nat \<Rightarrow> nat" where
  "align_up a off = (off + a - 1) div a * a"

fun layout_from :: "nat option \<Rightarrow> nat \<Rightarrow> (string \<times> ctype) list \<Rightarrow> (string \<times> nat \<times> ctype) list" where
  "layout_from pack off [] = []"
| "layout_from pack off ((f, t) # fs) =
     (let pos = align_up (field_align pack t) off in (f, pos, t) # layout_from pack (pos + size_of t) fs)"

fun end_from :: "nat option \<Rightarrow> nat \<Rightarrow> (string \<times> ctype) list \<Rightarrow> nat" where
  "end_from pack off [] = off"
| "end_from pack off ((f, t) # fs) = end_from pack (align_up (field_align pack t) off + size_of t) fs"

definition struct_layout :: "struct_decl \<Rightarrow> (string \<times> nat \<times> ctype) list" where
  "struct_layout d = layout_from (sd_pack d) 0 (sd_fields d)"

definition struct_size :: "struct_decl \<Rightarrow> nat" where
  "struct_size d = align_up (foldr (\<lambda>(f, t). max (field_align (sd_pack d) t)) (sd_fields d) 1)
     (end_from (sd_pack d) 0 (sd_fields d))"

subsection \<open>Values in memory\<close>

datatype cval = CNum int | CBytes bytes

fun encode_val :: "ctype \<Rightarrow> cval \<Rightarrow> bytes" where
  "encode_val t (CNum i) = rev (be_bytes (size_of t) i)"
| "encode_val t (CBytes bs) = bs"

text \<open>A \<open>c_int\<close> is read as a two's complement number, an array of bytes as its bytes.\<close>

fun decode_val :: "ctype \<Rightarrow> bytes \<Rightarrow> cval" where
  "decode_val (C_array t n) bs = CBytes bs"
| "decode_val C_int bs = CNum (let u = be_int (rev bs) in if u < 2 ^ 31 then u else u - 2 ^ 32)"
| "decode_val t bs = CNum (be_int (rev bs))"

fun holds :: "ctype \<Rightarrow> cval \<Rightarrow> bool" where
  "holds (C_array t n) (CBytes bs) = (t = C_uint8 \<and> length bs = n)"
| "holds (C_array t n) (CNum i) = False"
| "holds C_int (CNum i) = (- (2 ^ 31) \<le> i \<and> i < 2 ^ 31)"
| "holds t (CNum i) = (0 \<le> i \<and> i < 256 ^ size_of t)"
| "holds t (CBytes bs) = False"

definition read_at :: "nat \<Rightarrow> nat \<Rightarrow> bytes \<Rightarrow> bytes" where
  "read_at off n m = take n (drop off m)"

definition write_at :: "nat \<Rightarrow> bytes \<Rightarrow> bytes \<Rightarrow> bytes" where
  "write_at off bs m = take off m @ bs @ drop (off + length bs) m"

fun write_fields :: "(string \<times> nat \<times> ctype) list \<Rightarrow> (string \<Rightarrow> cval) \<Rightarrow> bytes \<Rightarrow> bytes" where
  "write_fields [] vals m = m"
| "write_fields ((f, off, t) # ls) vals m = write_fields ls vals (write_at off (encode_val t (vals f)) m)"

definition read_field :: "struct_decl \<Rightarrow> bytes \<Rightarrow> string \<Rightarrow> cval res" where
  "read_field d m f =
     (case map_of (struct_layout d) f of
        None \<Rightarrow> Inl AttributeError
      | Some (off, t) \<Rightarrow> Inr (decode_val t (read_at off (size_of t) m)))"

definition write_field :: "struct_decl \<Rightarrow> string \<Rightarrow> cval \<Rightarrow> bytes \<Rightarrow> bytes res" where
  "write_field d f v m =
     (case map_of (struct_layout d) f of
        None \<Rightarrow> Inl AttributeError
      | Some (off, t) \<Rightarrow> Inr (write_at off (encode_val t v) m))"

definition read_num :: "struct_decl \<Rightarrow> bytes \<Rightarrow> string \<Rightarrow> int res" where
  "read_num d m f = res_bind (read_field d m f) (\<lambda>v. case v of CNum i \<Rightarrow> Inr i | CBytes _ \<Rightarrow> Inl TypeError)"

definition read_bytes :: "struct_decl \<Rightarrow> bytes \<Rightarrow> string \<Rightarrow> bytes res" where
  "read_bytes d m f = res_bind (read_field d m f) (\<lambda>v. case v of CBytes bs \<Rightarrow> Inr bs | CNum _ \<Rightarrow> Inl TypeError)"

text \<open>All fields of an object, over whatever the memory held.\<close>

definition write_struct :: "struct_decl \<Rightarrow> (string \<times> cval) list \<Rightarrow> bytes \<Rightarrow> bytes" where
  "write_struct d vals m = write_fields (struct_layout d) (\<lambda>f. the (map_of vals f)) m"

subsection \<open>Reading what was written\<close>

lemma align_up_ge: "0 < a \<Longrightarrow> off \<le> align_up a off"
proof -
  assume a: "0 < a"
  have "(off + a - 1) = (off + a - 1) div a * a + (off + a - 1) mod a" by simp
  moreover have "(off + a - 1) mod a < a" using a by simp
  ultimately show ?thesis unfolding align_up_def using a by linarith
qed

lemma align_of_pos: "0 < align_of t"
  by (induction t) auto

lemma field_align_pos: "pack \<noteq> Some 0 \<Longrightarrow> 0 < field_align pack t"
  using align_of_pos [of t] by (auto simp: field_align_def split: option.splits)

lemma end_from_ge: "pack \<noteq> Some 0 \<Longrightarrow> off \<le> end_from pack off fs"
proof (induction fs arbitrary: off)
  case (Cons ft fs)
  obtain f t where ft: "ft = (f, t)" by force
  have "off \<le> align_up (field_align pack t) off" using Cons.prems field_align_pos align_up_ge by blast
  also have "\<dots> \<le> end_from pack (align_up (field_align pack t) off + size_of t) fs"
    using Cons.IH [OF Cons.prems, of "align_up (field_align pack t) off + size_of t"] by simp
  finally show ?case by (simp add: ft)
qed simp

lemma layout_from_bounds:
  "pack \<noteq> Some 0 \<Longrightarrow> (f, pos, t) \<in> set (layout_from pack off fs) \<Longrightarrow> off \<le> pos \<and> pos + size_of t \<le> end_from pack off fs"
proof (induction fs arbitrary: off)
  case (Cons ft fs)
  obtain g u where ft: "ft = (g, u)" by force
  let ?pos = "align_up (field_align pack u) off"
  have pos: "off \<le> ?pos" using Cons.prems(1) field_align_pos align_up_ge by blast
  from Cons.prems(2) consider "pos = ?pos" "t = u" | "(f, pos, t) \<in> set (layout_from pack (?pos + size_of u) fs)"
    by (auto simp: ft Let_def)
  then show ?case
  proof cases
    case 1
    then show ?thesis using pos end_from_ge [OF Cons.prems(1), of "?pos + size_of u" fs] by (simp add: ft)
  next
    case 2
    then show ?thesis using Cons.IH [OF Cons.prems(1) 2] pos by (simp add: ft)
  qed
qed simp

lemma layout_from_field: "(f, pos, t) \<in> set (layout_from pack off fs) \<Longrightarrow> (f, t) \<in> set fs"
  by (induction pack off fs rule: layout_from.induct) (auto simp: Let_def)

lemma length_write_at [simp]: "off + length bs \<le> length m \<Longrightarrow> length (write_at off bs m) = length m"
  by (simp add: write_at_def)

lemma read_written: "off + length bs \<le> length m \<Longrightarrow> n = length bs \<Longrightarrow> read_at off n (write_at off bs m) = bs"
  by (simp add: read_at_def write_at_def)

lemma read_other:
  assumes "off + length bs \<le> length m" and "o' + n \<le> off \<or> off + length bs \<le> o'"
  shows "read_at o' n (write_at off bs m) = read_at o' n m"
proof (cases "o' + n \<le> off")
  case True
  then have "take n (drop o' (take off m)) = take n (drop o' m)" by (simp add: drop_take min_def)
  with True assms(1) show ?thesis by (simp add: read_at_def write_at_def)
next
  case False
  with assms have "drop o' (take off m @ bs @ drop (off + length bs) m) = drop o' m" by simp
  then show ?thesis by (simp only: read_at_def write_at_def)
qed

lemma byte_of_int_cong: "a mod 256 = b mod 256 \<Longrightarrow> (word_of_int a :: u8) = word_of_int b"
  by (simp add: word_of_int_eq_iff take_bit_eq_mod)

lemma word_of_int_mod: "(word_of_int (v mod 256 ^ Suc n) :: u8) = word_of_int v"
  by (intro byte_of_int_cong mod_mod_cancel) simp

lemma be_bytes_mod: "be_bytes n (v mod 256 ^ n) = be_bytes n v"
proof (induction n arbitrary: v)
  case (Suc n)
  have "(v mod (256 * 256 ^ n)) div 256 = (v div 256) mod 256 ^ n" by (simp add: zmod_zmult2_eq)
  then show ?case using Suc.IH [of "v div 256"] word_of_int_mod [of v n] by (simp only: be_bytes.simps power_Suc)
qed simp

lemma be_int_be_bytes_mod: "be_int (be_bytes n v) = v mod 256 ^ n"
  using be_int_be_bytes [of "v mod 256 ^ n" n] by (simp add: be_bytes_mod)

lemma length_encode: "holds t v \<Longrightarrow> length (encode_val t v) = size_of t"
  by (induction t v rule: holds.induct) simp_all

lemma signed_mod:
  assumes "- 2147483648 \<le> i" and "i < 2147483648"
  shows "(i :: int) mod 4294967296 = (if 0 \<le> i then i else i + 4294967296)"
proof (cases "0 \<le> i")
  case False
  then have "(i + 4294967296) mod 4294967296 = i + 4294967296" using assms by (intro mod_pos_pos_trivial) simp_all
  with False show ?thesis by (simp only: mod_add_self2 if_False)
qed (use assms in simp)

lemma be_int_one: "be_int [b] = uint b"
  by (simp add: be_int_def)

lemma decode_encode: "holds t v \<Longrightarrow> decode_val t (encode_val t v) = v"
  by (induction t v rule: holds.induct)
    (auto simp: be_int_be_bytes be_int_be_bytes_mod be_int_one unsigned_of_int take_bit_eq_mod signed_mod Let_def)

lemma read_before_fields:
  assumes "\<forall>(f, pos, t) \<in> set ls. o' + n \<le> pos \<and> pos + size_of t \<le> length m \<and> holds t (vals f)"
  shows "length (write_fields ls vals m) = length m \<and> read_at o' n (write_fields ls vals m) = read_at o' n m"
  using assms
proof (induction ls arbitrary: m)
  case (Cons l ls)
  obtain f pos t where l: "l = (f, pos, t)" by (cases l)
  have here: "o' + n \<le> pos" "pos + length (encode_val t (vals f)) \<le> length m"
    using Cons.prems by (auto simp: l length_encode)
  show ?case using Cons.IH [of "write_at pos (encode_val t (vals f)) m"] Cons.prems here by (simp add: l read_other)
qed simp

text \<open>Fields do not overlap: what is read of an object is what was written into it.\<close>

lemma read_layout:
  assumes "pack \<noteq> Some 0" and "end_from pack off fs \<le> length m" and "\<forall>(f, t) \<in> set fs. holds t (vals f)"
    and "(f, pos, t) \<in> set (layout_from pack off fs)"
  shows "read_at pos (size_of t) (write_fields (layout_from pack off fs) vals m) = encode_val t (vals f)"
  using assms(2-)
proof (induction fs arbitrary: off m)
  case (Cons ft fs)
  obtain g u where ft: "ft = (g, u)" by force
  define o1 where "o1 = align_up (field_align pack u) off"
  let ?m = "write_at o1 (encode_val u (vals g)) m" and ?ls = "layout_from pack (o1 + size_of u) fs"
  have u: "length (encode_val u (vals g)) = size_of u" using Cons.prems(2) by (auto simp: ft length_encode)
  have rest: "end_from pack (o1 + size_of u) fs \<le> length m" using Cons.prems(1) by (simp only: ft end_from.simps o1_def)
  have room: "o1 + size_of u \<le> length m" using order_trans [OF end_from_ge [OF assms(1)] rest] .
  have all: "\<forall>(f, pos, t) \<in> set ?ls. o1 + size_of u \<le> pos \<and> pos + size_of t \<le> length ?m \<and> holds t (vals f)"
  proof safe
    fix f pos t assume i: "(f, pos, t) \<in> set ?ls"
    then have "(f, t) \<in> set fs" by (rule layout_from_field)
    then show "holds t (vals f)" using Cons.prems(2) by (auto simp: ft)
    show "o1 + size_of u \<le> pos" "pos + size_of t \<le> length ?m"
      using layout_from_bounds [OF assms(1) i] rest room by (simp_all add: u)
  qed
  from Cons.prems(3) consider "f = g" "pos = o1" "t = u" | "(f, pos, t) \<in> set ?ls"
    by (auto simp: ft Let_def o1_def)
  then show ?case
  proof cases
    case 1
    then show ?thesis using read_before_fields [OF all] room by (simp add: ft Let_def read_written u flip: o1_def)
  next
    case 2
    then show ?thesis using Cons.IH [OF _ _ 2, of ?m] Cons.prems(2) rest room by (simp add: ft Let_def u flip: o1_def)
  qed
qed simp

end
