(* ===== verification/Foreign_Structs.thy ===== *)
theory Foreign_Structs
  imports Foreign_Layout
begin

text \<open>
  The structs and functions that C and Python share, as each side declares them: the C headers under
  \<open>implementation/include\<close> and \<open>vendor\<close>, and the ctypes classes and signatures of \<open>network/daim_distributed_node.py\<close> and
  \<open>network/daim_core_bridge.py\<close>. The two agree: what one side writes the other reads back, and every signature
  is that of the C prototype.
\<close>

subsection \<open>The C headers\<close>

definition struct_daim_host_location :: struct_decl where
  "struct_daim_host_location =
     \<lparr>sd_pack = None,
      sd_fields =
       [(''mac'', C_array C_uint8 MAC_ADDR_LEN), (''origin_node_id'', C_uint64), (''owner_dpid'', C_uint64),
        (''owner_port'', C_uint32), (''owner_epoch'', C_uint64), (''sequence'', C_uint64),
        (''is_local'', C_uint8), (''learned_at_ns'', C_uint64), (''applied_at_ns'', C_uint64)]\<rparr>"

definition struct_no_rule_packet_info :: struct_decl where
  "struct_no_rule_packet_info =
     \<lparr>sd_pack = Some 1,
      sd_fields =
       [(''in_port'', C_uint16), (''mac_src'', C_array C_uint8 MAC_ADDR_LEN),
        (''mac_dst'', C_array C_uint8 MAC_ADDR_LEN), (''ethernet_type'', C_uint16),
        (''ip_source'', C_uint32), (''ip_destination'', C_uint32), (''ip_netmask_source'', C_uint8),
        (''ip_netmask_destination'', C_uint8), (''ip_port_source'', C_uint16),
        (''tp_port_destination'', C_uint16), (''ip_proto'', C_uint8), (''vlan_id'', C_uint16),
        (''vlan_pcp'', C_uint8), (''ip_tos'', C_uint8)]\<rparr>"

definition struct_daim_persistent_adapter_stats :: struct_decl where
  "struct_daim_persistent_adapter_stats =
     \<lparr>sd_pack = None,
      sd_fields =
       [(''flow_mods_sent'', C_uint64), (''bytes_sent'', C_uint64), (''echo_replies_sent'', C_uint64)]\<rparr>"

definition struct_daim_learning_app_timing :: struct_decl where
  "struct_daim_learning_app_timing =
     \<lparr>sd_pack = None,
      sd_fields =
       [(''entry_ns'', C_uint64), (''decision_done_ns'', C_uint64), (''table_write_done_ns'', C_uint64),
        (''install_done_ns'', C_uint64), (''exit_ns'', C_uint64), (''installed'', C_int)]\<rparr>"

definition struct_daim_switch_adapter_ops :: struct_decl where
  "struct_daim_switch_adapter_ops =
     \<lparr>sd_pack = None,
      sd_fields =
       [(''port_read'', C_pointer ''port_read''), (''port_write'', C_pointer ''port_write''),
        (''switch_ioctl'', C_pointer ''switch_ioctl''), (''flow_add'', C_pointer ''flow_add''),
        (''flow_delete'', C_pointer ''flow_delete''), (''destroy'', C_pointer ''destroy'')]\<rparr>"

definition struct_daim_switch_adapter :: struct_decl where
  "struct_daim_switch_adapter =
     \<lparr>sd_pack = None,
      sd_fields =
       [(''ops'', C_pointer ''struct daim_switch_adapter_ops''), (''context'', C_pointer ''void'')]\<rparr>"

definition struct_daim_peer_transport_callbacks :: struct_decl where
  "struct_daim_peer_transport_callbacks =
     \<lparr>sd_pack = None,
      sd_fields =
       [(''on_apply'', C_pointer ''daim_peer_apply_event_fn''),
        (''on_lifecycle'', C_pointer ''daim_peer_lifecycle_event_fn''), (''context'', C_pointer ''void'')]\<rparr>"

text \<open>The prototypes of the functions that Python calls, header by header: result and arguments.\<close>

definition core_prototypes :: "(string \<times> ctype \<times> ctype list) list" where
  "core_prototypes =
     [(''daim_init'', C_uint16, [])]"

definition state_prototypes :: "(string \<times> ctype \<times> ctype list) list" where
  "state_prototypes =
     [(''daim_host_state_init'', C_int, [C_uint64, C_uint64])]"

definition transport_prototypes :: "(string \<times> ctype \<times> ctype list) list" where
  "transport_prototypes =
     [(''daim_peer_transport_create'', C_pointer ''struct daim_peer_transport'',
        [C_uint64, C_uint64, C_int, C_pointer ''struct daim_peer_transport_callbacks'']),
      (''daim_peer_transport_add_peer'', C_int,
        [C_pointer ''struct daim_peer_transport'', C_pointer ''char'', C_int]),
      (''daim_peer_transport_destroy'', C_void, [C_pointer ''struct daim_peer_transport''])]"

definition ovs_prototypes :: "(string \<times> ctype \<times> ctype list) list" where
  "ovs_prototypes =
     [(''daim_ovs_adapter_create'', C_int,
        [C_pointer ''struct daim_switch_adapter'', C_pointer ''daim_ovs_executor'', C_pointer ''void''])]"

definition distributed_app_prototypes :: "(string \<times> ctype \<times> ctype list) list" where
  "distributed_app_prototypes =
     [(''daim_distributed_learning_app_init'', C_int,
        [C_pointer ''struct daim_switch_adapter'', C_uint64, C_uint64, C_uint16, C_pointer ''uint64_t'',
         C_size_t, C_uint16, C_uint16, C_pointer ''struct daim_peer_transport'']),
      (''daim_distributed_learning_app_packet_in'', C_uint16,
        [C_pointer ''char'', C_pointer ''struct no_rule_packet_info''])]"

definition learning_app_prototypes :: "(string \<times> ctype \<times> ctype list) list" where
  "learning_app_prototypes =
     [(''daim_learning_app_init'', C_int, [C_pointer ''struct daim_switch_adapter'']),
      (''daim_learning_app_packet_in'', C_uint16, [C_pointer ''char'', C_pointer ''struct no_rule_packet_info'']),
      (''daim_learning_app_stats'', C_void, [C_pointer ''uint64_t'', C_pointer ''uint64_t'', C_pointer ''size_t'']),
      (''daim_learning_app_last_timing'', C_void, [C_pointer ''struct daim_learning_app_timing''])]"

definition persistent_prototypes :: "(string \<times> ctype \<times> ctype list) list" where
  "persistent_prototypes =
     [(''daim_ovs_persistent_adapter_create'', C_int, [C_pointer ''struct daim_switch_adapter'', C_int, C_int]),
      (''daim_ovs_persistent_adapter_get_stats'', C_int,
        [C_pointer ''struct daim_switch_adapter'', C_pointer ''struct daim_persistent_adapter_stats'']),
      (''daim_ovs_wire_flow_mod_size'', C_size_t, [C_pointer ''char'', C_int])]"

definition c_prototypes :: "(string \<times> ctype \<times> ctype list) list" where
  "c_prototypes =
     core_prototypes @ state_prototypes @ transport_prototypes @ ovs_prototypes @ distributed_app_prototypes @
     learning_app_prototypes @ persistent_prototypes"

text \<open>The types of the callbacks.\<close>

definition ovs_callbacks :: "(string \<times> ctype \<times> ctype list) list" where
  "ovs_callbacks =
     [(''daim_ovs_executor'', C_int, [C_pointer ''void'', C_pointer ''char *''])]"

definition transport_callbacks :: "(string \<times> ctype \<times> ctype list) list" where
  "transport_callbacks =
     [(''daim_peer_apply_event_fn'', C_void,
        [C_pointer ''void'', C_uint64, C_pointer ''struct daim_host_location'', C_int]),
      (''daim_peer_lifecycle_event_fn'', C_void, [C_pointer ''void'', C_pointer ''char'', C_uint64, C_uint64])]"

definition c_callbacks :: "(string \<times> ctype \<times> ctype list) list" where
  "c_callbacks = ovs_callbacks @ transport_callbacks"

subsection \<open>The ctypes declarations\<close>

definition HostLocation :: struct_decl where
  "HostLocation =
     \<lparr>sd_pack = None,
      sd_fields =
       [(''mac'', C_array C_uint8 PY_MAC_ADDR_LEN), (''origin_node_id'', C_uint64),
        (''owner_dpid'', C_uint64), (''owner_port'', C_uint32), (''owner_epoch'', C_uint64),
        (''sequence'', C_uint64), (''is_local'', C_uint8), (''learned_at_ns'', C_uint64),
        (''applied_at_ns'', C_uint64)]\<rparr>"

definition NodeNoRulePacketInfo :: struct_decl where
  "NodeNoRulePacketInfo =
     \<lparr>sd_pack = Some 1,
      sd_fields =
       [(''in_port'', C_uint16), (''mac_src'', C_array C_uint8 PY_MAC_ADDR_LEN),
        (''mac_dst'', C_array C_uint8 PY_MAC_ADDR_LEN), (''ethernet_type'', C_uint16),
        (''ip_source'', C_uint32), (''ip_destination'', C_uint32), (''ip_netmask_source'', C_uint8),
        (''ip_netmask_destination'', C_uint8), (''ip_port_source'', C_uint16),
        (''tp_port_destination'', C_uint16), (''ip_proto'', C_uint8), (''vlan_id'', C_uint16),
        (''vlan_pcp'', C_uint8), (''ip_tos'', C_uint8)]\<rparr>"

definition NodeSwitchAdapterOps :: struct_decl where
  "NodeSwitchAdapterOps =
     \<lparr>sd_pack = None,
      sd_fields =
       [(''port_read'', C_pointer ''void''), (''port_write'', C_pointer ''void''),
        (''switch_ioctl'', C_pointer ''void''), (''flow_add'', C_pointer ''void''),
        (''flow_delete'', C_pointer ''void''), (''destroy'', C_pointer ''void'')]\<rparr>"

definition NodeSwitchAdapter :: struct_decl where
  "NodeSwitchAdapter =
     \<lparr>sd_pack = None,
      sd_fields =
       [(''ops'', C_pointer ''SwitchAdapterOps''), (''context'', C_pointer ''void'')]\<rparr>"

definition TransportCallbacks :: struct_decl where
  "TransportCallbacks =
     \<lparr>sd_pack = None,
      sd_fields =
       [(''on_apply'', C_pointer ''APPLY_EVENT_CFUNC''),
        (''on_lifecycle'', C_pointer ''LIFECYCLE_EVENT_CFUNC''), (''context'', C_pointer ''void'')]\<rparr>"

text \<open>\<open>APPLY_EVENT_CFUNC\<close>, \<open>LIFECYCLE_EVENT_CFUNC\<close> and \<open>EXECUTOR_CFUNC\<close>; a result of \<open>None\<close> is \<open>void\<close>.\<close>

definition node_cfuncs :: "(string \<times> ctype \<times> ctype list) list" where
  "node_cfuncs =
     [(''EXECUTOR_CFUNC'', C_int, [C_pointer ''void'', C_pointer ''c_char_p'']),
      (''APPLY_EVENT_CFUNC'', C_void, [C_pointer ''void'', C_uint64, C_pointer ''HostLocation'', C_int]),
      (''LIFECYCLE_EVENT_CFUNC'', C_void, [C_pointer ''void'', C_pointer ''char'', C_uint64, C_uint64])]"

text \<open>Without a declared result ctypes takes \<open>c_int\<close>; without declared arguments it checks nothing.\<close>

definition node_signatures :: "(string \<times> ctype \<times> ctype list option) list" where
  "node_signatures =
     [(''daim_init'', C_uint16, None),
      (''daim_host_state_init'', C_int, Some [C_uint64, C_uint64]),
      (''daim_peer_transport_create'', C_pointer ''void'',
        Some [C_uint64, C_uint64, C_int, C_pointer ''TransportCallbacks'']),
      (''daim_peer_transport_add_peer'', C_int, Some [C_pointer ''void'', C_pointer ''char'', C_int]),
      (''daim_peer_transport_destroy'', C_int, Some [C_pointer ''void'']),
      (''daim_ovs_adapter_create'', C_int,
        Some [C_pointer ''SwitchAdapter'', C_pointer ''EXECUTOR_CFUNC'', C_pointer ''void'']),
      (''daim_distributed_learning_app_init'', C_int,
        Some [C_pointer ''SwitchAdapter'', C_uint64, C_uint64, C_uint16, C_pointer ''uint64_t'', C_size_t, C_uint16,
         C_uint16, C_pointer ''void'']),
      (''daim_distributed_learning_app_packet_in'', C_uint16,
        Some [C_pointer ''char'', C_pointer ''NoRulePacketInfo''])]"

definition NoRulePacketInfo :: struct_decl where
  "NoRulePacketInfo =
     \<lparr>sd_pack = Some 1,
      sd_fields =
       [(''in_port'', C_uint16), (''mac_src'', C_array C_uint8 PY_MAC_ADDR_LEN),
        (''mac_dst'', C_array C_uint8 PY_MAC_ADDR_LEN), (''ethernet_type'', C_uint16),
        (''ip_source'', C_uint32), (''ip_destination'', C_uint32), (''ip_netmask_source'', C_uint8),
        (''ip_netmask_destination'', C_uint8), (''ip_port_source'', C_uint16),
        (''tp_port_destination'', C_uint16), (''ip_proto'', C_uint8), (''vlan_id'', C_uint16),
        (''vlan_pcp'', C_uint8), (''ip_tos'', C_uint8)]\<rparr>"

definition PersistentAdapterStats :: struct_decl where
  "PersistentAdapterStats =
     \<lparr>sd_pack = None,
      sd_fields =
       [(''flow_mods_sent'', C_uint64), (''bytes_sent'', C_uint64), (''echo_replies_sent'', C_uint64)]\<rparr>"

definition LearningAppTiming :: struct_decl where
  "LearningAppTiming =
     \<lparr>sd_pack = None,
      sd_fields =
       [(''entry_ns'', C_uint64), (''decision_done_ns'', C_uint64), (''table_write_done_ns'', C_uint64),
        (''install_done_ns'', C_uint64), (''exit_ns'', C_uint64), (''installed'', C_int)]\<rparr>"

definition SwitchAdapterOps :: struct_decl where
  "SwitchAdapterOps =
     \<lparr>sd_pack = None,
      sd_fields =
       [(''port_read'', C_pointer ''void''), (''port_write'', C_pointer ''void''),
        (''switch_ioctl'', C_pointer ''void''), (''flow_add'', C_pointer ''void''),
        (''flow_delete'', C_pointer ''void''), (''destroy'', C_pointer ''void'')]\<rparr>"

definition SwitchAdapter :: struct_decl where
  "SwitchAdapter =
     \<lparr>sd_pack = None,
      sd_fields =
       [(''ops'', C_pointer ''SwitchAdapterOps''), (''context'', C_pointer ''void'')]\<rparr>"

definition bridge_cfuncs :: "(string \<times> ctype \<times> ctype list) list" where
  "bridge_cfuncs =
     [(''EXECUTOR_CFUNC'', C_int, [C_pointer ''void'', C_pointer ''c_char_p''])]"

definition bridge_signatures :: "(string \<times> ctype \<times> ctype list option) list" where
  "bridge_signatures =
     [(''daim_init'', C_uint16, None),
      (''daim_ovs_adapter_create'', C_int,
        Some [C_pointer ''SwitchAdapter'', C_pointer ''EXECUTOR_CFUNC'', C_pointer ''void'']),
      (''daim_ovs_persistent_adapter_create'', C_int, Some [C_pointer ''SwitchAdapter'', C_int, C_int]),
      (''daim_learning_app_init'', C_int, Some [C_pointer ''SwitchAdapter'']),
      (''daim_learning_app_packet_in'', C_uint16, Some [C_pointer ''char'', C_pointer ''NoRulePacketInfo'']),
      (''daim_learning_app_stats'', C_int,
        Some [C_pointer ''uint64_t'', C_pointer ''uint64_t'', C_pointer ''size_t'']),
      (''daim_learning_app_last_timing'', C_int, Some [C_pointer ''LearningAppTiming'']),
      (''daim_ovs_persistent_adapter_get_stats'', C_int,
        Some [C_pointer ''SwitchAdapter'', C_pointer ''PersistentAdapterStats'']),
      (''daim_ovs_wire_flow_mod_size'', C_size_t, Some [C_pointer ''char'', C_int])]"

subsection \<open>Agreement of declarations\<close>

text \<open>Which Python class stands for which C type behind a pointer.\<close>

definition mirrored :: "(string \<times> string) list" where
  "mirrored =
     [(''SwitchAdapter'', ''struct daim_switch_adapter''), (''SwitchAdapterOps'', ''struct daim_switch_adapter_ops''),
      (''TransportCallbacks'', ''struct daim_peer_transport_callbacks''), (''HostLocation'', ''struct daim_host_location''),
      (''NoRulePacketInfo'', ''struct no_rule_packet_info''), (''LearningAppTiming'', ''struct daim_learning_app_timing''),
      (''PersistentAdapterStats'', ''struct daim_persistent_adapter_stats''), (''EXECUTOR_CFUNC'', ''daim_ovs_executor''),
      (''APPLY_EVENT_CFUNC'', ''daim_peer_apply_event_fn''), (''LIFECYCLE_EVENT_CFUNC'', ''daim_peer_lifecycle_event_fn''),
      (''c_char_p'', ''char *'')]"

fun same_type :: "ctype \<Rightarrow> ctype \<Rightarrow> bool" where
  "same_type (C_pointer p) (C_pointer q) = (p = q \<or> p = ''void'' \<or> map_of mirrored p = Some q)"
| "same_type t u = (t = u)"

definition same_struct :: "struct_decl \<Rightarrow> struct_decl \<Rightarrow> bool" where
  "same_struct py c =
     (struct_size py = struct_size c \<and>
      list_all2 (\<lambda>(f, pos, t) (g, pos', u). f = g \<and> pos = pos' \<and> same_type t u) (struct_layout py) (struct_layout c))"

text \<open>A result that C does not return is not used by Python.\<close>

definition signature_ok :: "string \<times> ctype \<times> ctype list option \<Rightarrow> bool" where
  "signature_ok s =
     (case s of (f, r, args) \<Rightarrow>
        case map_of c_prototypes f of
          None \<Rightarrow> False
        | Some (r', args') \<Rightarrow>
            (r' = C_void \<or> same_type r r') \<and>
            (case args of None \<Rightarrow> args' = [] | Some ts \<Rightarrow> list_all2 same_type ts args'))"

definition callback_ok :: "string \<times> ctype \<times> ctype list \<Rightarrow> bool" where
  "callback_ok s =
     (case s of (f, r, args) \<Rightarrow>
        case map_of mirrored f of
          None \<Rightarrow> False
        | Some g \<Rightarrow> (case map_of c_callbacks g of None \<Rightarrow> False | Some (r', args') \<Rightarrow> r = r' \<and> list_all2 same_type args args'))"

subsection \<open>Objects\<close>

definition location_values :: "daim_host_location \<Rightarrow> (string \<times> cval) list" where
  "location_values l =
     [(''mac'', CBytes (mac l)), (''origin_node_id'', CNum (uint (origin_node_id l))), (''owner_dpid'', CNum (uint (owner_dpid l))),
      (''owner_port'', CNum (uint (owner_port l))), (''owner_epoch'', CNum (uint (owner_epoch l))), (''sequence'', CNum (uint (sequence l))),
      (''is_local'', CNum (uint (is_local l))), (''learned_at_ns'', CNum (uint (learned_at_ns l))),
      (''applied_at_ns'', CNum (uint (applied_at_ns l)))]"

definition stats_values :: "persistent_stats \<Rightarrow> (string \<times> cval) list" where
  "stats_values st =
     [(''flow_mods_sent'', CNum (uint (flow_mods_sent st))), (''bytes_sent'', CNum (uint (pa_bytes_sent st))),
      (''echo_replies_sent'', CNum (uint (echo_replies_sent st)))]"

definition timing_values :: "learning_app_timing \<Rightarrow> (string \<times> cval) list" where
  "timing_values t =
     [(''entry_ns'', CNum (uint (entry_ns t))), (''decision_done_ns'', CNum (uint (decision_done_ns t))),
      (''table_write_done_ns'', CNum (uint (table_write_done_ns t))), (''install_done_ns'', CNum (uint (install_done_ns t))),
      (''exit_ns'', CNum (uint (exit_ns t))), (''installed'', CNum (lt_installed t))]"

text \<open>\<open>HostLocation.to_dict\<close>, and what \<open>persistent_stats\<close> and \<open>last_timing\<close> read, on the bytes of the object.\<close>

definition to_dict :: "bytes \<Rightarrow> dict res" where
  "to_dict m =
     res_bind (read_bytes HostLocation m ''mac'') (\<lambda>a.
     res_bind (read_num HostLocation m ''origin_node_id'') (\<lambda>origin.
     res_bind (read_num HostLocation m ''owner_dpid'') (\<lambda>dpid.
     res_bind (read_num HostLocation m ''owner_port'') (\<lambda>port.
     res_bind (read_num HostLocation m ''owner_epoch'') (\<lambda>epoch.
     res_bind (read_num HostLocation m ''sequence'') (\<lambda>sq.
     res_bind (read_num HostLocation m ''is_local'') (\<lambda>loc.
     res_bind (read_num HostLocation m ''learned_at_ns'') (\<lambda>learned.
     res_bind (read_num HostLocation m ''applied_at_ns'') (\<lambda>applied.
       Inr [(''mac'', JStr (mac_bytes_to_str a)), (''origin_node_id'', JInt origin), (''owner_dpid'', JInt dpid),
            (''owner_port'', JInt port), (''owner_epoch'', JInt epoch), (''sequence'', JInt sq), (''is_local'', JBool (loc \<noteq> 0)),
            (''learned_at_ns'', JInt learned), (''applied_at_ns'', JInt applied)])))))))))"

definition stats_of_memory :: "bytes \<Rightarrow> dict res" where
  "stats_of_memory m =
     res_bind (read_num PersistentAdapterStats m ''flow_mods_sent'') (\<lambda>mods.
     res_bind (read_num PersistentAdapterStats m ''bytes_sent'') (\<lambda>sent.
     res_bind (read_num PersistentAdapterStats m ''echo_replies_sent'') (\<lambda>echos.
       Inr [(''flow_mods_sent'', JInt mods), (''bytes_sent'', JInt sent), (''echo_replies_sent'', JInt echos)])))"

definition timing_of_memory :: "bytes \<Rightarrow> dict res" where
  "timing_of_memory m =
     res_bind (read_num LearningAppTiming m ''entry_ns'') (\<lambda>entry.
     res_bind (read_num LearningAppTiming m ''decision_done_ns'') (\<lambda>decision.
     res_bind (read_num LearningAppTiming m ''table_write_done_ns'') (\<lambda>table.
     res_bind (read_num LearningAppTiming m ''install_done_ns'') (\<lambda>install.
     res_bind (read_num LearningAppTiming m ''exit_ns'') (\<lambda>exit.
     res_bind (read_num LearningAppTiming m ''installed'') (\<lambda>installed.
       Inr [(''entry_ns'', JInt entry), (''decision_done_ns'', JInt decision), (''table_write_done_ns'', JInt table),
            (''install_done_ns'', JInt install), (''exit_ns'', JInt exit), (''installed'', JBool (installed \<noteq> 0))]))))))"

text \<open>\<open>packet_in\<close> fills a fresh object, whose bytes are zero, field by field; both bindings do it alike.\<close>

definition packet_object :: "struct_decl \<Rightarrow> int \<Rightarrow> bytes \<Rightarrow> bytes \<Rightarrow> int \<Rightarrow> bytes res" where
  "packet_object d in_port src dst ethertype =
     res_bind (write_field d ''in_port'' (CNum in_port) (replicate (struct_size d) 0)) (\<lambda>m1.
     res_bind (write_field d ''mac_src'' (CBytes src) m1) (\<lambda>m2.
     res_bind (write_field d ''mac_dst'' (CBytes dst) m2) (\<lambda>m3.
       write_field d ''ethernet_type'' (CNum ethertype) m3)))"

text \<open>The struct as the C functions see it.\<close>

definition packet_info_of_memory :: "bytes \<Rightarrow> no_rule_packet_info res" where
  "packet_info_of_memory m =
     (let num = read_num struct_no_rule_packet_info m; arr = read_bytes struct_no_rule_packet_info m
      in res_bind (num ''in_port'') (\<lambda>in_port. res_bind (arr ''mac_src'') (\<lambda>src. res_bind (arr ''mac_dst'') (\<lambda>dst.
         res_bind (num ''ethernet_type'') (\<lambda>ethertype. res_bind (num ''ip_source'') (\<lambda>ip_src. res_bind (num ''ip_destination'') (\<lambda>ip_dst.
         res_bind (num ''ip_netmask_source'') (\<lambda>mask_src. res_bind (num ''ip_netmask_destination'') (\<lambda>mask_dst.
         res_bind (num ''ip_port_source'') (\<lambda>port_src. res_bind (num ''tp_port_destination'') (\<lambda>port_dst.
         res_bind (num ''ip_proto'') (\<lambda>proto. res_bind (num ''vlan_id'') (\<lambda>vlan. res_bind (num ''vlan_pcp'') (\<lambda>pcp.
         res_bind (num ''ip_tos'') (\<lambda>tos.
           Inr \<lparr>info_in_port = word_of_int in_port, info_mac_src = src, info_mac_dst = dst,
                info_ethernet_type = word_of_int ethertype, info_ip_source = word_of_int ip_src,
                info_ip_destination = word_of_int ip_dst, info_ip_netmask_source = word_of_int mask_src,
                info_ip_netmask_destination = word_of_int mask_dst, info_ip_port_source = word_of_int port_src,
                info_tp_port_destination = word_of_int port_dst, info_ip_proto = word_of_int proto,
                info_vlan_id = word_of_int vlan, info_vlan_pcp = word_of_int pcp, info_ip_tos = word_of_int tos\<rparr>)))))))))))))))"

subsection \<open>What is written is read back\<close>

lemma end_from_size: "sd_pack d \<noteq> Some 0 \<Longrightarrow> end_from (sd_pack d) 0 (sd_fields d) \<le> struct_size d"
proof -
  have "1 \<le> foldr (\<lambda>(f, t). max (field_align p t)) fs (1 :: nat)" for p and fs :: "(string \<times> ctype) list"
    by (induction fs) (auto simp: max_def)
  then show ?thesis unfolding struct_size_def by (intro align_up_ge) (simp add: Suc_le_eq)
qed

lemma map_of_layout:
  "distinct (map fst fs) \<Longrightarrow> (f, t) \<in> set fs \<Longrightarrow>
    \<exists>pos. map_of (layout_from pack off fs) f = Some (pos, t) \<and> (f, pos, t) \<in> set (layout_from pack off fs)"
proof (induction fs arbitrary: off)
  case (Cons gu fs)
  obtain g u where gu: "gu = (g, u)" by force
  show ?case
  proof (cases "f = g")
    case True
    then have "t = u" using Cons.prems by (force simp: gu)
    with True show ?thesis by (simp add: gu Let_def)
  next
    case False
    then have "(f, t) \<in> set fs" "distinct (map fst fs)" using Cons.prems by (auto simp: gu)
    from Cons.IH [OF this(2,1), of "align_up (field_align pack u) off + size_of u"] False show ?thesis
      by (auto simp: gu Let_def)
  qed
qed simp

lemma read_struct:
  assumes "struct_layout d' = struct_layout d" and "sd_pack d \<noteq> Some 0" and "struct_size d \<le> length m"
    and "distinct (map fst (sd_fields d))" and "\<forall>(f, t) \<in> set (sd_fields d). holds t (the (map_of vals f))"
    and "(f, t) \<in> set (sd_fields d)"
  shows "read_field d' (write_struct d vals m) f = Inr (the (map_of vals f))"
proof -
  obtain pos where pos: "map_of (struct_layout d) f = Some (pos, t)" "(f, pos, t) \<in> set (struct_layout d)"
    using map_of_layout [OF assms(4,6)] unfolding struct_layout_def by blast
  have "read_at pos (size_of t) (write_struct d vals m) = encode_val t (the (map_of vals f))"
    using read_layout [OF assms(2) order_trans [OF end_from_size [OF assms(2)] assms(3)] assms(5)] pos(2)
    unfolding write_struct_def struct_layout_def by blast
  moreover have "holds t (the (map_of vals f))" using assms(5,6) by blast
  ultimately show ?thesis by (simp add: read_field_def assms(1) pos(1) decode_encode)
qed

lemmas mac_lengths = PY_MAC_ADDR_LEN_def MAC_ADDR_LEN_def

lemma uint_ranges:
  "uint (b :: u8) < 256" "uint (h :: u16) < 65536" "uint (i :: u32) < 4294967296" "uint (q :: u64) < 18446744073709551616"
  using uint_lt2p [of b] uint_lt2p [of h] uint_lt2p [of i] uint_lt2p [of q] by simp_all

lemma location_read:
  assumes "length (mac l) = MAC_ADDR_LEN" and "struct_size struct_daim_host_location \<le> length m"
    and "f \<in> fst ` set (sd_fields struct_daim_host_location)"
  shows "read_field HostLocation (write_struct struct_daim_host_location (location_values l) m) f = Inr (the (map_of (location_values l) f))"
proof -
  from assms(3) obtain t where "(f, t) \<in> set (sd_fields struct_daim_host_location)" by auto
  then show ?thesis using assms(1,2)
    by (intro read_struct [where d = struct_daim_host_location])
      (auto simp: struct_daim_host_location_def HostLocation_def struct_layout_def location_values_def mac_lengths uint_ranges)
qed

lemma stats_read:
  assumes "struct_size struct_daim_persistent_adapter_stats \<le> length m" and "f \<in> fst ` set (sd_fields struct_daim_persistent_adapter_stats)"
  shows "read_field PersistentAdapterStats (write_struct struct_daim_persistent_adapter_stats (stats_values st) m) f =
    Inr (the (map_of (stats_values st) f))"
proof -
  from assms(2) obtain t where "(f, t) \<in> set (sd_fields struct_daim_persistent_adapter_stats)" by auto
  then show ?thesis using assms(1)
    by (intro read_struct [where d = struct_daim_persistent_adapter_stats])
      (auto simp: struct_daim_persistent_adapter_stats_def PersistentAdapterStats_def struct_layout_def stats_values_def uint_ranges)
qed

lemma timing_read:
  assumes "holds C_int (CNum (lt_installed t))" and "struct_size struct_daim_learning_app_timing \<le> length m"
    and "f \<in> fst ` set (sd_fields struct_daim_learning_app_timing)"
  shows "read_field LearningAppTiming (write_struct struct_daim_learning_app_timing (timing_values t) m) f =
    Inr (the (map_of (timing_values t) f))"
proof -
  from assms(3) obtain u where "(f, u) \<in> set (sd_fields struct_daim_learning_app_timing)" by auto
  then show ?thesis using assms(1,2)
    by (intro read_struct [where d = struct_daim_learning_app_timing])
      (auto simp: struct_daim_learning_app_timing_def LearningAppTiming_def struct_layout_def timing_values_def uint_ranges)
qed

lemma packet_layouts:
  "struct_layout NoRulePacketInfo = struct_layout struct_no_rule_packet_info"
  "struct_layout NodeNoRulePacketInfo = struct_layout struct_no_rule_packet_info"
  "struct_size NoRulePacketInfo = 35" "struct_size NodeNoRulePacketInfo = 35"
  by (simp_all add: struct_layout_def struct_size_def NoRulePacketInfo_def NodeNoRulePacketInfo_def struct_no_rule_packet_info_def
      mac_lengths field_align_def align_up_def)

lemma packet_layout:
  "struct_layout struct_no_rule_packet_info =
    [(''in_port'', 0, C_uint16), (''mac_src'', 2, C_array C_uint8 6), (''mac_dst'', 8, C_array C_uint8 6),
     (''ethernet_type'', 14, C_uint16), (''ip_source'', 16, C_uint32), (''ip_destination'', 20, C_uint32),
     (''ip_netmask_source'', 24, C_uint8), (''ip_netmask_destination'', 25, C_uint8), (''ip_port_source'', 26, C_uint16),
     (''tp_port_destination'', 28, C_uint16), (''ip_proto'', 30, C_uint8), (''vlan_id'', 31, C_uint16),
     (''vlan_pcp'', 33, C_uint8), (''ip_tos'', 34, C_uint8)]"
  by (simp add: struct_layout_def struct_no_rule_packet_info_def mac_lengths field_align_def align_up_def)

lemma read_zeros: "off + n \<le> k \<Longrightarrow> read_at off n (replicate k 0) = replicate n 0"
  by (simp add: read_at_def min_def)

lemma be_int_zeros: "be_int (replicate n 0) = 0"
  by (induction n) (simp_all add: replicate_append_same [symmetric] del: replicate_append_same)

lemma word_of_int_u16_mod: "(word_of_int (i mod 65536) :: u16) = word_of_int i"
  by (simp add: word_of_int_eq_iff take_bit_eq_mod)

lemma packet_read:
  assumes "length src = 6" and "length dst = 6" and "struct_layout d = struct_layout struct_no_rule_packet_info" and "struct_size d = 35"
  shows "res_bind (packet_object d in_port src dst ethertype) packet_info_of_memory = Inr (packet_info in_port src dst ethertype)"
  using assms(1,2)
  by (simp add: packet_object_def packet_info_of_memory_def packet_info_def write_field_def read_num_def read_bytes_def read_field_def
      assms(3,4) packet_layout read_other read_written read_zeros be_int_zeros be_int_one be_int_be_bytes_mod word_of_int_u16_mod res_bind_simps
      del: be_bytes.simps)

subsection \<open>The two sides agree\<close>

lemma structs_agree:
  "same_struct HostLocation struct_daim_host_location" "same_struct NodeNoRulePacketInfo struct_no_rule_packet_info"
  "same_struct NodeSwitchAdapterOps struct_daim_switch_adapter_ops" "same_struct NodeSwitchAdapter struct_daim_switch_adapter"
  "same_struct TransportCallbacks struct_daim_peer_transport_callbacks" "same_struct NoRulePacketInfo struct_no_rule_packet_info"
  "same_struct PersistentAdapterStats struct_daim_persistent_adapter_stats" "same_struct LearningAppTiming struct_daim_learning_app_timing"
  "same_struct SwitchAdapterOps struct_daim_switch_adapter_ops" "same_struct SwitchAdapter struct_daim_switch_adapter"
  by code_simp+

lemma signatures_agree:
  "list_all signature_ok node_signatures" "list_all signature_ok bridge_signatures"
  "list_all callback_ok node_cfuncs" "list_all callback_ok bridge_cfuncs"
  by code_simp+

lemma to_dict_read:
  "length (mac l) = MAC_ADDR_LEN \<Longrightarrow> struct_size struct_daim_host_location \<le> length m \<Longrightarrow>
    to_dict (write_struct struct_daim_host_location (location_values l) m) = Inr (location_dict l)"
  by (simp add: to_dict_def read_num_def read_bytes_def location_read res_bind_simps struct_daim_host_location_def [THEN arg_cong, of sd_fields]
      location_dict_def) (simp add: location_values_def res_bind_simps unsigned_eq_0_iff)

lemma stats_of_read:
  "struct_size struct_daim_persistent_adapter_stats \<le> length m \<Longrightarrow>
    stats_of_memory (write_struct struct_daim_persistent_adapter_stats (stats_values st) m) =
      Inr [(''flow_mods_sent'', JInt (uint (flow_mods_sent st))), (''bytes_sent'', JInt (uint (pa_bytes_sent st))),
        (''echo_replies_sent'', JInt (uint (echo_replies_sent st)))]"
  by (simp add: stats_of_memory_def read_num_def stats_read res_bind_simps struct_daim_persistent_adapter_stats_def [THEN arg_cong, of sd_fields])
    (simp add: stats_values_def res_bind_simps)

lemma timing_of_read:
  "holds C_int (CNum (lt_installed (daim_learning_app_last_timing s))) \<Longrightarrow> struct_size struct_daim_learning_app_timing \<le> length m \<Longrightarrow>
    timing_of_memory (write_struct struct_daim_learning_app_timing (timing_values (daim_learning_app_last_timing s)) m) = Inr (last_timing s)"
  by (simp add: timing_of_memory_def read_num_def timing_read res_bind_simps struct_daim_learning_app_timing_def [THEN arg_cong, of sd_fields]
      last_timing_def Let_def del: holds.simps) (simp add: timing_values_def res_bind_simps)

text \<open>
  Property C19. Python and C agree on the memory they share. Whatever the memory held before, the dictionaries that Python
  makes of a host location, of the counters and of the timings that C wrote are those of the values; C
  reads a packet description as Python meant it, from either binding; and every signature and callback type that Python
  declares is that of the C header.
\<close>

theorem foreign_interface_agrees:
  assumes "length (mac l) = MAC_ADDR_LEN" and "struct_size struct_daim_host_location \<le> length m1"
    and "adapter_get_stats E s = (0, st)" and "struct_size struct_daim_persistent_adapter_stats \<le> length m2"
    and "holds C_int (CNum (lt_installed (daim_learning_app_last_timing s)))" and "struct_size struct_daim_learning_app_timing \<le> length m3"
    and "uint8_array PY_MAC_ADDR_LEN mac_src = Inr src" and "uint8_array PY_MAC_ADDR_LEN mac_dst = Inr dst"
  shows "to_dict (write_struct struct_daim_host_location (location_values l) m1) = Inr (location_dict l) \<and>
    (stats_of_memory (write_struct struct_daim_persistent_adapter_stats (stats_values st) m2), s) = persistent_stats_dict E s \<and>
    timing_of_memory (write_struct struct_daim_learning_app_timing (timing_values (daim_learning_app_last_timing s)) m3) = Inr (last_timing s) \<and>
    res_bind (packet_object NodeNoRulePacketInfo in_port src dst ethertype) packet_info_of_memory = Inr (packet_info in_port src dst ethertype) \<and>
    res_bind (packet_object NoRulePacketInfo in_port src dst ethertype) packet_info_of_memory = Inr (packet_info in_port src dst ethertype) \<and>
    list_all signature_ok (node_signatures @ bridge_signatures) \<and> list_all callback_ok (node_cfuncs @ bridge_cfuncs)"
proof -
  have "length src = 6" "length dst = 6" using assms(7,8) by (auto simp: uint8_array_def PY_MAC_ADDR_LEN_def split: if_splits)
  moreover have "persistent_stats_dict E s = (stats_of_memory (write_struct struct_daim_persistent_adapter_stats (stats_values st) m2), s)"
    using assms(3) stats_of_read [OF assms(4), of st] by (simp add: persistent_stats_dict_def act_bind_def act_get_def act_return_def)
  ultimately show ?thesis
    using to_dict_read [OF assms(1,2)] timing_of_read [OF assms(5,6)] packet_layouts signatures_agree by (simp add: packet_read)
qed

definition shared_location :: daim_host_location where
  "shared_location =
     \<lparr>mac = [2, 0, 0, 0, 0, 1], origin_node_id = 1, owner_dpid = 0x100000001, owner_port = 7, owner_epoch = 2, sequence = 300,
      is_local = 1, learned_at_ns = 5, applied_at_ns = 6\<rparr>"

lemma struct_sizes:
  "struct_size struct_daim_host_location = 72" "struct_size struct_daim_persistent_adapter_stats = 24"
  "struct_size struct_daim_learning_app_timing = 48"
  by code_simp+

theorem foreign_interface_agrees_witness:
  "to_dict (write_struct struct_daim_host_location (location_values shared_location) (replicate 72 0xCD)) = Inr (location_dict shared_location) \<and>
    res_bind (packet_object NodeNoRulePacketInfo 3 [1, 2, 3, 4, 5, 6] [6, 5, 4, 3, 2, 1] 0x800) packet_info_of_memory =
      Inr (packet_info 3 [1, 2, 3, 4, 5, 6] [6, 5, 4, 3, 2, 1] 0x800)"
proof -
  let ?s = "upd_app (\<lambda>a. a\<lparr>sa_adapter := Persistent\<rparr>) single_process0"
  have stats: "adapter_get_stats E ?s = (0, pc_stats new_context)" for E
    by (simp add: adapter_get_stats_def upd_app_def single_process0_def)
  have timing: "holds C_int (CNum (lt_installed (daim_learning_app_last_timing ?s)))"
    by (simp add: daim_learning_app_last_timing_def upd_app_def single_process0_def single_app0_def zero_timing_def)
  have arrays: "uint8_array PY_MAC_ADDR_LEN [1, 2, 3, 4, 5, 6] = Inr [1, 2, 3, 4, 5, 6]"
    "uint8_array PY_MAC_ADDR_LEN [6, 5, 4, 3, 2, 1] = Inr [6, 5, 4, 3, 2, 1]"
    by (simp_all add: uint8_array_def PY_MAC_ADDR_LEN_def)
  show ?thesis
    using foreign_interface_agrees [OF _ _ stats _ timing _ arrays, where l = shared_location and ?m1.0 = "replicate 72 0xCD"
      and ?m2.0 = "replicate 24 0" and ?m3.0 = "replicate 48 0" and in_port = 3 and ethertype = "0x800"]
    by (simp add: struct_sizes shared_location_def MAC_ADDR_LEN_def)
qed

end
