(* ===== verification/Transport_Threads.thy ===== *)
theory Transport_Threads
  imports Peer_Transport
begin

text \<open>
  The threads of the peer transport (\<open>implementation/src/daim_peer_transport.c\<close>): the accepting thread, one per configured
  peer that dials it again and again, one per accepted connection, and the callers of \<open>disseminate\<close>, all on one table of connection
  slots. What is said on a single connection is in \<open>Peer_Transport\<close>; here it is a slot, a stage and a number of messages. A step of the
  relation is what a thread does under one lock or between two blocking calls, so the relation has every interleaving. A thread in
  \<open>recv\<close> stays there until a message has arrived, the peer has gone or the socket has been shut down: the steps of the
  peers are a relation of their own. \<open>connect\<close> and \<open>send\<close> always return. Which socket calls fail and what a descriptor is are left open.
\<close>

subsection \<open>State\<close>

definition MAX_CONNECTIONS :: nat where "MAX_CONNECTIONS = 32"
definition MAX_PEERS :: nat where "MAX_PEERS = 31"
definition STOP_POLL_MS :: int where "STOP_POLL_MS = 50"

record connection =
  cn_fd :: nat
  cn_active :: bool
  cn_ready :: bool
  cn_peer :: u64
  cn_inbox :: nat
  cn_gone :: bool
  cn_shut :: bool

text \<open>
  The last three are the socket's: the messages that have arrived and were not read, whether the peer is gone, and whether
  the socket was shut down at this end.
\<close>

definition fresh_connection :: "nat \<Rightarrow> bool \<Rightarrow> connection" where
  "fresh_connection fd active =
     \<lparr>cn_fd = fd, cn_active = active, cn_ready = False, cn_peer = 0, cn_inbox = 0, cn_gone = False, cn_shut = False\<rparr>"

text \<open>
  Where a thread is: at the head of the dialling loop, in \<open>connect\<close>, waiting before the next attempt (with the
  time waited), at the entry of \<open>run_connection\<close>, before the \<open>HELLO\<close>, in the snapshot exchange, in the receive
  loop, or returned. \<open>ct_recv\<close> says that it is inside \<open>recv_framed\<close>, waiting for a message.
\<close>

datatype stage =
    Dialling | Connecting | Backing_off int
  | Opening nat | Greeting nat | Exchanging nat | Steady nat
  | Returned

fun slot_of :: "stage \<Rightarrow> nat option" where
  "slot_of (Greeting k) = Some k"
| "slot_of (Exchanging k) = Some k"
| "slot_of (Steady k) = Some k"
| "slot_of _ = None"

datatype role = Dialler | Handler

text \<open>The accepting thread: in \<open>accept\<close>, with a connection past its check of \<open>stop\<close>, or ended.\<close>

datatype acceptor = Listening | Admitting | Ended

record conn_thread =
  ct_role :: role
  ct_stage :: stage
  ct_recv :: bool
  ct_backoff :: int
  ct_attempt :: nat

record transport =
  tp_stop :: bool
  tp_listening :: bool
  tp_acceptor :: acceptor
  tp_conns :: "connection list"
  tp_peers :: "(string \<times> int) list"
  tp_threads :: "conn_thread list"
  tp_handlers :: nat
  tp_reconnects :: u64
  tp_lifecycle :: "(string \<times> u64 \<times> u64) list"
  tp_calls :: "nat list list"
  tp_updates :: "(nat \<times> connection) list"

text \<open>
  \<open>tp_handlers\<close> is \<open>active_accept_handlers\<close>. A running \<open>disseminate\<close> is the list of slots it has yet to write to;
  \<open>tp_updates\<close> logs each update that was written, with the connection as it was then.
\<close>

text \<open>The transport as a successful creation leaves it; a creation that fails leaves none.\<close>

definition daim_peer_transport_create :: transport where
  "daim_peer_transport_create =
     \<lparr>tp_stop = False, tp_listening = True, tp_acceptor = Listening,
      tp_conns = replicate MAX_CONNECTIONS (fresh_connection 0 False),
      tp_peers = [], tp_threads = [], tp_handlers = 0, tp_reconnects = 0, tp_lifecycle = [], tp_calls = [], tp_updates = []\<rparr>"

definition new_dialler :: conn_thread where
  "new_dialler = \<lparr>ct_role = Dialler, ct_stage = Dialling, ct_recv = False, ct_backoff = BACKOFF_BASE_MS, ct_attempt = 0\<rparr>"

definition new_handler :: "nat \<Rightarrow> conn_thread" where
  "new_handler fd = \<lparr>ct_role = Handler, ct_stage = Opening fd, ct_recv = False, ct_backoff = BACKOFF_BASE_MS, ct_attempt = 0\<rparr>"

definition upd_thread :: "nat \<Rightarrow> (conn_thread \<Rightarrow> conn_thread) \<Rightarrow> transport \<Rightarrow> transport" where
  "upd_thread i f t = t\<lparr>tp_threads := (tp_threads t)[i := f (tp_threads t ! i)]\<rparr>"

definition upd_conn :: "nat \<Rightarrow> (connection \<Rightarrow> connection) \<Rightarrow> transport \<Rightarrow> transport" where
  "upd_conn k f t = t\<lparr>tp_conns := (tp_conns t)[k := f (tp_conns t ! k)]\<rparr>"

definition fire :: "string \<Rightarrow> u64 \<Rightarrow> u64 \<Rightarrow> transport \<Rightarrow> transport" where
  "fire event peer detail t = t\<lparr>tp_lifecycle := tp_lifecycle t @ [(event, peer, detail)]\<rparr>"

definition go :: "nat \<Rightarrow> stage \<Rightarrow> transport \<Rightarrow> transport" where
  "go i st = upd_thread i (\<lambda>c. c\<lparr>ct_stage := st, ct_recv := False\<rparr>)"

definition enter_recv :: "nat \<Rightarrow> transport \<Rightarrow> transport" where
  "enter_recv i = upd_thread i (\<lambda>c. c\<lparr>ct_recv := True\<rparr>)"

definition leave_recv :: "nat \<Rightarrow> transport \<Rightarrow> transport" where
  "leave_recv i = upd_thread i (\<lambda>c. c\<lparr>ct_recv := False\<rparr>)"

definition take_message :: "nat \<Rightarrow> transport \<Rightarrow> transport" where
  "take_message k = upd_conn k (\<lambda>c. c\<lparr>cn_inbox := cn_inbox c - 1\<rparr>)"

subsection \<open>Operations\<close>

definition acquire_connection_slot :: "nat \<Rightarrow> transport \<Rightarrow> nat option \<times> transport" where
  "acquire_connection_slot fd t =
     (case find (\<lambda>k. \<not> cn_active (tp_conns t ! k)) [0..<MAX_CONNECTIONS] of
        None \<Rightarrow> (None, t)
      | Some k \<Rightarrow> (Some k, upd_conn k (\<lambda>_. fresh_connection fd True) t))"

text \<open>The end of \<open>run_connection\<close> returns to the dialling loop, or ends the handler and counts it down.\<close>

definition leave_connection :: "nat \<Rightarrow> transport \<Rightarrow> transport" where
  "leave_connection i t =
     (case ct_role (tp_threads t ! i) of
        Dialler \<Rightarrow> go i Dialling t
      | Handler \<Rightarrow> (go i Returned t)\<lparr>tp_handlers := tp_handlers t - 1\<rparr>)"

definition drop_connection :: "nat \<Rightarrow> nat \<Rightarrow> u64 \<Rightarrow> u64 \<Rightarrow> transport \<Rightarrow> transport" where
  "drop_connection i k reason errno t =
     (let peer = cn_peer (tp_conns t ! k)
      in leave_connection i (upd_conn k (\<lambda>c. c\<lparr>cn_active := False, cn_ready := False\<rparr>)
           (fire ''disconnected'' peer errno (fire ''disconnect_reason'' peer reason t))))"

definition dial_failed :: "nat \<Rightarrow> transport \<Rightarrow> transport" where
  "dial_failed i t =
     (let a = Suc (ct_attempt (tp_threads t ! i))
      in fire ''reconnecting'' 0 (ucast (of_nat a :: u32))
           (upd_thread i (\<lambda>c. c\<lparr>ct_attempt := a, ct_stage := Backing_off 0\<rparr>) (t\<lparr>tp_reconnects := tp_reconnects t + 1\<rparr>)))"

definition dial_connected :: "nat \<Rightarrow> nat \<Rightarrow> transport \<Rightarrow> transport" where
  "dial_connected i fd = upd_thread i (\<lambda>c. c\<lparr>ct_backoff := BACKOFF_BASE_MS, ct_attempt := 0, ct_stage := Opening fd\<rparr>)"

definition backoff_round :: "nat \<Rightarrow> int \<Rightarrow> transport \<Rightarrow> transport" where
  "backoff_round i waited t =
     (if waited < ct_backoff (tp_threads t ! i) \<and> \<not> tp_stop t then go i (Backing_off (waited + STOP_POLL_MS)) t
      else upd_thread i (\<lambda>c. c\<lparr>ct_backoff := next_backoff (ct_backoff c), ct_stage := Dialling\<rparr>) t)"

definition run_opening :: "nat \<Rightarrow> nat \<Rightarrow> transport \<Rightarrow> transport" where
  "run_opening i fd t =
     (case acquire_connection_slot fd t of
        (None, t') \<Rightarrow> leave_connection i t'
      | (Some k, t') \<Rightarrow> go i (Greeting k) t')"

definition run_greeted :: "nat \<Rightarrow> nat \<Rightarrow> u64 \<Rightarrow> transport \<Rightarrow> transport" where
  "run_greeted i k peer t =
     go i (Exchanging k)
       (fire ''connected'' peer (case ct_role (tp_threads t ! i) of Dialler \<Rightarrow> 1 | Handler \<Rightarrow> 0) (upd_conn k (\<lambda>c. c\<lparr>cn_peer := peer\<rparr>) t))"

definition run_exchanged :: "nat \<Rightarrow> nat \<Rightarrow> u64 \<Rightarrow> transport \<Rightarrow> transport" where
  "run_exchanged i k applied t =
     go i (Steady k) (upd_conn k (\<lambda>c. c\<lparr>cn_ready := True\<rparr>) (fire ''snapshot_received'' (cn_peer (tp_conns t ! k)) applied t))"

definition start_dialler :: "string \<times> int \<Rightarrow> transport \<Rightarrow> transport" where
  "start_dialler p t = t\<lparr>tp_peers := tp_peers t @ [p], tp_threads := tp_threads t @ [new_dialler]\<rparr>"

definition accept_connection :: "nat \<Rightarrow> transport \<Rightarrow> transport" where
  "accept_connection fd t =
     t\<lparr>tp_acceptor := Listening, tp_handlers := tp_handlers t + 1, tp_threads := tp_threads t @ [new_handler fd]\<rparr>"

definition ready_slots :: "transport \<Rightarrow> nat list" where
  "ready_slots t = filter (\<lambda>k. cn_active (tp_conns t ! k) \<and> cn_ready (tp_conns t ! k)) [0..<MAX_CONNECTIONS]"

definition disseminate_collect :: "transport \<Rightarrow> transport" where
  "disseminate_collect t = t\<lparr>tp_calls := tp_calls t @ [ready_slots t]\<rparr>"

text \<open>\<open>send_framed\<close> looks at \<open>active\<close> again, under the lock that also closes the connection.\<close>

definition disseminate_send :: "nat \<Rightarrow> nat \<Rightarrow> nat list \<Rightarrow> transport \<Rightarrow> transport" where
  "disseminate_send j k ks t =
     (let t' = t\<lparr>tp_calls := (tp_calls t)[j := ks]\<rparr>
      in if cn_active (tp_conns t ! k) then t'\<lparr>tp_updates := tp_updates t @ [(k, tp_conns t ! k)]\<rparr> else t')"

definition transport_active_connections :: "transport \<Rightarrow> nat" where
  "transport_active_connections t = length (filter cn_active (tp_conns t))"

text \<open>
  What \<open>destroy\<close> does before it joins the threads, in three steps: it sets \<open>stop\<close>, it shuts down and closes the listening
  socket, and under the lock it shuts down the socket of every connection in use.
\<close>

definition request_stop :: "transport \<Rightarrow> transport" where
  "request_stop t = t\<lparr>tp_stop := True\<rparr>"

definition close_listener :: "transport \<Rightarrow> transport" where
  "close_listener t = t\<lparr>tp_listening := False\<rparr>"

definition shutdown_connections :: "transport \<Rightarrow> transport" where
  "shutdown_connections t = t\<lparr>tp_conns := map (\<lambda>c. if cn_active c then c\<lparr>cn_shut := True\<rparr> else c) (tp_conns t)\<rparr>"

subsection \<open>Steps\<close>

definition at_stage :: "transport \<Rightarrow> nat \<Rightarrow> stage \<Rightarrow> bool" where
  "at_stage t i st = (i < length (tp_threads t) \<and> ct_stage (tp_threads t ! i) = st)"

definition in_recv :: "transport \<Rightarrow> nat \<Rightarrow> bool" where
  "in_recv t i = ct_recv (tp_threads t ! i)"

definition readable :: "transport \<Rightarrow> nat \<Rightarrow> bool" where
  "readable t k = (0 < cn_inbox (tp_conns t ! k))"

definition socket_ended :: "transport \<Rightarrow> nat \<Rightarrow> bool" where
  "socket_ended t k = (cn_gone (tp_conns t ! k) \<or> cn_shut (tp_conns t ! k))"

text \<open>
  The steps the threads take by themselves. A dialling loop ends when the transport stops or no socket can be had. A thread that runs a
  connection sends and then waits in \<open>recv\<close>, which returns with a message that has arrived, fails on a broken message, and fails where
  the socket has ended: the \<open>HELLO\<close> once, the exchange as often as it takes to its end, the receive loop until it sees
  \<open>stop\<close> at its head. A connection
  that was accepted gets a handler unless memory or a thread is lacking. The reasons of a drop are those of the code: 1 and 2 around the
  \<open>HELLO\<close>, 3 in the exchange, and in the receive loop 4, or 0 when the transport stops.
\<close>

inductive thread_step :: "transport \<Rightarrow> transport \<Rightarrow> bool" where
  dial_ends: "at_stage t i Dialling \<Longrightarrow> thread_step t (go i Returned t)"
| dial_begins: "at_stage t i Dialling \<Longrightarrow> \<not> tp_stop t \<Longrightarrow> thread_step t (go i Connecting t)"
| dial_connects: "at_stage t i Connecting \<Longrightarrow> thread_step t (dial_connected i fd t)"
| dial_fails: "at_stage t i Connecting \<Longrightarrow> thread_step t (dial_failed i t)"
| waits: "at_stage t i (Backing_off waited) \<Longrightarrow> thread_step t (backoff_round i waited t)"
| opens: "at_stage t i (Opening fd) \<Longrightarrow> thread_step t (run_opening i fd t)"
| hello_sent: "at_stage t i (Greeting k) \<Longrightarrow> \<not> in_recv t i \<Longrightarrow> thread_step t (enter_recv i t)"
| hello_fails: "at_stage t i (Greeting k) \<Longrightarrow> \<not> in_recv t i \<Longrightarrow> thread_step t (drop_connection i k 1 errno t)"
| greets: "at_stage t i (Greeting k) \<Longrightarrow> in_recv t i \<Longrightarrow> readable t k \<Longrightarrow>
    thread_step t (run_greeted i k peer (take_message k t))"
| greeting_fails: "at_stage t i (Greeting k) \<Longrightarrow> in_recv t i \<Longrightarrow> readable t k \<or> socket_ended t k \<Longrightarrow>
    thread_step t (drop_connection i k 2 errno t)"
| exchange_waits: "at_stage t i (Exchanging k) \<Longrightarrow> \<not> in_recv t i \<Longrightarrow> thread_step t (enter_recv i t)"
| exchange_reads: "at_stage t i (Exchanging k) \<Longrightarrow> in_recv t i \<Longrightarrow> readable t k \<Longrightarrow>
    thread_step t (leave_recv i (take_message k t))"
| exchanges: "at_stage t i (Exchanging k) \<Longrightarrow> in_recv t i \<Longrightarrow> readable t k \<Longrightarrow>
    thread_step t (run_exchanged i k applied (take_message k t))"
| exchange_fails: "at_stage t i (Exchanging k) \<Longrightarrow> in_recv t i \<longrightarrow> readable t k \<or> socket_ended t k \<Longrightarrow>
    thread_step t (drop_connection i k 3 errno t)"
| receive_waits: "at_stage t i (Steady k) \<Longrightarrow> \<not> in_recv t i \<Longrightarrow> \<not> tp_stop t \<Longrightarrow> thread_step t (enter_recv i t)"
| stops: "at_stage t i (Steady k) \<Longrightarrow> \<not> in_recv t i \<Longrightarrow> tp_stop t \<Longrightarrow> thread_step t (drop_connection i k 0 errno t)"
| receives: "at_stage t i (Steady k) \<Longrightarrow> in_recv t i \<Longrightarrow> readable t k \<Longrightarrow> thread_step t (leave_recv i (take_message k t))"
| receive_fails: "at_stage t i (Steady k) \<Longrightarrow> in_recv t i \<Longrightarrow> readable t k \<or> socket_ended t k \<Longrightarrow>
    thread_step t (drop_connection i k 4 errno t)"
| accepts: "tp_acceptor t = Admitting \<Longrightarrow> thread_step t (accept_connection fd t)"
| accept_gives_up: "tp_acceptor t = Admitting \<Longrightarrow> thread_step t (t\<lparr>tp_acceptor := Listening\<rparr>)"
| accept_ends: "tp_acceptor t = Listening \<Longrightarrow> \<not> tp_listening t \<Longrightarrow> thread_step t (t\<lparr>tp_acceptor := Ended\<rparr>)"

text \<open>What the peers do: a message arrives on a connection, or the connection ends from their side. A socket that was shut down gets no more messages.\<close>

definition deliver :: "nat \<Rightarrow> transport \<Rightarrow> transport" where
  "deliver k = upd_conn k (\<lambda>c. c\<lparr>cn_inbox := Suc (cn_inbox c)\<rparr>)"

inductive peer_step :: "transport \<Rightarrow> transport \<Rightarrow> bool" where
  message_arrives: "k < MAX_CONNECTIONS \<Longrightarrow> cn_active (tp_conns t ! k) \<Longrightarrow> \<not> socket_ended t k \<Longrightarrow> peer_step t (deliver k t)"
| peer_goes: "k < MAX_CONNECTIONS \<Longrightarrow> cn_active (tp_conns t ! k) \<Longrightarrow> \<not> cn_gone (tp_conns t ! k) \<Longrightarrow>
    peer_step t (upd_conn k (\<lambda>c. c\<lparr>cn_gone := True\<rparr>) t)"

text \<open>
  The rest: what the callers of the transport do, and a connection that reaches the accepting thread, whose first check is that of
  \<open>stop\<close>. A peer for which no thread could be had stays configured without being dialled.
\<close>

inductive transport_step :: "transport \<Rightarrow> transport \<Rightarrow> bool" where
  thread: "thread_step t t' \<Longrightarrow> transport_step t t'"
| peer: "peer_step t t' \<Longrightarrow> transport_step t t'"
| add_peer: "length (tp_peers t) < MAX_PEERS \<Longrightarrow> transport_step t (start_dialler p t)"
| add_peer_fails: "length (tp_peers t) < MAX_PEERS \<Longrightarrow> transport_step t (t\<lparr>tp_peers := tp_peers t @ [p]\<rparr>)"
| accept: "tp_acceptor t = Listening \<Longrightarrow> tp_listening t \<Longrightarrow>
    transport_step t (t\<lparr>tp_acceptor := (if tp_stop t then Ended else Admitting)\<rparr>)"
| accept_error: "tp_acceptor t = Listening \<Longrightarrow> transport_step t (t\<lparr>tp_acceptor := Ended\<rparr>)"
| collect: "transport_step t (disseminate_collect t)"
| send: "j < length (tp_calls t) \<Longrightarrow> tp_calls t ! j = k # ks \<Longrightarrow> transport_step t (disseminate_send j k ks t)"
| destroy_stops: "transport_step t (request_stop t)"
| destroy_closes: "tp_stop t \<Longrightarrow> transport_step t (close_listener t)"
| destroy_shuts: "tp_stop t \<Longrightarrow> \<not> tp_listening t \<Longrightarrow> transport_step t (shutdown_connections t)"

inductive transport_reachable :: "transport \<Rightarrow> bool" where
  start: "transport_reachable daim_peer_transport_create"
| step: "transport_reachable t \<Longrightarrow> transport_step t t' \<Longrightarrow> transport_reachable t'"

inductive_cases threadE: "thread_step t t'"

end
