(* ===== verification/Transport_Slots.thy ===== *)
theory Transport_Slots
  imports Transport_Threads
begin

text \<open>
  What holds whatever the threads of the transport do: every slot in use belongs to exactly one thread, and is ready
  exactly while that thread receives; the waiting times grow as intended; and once \<open>destroy\<close> has shut down the sockets, the
  threads come to an end and leave nothing behind, except where a connection is opened at that moment and its peer is silent.
\<close>

subsection \<open>Slots and their owners\<close>

fun receiving :: "stage \<Rightarrow> bool" where
  "receiving (Steady k) = True"
| "receiving _ = False"

definition owners :: "stage list \<Rightarrow> nat \<Rightarrow> nat set" where
  "owners sts k = {i. i < length sts \<and> slot_of (sts ! i) = Some k}"

definition slot_ok :: "stage list \<Rightarrow> connection \<Rightarrow> nat \<Rightarrow> bool" where
  "slot_ok sts c k =
     (if cn_active c then \<exists>i. owners sts k = {i} \<and> cn_ready c = receiving (sts ! i) else owners sts k = {} \<and> \<not> cn_ready c)"

definition slots_inv :: "stage list \<Rightarrow> connection list \<Rightarrow> bool" where
  "slots_inv sts cs =
     (length cs = MAX_CONNECTIONS \<and> (\<forall>k < MAX_CONNECTIONS. slot_ok sts (cs ! k) k) \<and> (\<forall>k. MAX_CONNECTIONS \<le> k \<longrightarrow> owners sts k = {}))"

lemma owners_update:
  "i < length sts \<Longrightarrow> owners (sts[i := st]) k = (if slot_of st = Some k then insert i (owners sts k) else owners sts k - {i})"
  by (auto simp: owners_def nth_list_update split: if_splits)

lemma owners_other: "slot_of (sts ! i) \<noteq> Some k \<Longrightarrow> owners sts k - {i} = owners sts k"
  by (auto simp: owners_def)

lemma slot_ok_other:
  assumes "slot_ok sts c k" and "i < length sts" and "slot_of (sts ! i) \<noteq> Some k" and "slot_of st \<noteq> Some k"
  shows "slot_ok (sts[i := st]) c k"
proof -
  have own: "owners (sts[i := st]) k = owners sts k" using assms(2-4) by (simp add: owners_update owners_other)
  have "sts[i := st] ! j = sts ! j" if "owners sts k = {j}" for j
    using that assms(3) by (cases "j = i") (auto simp: owners_def)
  then show ?thesis using assms(1) unfolding slot_ok_def own by (auto split: if_splits)
qed

lemma owned: "slots_inv sts cs \<Longrightarrow> i < length sts \<Longrightarrow> slot_of (sts ! i) = Some k \<Longrightarrow>
    k < MAX_CONNECTIONS \<and> cn_active (cs ! k) \<and> owners sts k = {i} \<and> cn_ready (cs ! k) = receiving (sts ! i)"
proof -
  assume inv: "slots_inv sts cs" and i: "i < length sts" "slot_of (sts ! i) = Some k"
  then have own: "i \<in> owners sts k" by (simp add: owners_def)
  with inv have k: "k < MAX_CONNECTIONS" by (fastforce simp: slots_inv_def not_le [symmetric])
  with inv have "slot_ok sts (cs ! k) k" by (simp add: slots_inv_def)
  with own k show ?thesis by (auto simp: slot_ok_def split: if_splits)
qed

lemma slots_idle:
  "slots_inv sts cs \<Longrightarrow> i < length sts \<Longrightarrow> slot_of (sts ! i) = None \<Longrightarrow> slot_of st = None \<Longrightarrow> slots_inv (sts[i := st]) cs"
  by (simp add: slots_inv_def slot_ok_other owners_update)

lemma slots_changed:
  assumes "slots_inv sts cs" and "i < length sts" and "slot_of (sts ! i) \<in> {None, Some k}" and "slot_of st \<in> {None, Some k}"
    and "k < MAX_CONNECTIONS" and "slot_ok (sts[i := st]) c k"
  shows "slots_inv (sts[i := st]) (cs[k := c])"
  using assms unfolding slots_inv_def by (auto simp: nth_list_update owners_update intro!: slot_ok_other)

lemma slots_taken:
  assumes "slots_inv sts cs" and "i < length sts" and "slot_of (sts ! i) = None" and "k < MAX_CONNECTIONS" and "\<not> cn_active (cs ! k)"
    and "slot_of st = Some k" and "cn_active c" and "cn_ready c = receiving st"
  shows "slots_inv (sts[i := st]) (cs[k := c])"
proof (rule slots_changed [OF assms(1,2)])
  have "owners sts k = {}" using assms(1,4,5) by (auto simp: slots_inv_def slot_ok_def)
  then show "slot_ok (sts[i := st]) c k" using assms by (simp add: slot_ok_def owners_update)
qed (use assms in auto)

lemma slots_kept:
  assumes "slots_inv sts cs" and "i < length sts" and "slot_of (sts ! i) = Some k"
    and "slot_of st = Some k" and "cn_active c" and "cn_ready c = receiving st"
  shows "slots_inv (sts[i := st]) (cs[k := c])"
proof (rule slots_changed [OF assms(1,2)])
  show "slot_ok (sts[i := st]) c k" using assms owned [OF assms(1-3)] by (simp add: slot_ok_def owners_update)
qed (use assms owned [OF assms(1-3)] in auto)

lemma slots_freed:
  assumes "slots_inv sts cs" and "i < length sts" and "slot_of (sts ! i) = Some k"
    and "slot_of st = None" and "\<not> cn_active c" and "\<not> cn_ready c"
  shows "slots_inv (sts[i := st]) (cs[k := c])"
proof (rule slots_changed [OF assms(1,2)])
  show "slot_ok (sts[i := st]) c k" using assms owned [OF assms(1-3)] by (simp add: slot_ok_def owners_update)
qed (use assms owned [OF assms(1-3)] in auto)

lemma owners_more: "slot_of st = None \<Longrightarrow> owners (sts @ [st]) k = owners sts k"
  by (auto simp: owners_def nth_append less_Suc_eq)

lemma slots_more:
  assumes "slots_inv sts cs" and "slot_of st = None"
  shows "slots_inv (sts @ [st]) cs"
proof -
  have "slot_ok (sts @ [st]) c k" if "slot_ok sts c k" for c k
  proof -
    have "(sts @ [st]) ! j = sts ! j" if "owners sts k = {j}" for j
      using that by (auto simp: owners_def nth_append set_eq_iff)
    with that show ?thesis by (auto simp: slot_ok_def owners_more assms(2) split: if_splits)
  qed
  then show ?thesis using assms by (simp add: slots_inv_def owners_more)
qed

lemma slots_flags:
  assumes "slots_inv sts cs" and "length cs' = length cs"
    and "\<And>k. k < length cs \<Longrightarrow> cn_active (cs' ! k) = cn_active (cs ! k) \<and> cn_ready (cs' ! k) = cn_ready (cs ! k)"
  shows "slots_inv sts cs'"
  using assms by (auto simp: slots_inv_def slot_ok_def)

lemma fresh_flags [simp]:
  "cn_active (fresh_connection fd a) = a" "\<not> cn_ready (fresh_connection fd a)" "cn_inbox (fresh_connection fd a) = 0"
  "\<not> cn_gone (fresh_connection fd a)" "\<not> cn_shut (fresh_connection fd a)"
  by (simp_all add: fresh_connection_def)

subsection \<open>Threads\<close>

text \<open>The waiting time after so many failures in a row.\<close>

definition backoff_after :: "nat \<Rightarrow> int" where
  "backoff_after n = min BACKOFF_CAP_MS (BACKOFF_BASE_MS * 2 ^ n)"

lemma next_backoff_after: "next_backoff (backoff_after n) = backoff_after (Suc n)"
  by (auto simp: next_backoff_def backoff_after_def BACKOFF_CAP_MS_def BACKOFF_BASE_MS_def Let_def min_def)

fun dials :: "stage \<Rightarrow> bool" where
  "dials Dialling = True"
| "dials Connecting = True"
| "dials (Backing_off w) = True"
| "dials _ = False"

definition thread_ok :: "conn_thread \<Rightarrow> bool" where
  "thread_ok c =
     ((ct_role c = Handler \<longrightarrow> \<not> dials (ct_stage c)) \<and>
      (case ct_stage c of
         Backing_off w \<Rightarrow> 0 < ct_attempt c \<and> ct_backoff c = backoff_after (ct_attempt c - 1) \<and> 0 \<le> w \<and> w < ct_backoff c + STOP_POLL_MS
       | _ \<Rightarrow> ct_backoff c = backoff_after (ct_attempt c)))"

definition live :: "conn_thread \<Rightarrow> nat" where
  "live c = (if ct_role c = Handler \<and> ct_stage c \<noteq> Returned then 1 else 0)"

definition transport_inv :: "transport \<Rightarrow> bool" where
  "transport_inv t =
     (slots_inv (map ct_stage (tp_threads t)) (tp_conns t) \<and> (\<forall>c \<in> set (tp_threads t). thread_ok c) \<and>
      tp_handlers t = sum_list (map live (tp_threads t)))"

lemma sum_list_update_add: "i < length xs \<Longrightarrow> sum_list (map f (xs[i := x])) + f (xs ! i) = sum_list (map f xs) + (f x :: nat)"
proof -
  assume i: "i < length xs"
  then have "xs = take i xs @ xs ! i # drop (Suc i) xs" by (simp add: id_take_nth_drop)
  then have "sum_list (map f xs) = sum_list (map f (take i xs)) + (f (xs ! i) + sum_list (map f (drop (Suc i) xs)))"
    by (metis map_append list.simps(9) sum_list.append sum_list.Cons)
  with i show ?thesis by (simp add: upd_conv_take_nth_drop)
qed

lemma thread_moved:
  assumes "transport_inv t" and "i < length (tp_threads t)" and "tp_threads t' = (tp_threads t)[i := c]"
    and "slots_inv ((map ct_stage (tp_threads t))[i := ct_stage c]) (tp_conns t')" and "thread_ok c"
    and "tp_handlers t' + live (tp_threads t ! i) = tp_handlers t + live c"
  shows "transport_inv t'"
  using assms sum_list_update_add [of i "tp_threads t" live c] set_update_subset_insert [of "tp_threads t" i c]
  by (auto simp: transport_inv_def map_update)

lemmas stage_defs = at_stage_def go_def upd_thread_def upd_conn_def fire_def enter_recv_def leave_recv_def take_message_def deliver_def

lemma at_stageD:
  assumes "transport_inv t" and "at_stage t i st"
  shows "i < length (tp_threads t)" "ct_stage (tp_threads t ! i) = st" "map ct_stage (tp_threads t) ! i = st"
    "thread_ok (tp_threads t ! i)" "i < length (map ct_stage (tp_threads t))" "slots_inv (map ct_stage (tp_threads t)) (tp_conns t)"
  using assms by (auto simp: at_stage_def transport_inv_def)

text \<open>Moves that leave the slots alone.\<close>

lemma thread_idles:
  assumes "transport_inv t" and "at_stage t i st" and "slot_of st = None"
    and "tp_threads t' = (tp_threads t)[i := c]" and "tp_conns t' = tp_conns t" and "slot_of (ct_stage c) = None" and "thread_ok c"
    and "tp_handlers t' + live (tp_threads t ! i) = tp_handlers t + live c"
  shows "transport_inv t'"
proof (rule thread_moved [OF assms(1) _ assms(4)])
  note at = at_stageD [OF assms(1,2)]
  show "slots_inv ((map ct_stage (tp_threads t))[i := ct_stage c]) (tp_conns t')"
    using slots_idle [OF at(6,5)] at(3) assms(3,5,6) by simp
qed (use assms at_stageD(1) in auto)

lemma live_counted: "i < length (tp_threads t) \<Longrightarrow> transport_inv t \<Longrightarrow> live (tp_threads t ! i) \<le> tp_handlers t"
  by (auto simp: transport_inv_def intro!: member_le_sum_list)

text \<open>Leaving a connection, for any stage of it.\<close>

lemma leave_fields:
  "tp_conns (leave_connection i t) = tp_conns t"
  "tp_threads (leave_connection i t) = (tp_threads t)[i := (tp_threads t ! i)\<lparr>ct_stage := if ct_role (tp_threads t ! i) = Dialler then Dialling else Returned, ct_recv := False\<rparr>]"
  "tp_handlers (leave_connection i t) = tp_handlers t - (if ct_role (tp_threads t ! i) = Dialler then 0 else 1)"
  by (auto simp: leave_connection_def stage_defs split: role.splits)

lemma left_thread:
  assumes "transport_inv t" and "at_stage t i st" and "\<not> dials st" and "st \<noteq> Returned"
    and "c = (tp_threads t ! i)\<lparr>ct_stage := if ct_role (tp_threads t ! i) = Dialler then Dialling else Returned, ct_recv := False\<rparr>"
  shows "thread_ok c" "slot_of (ct_stage c) = None"
    "(tp_handlers t - (if ct_role (tp_threads t ! i) = Dialler then 0 else 1)) + live (tp_threads t ! i) = tp_handlers t + live c"
  using at_stageD [OF assms(1,2)] live_counted [OF _ assms(1), of i] assms(3-5)
  by (cases "ct_role (tp_threads t ! i)"; cases st; auto simp: thread_ok_def live_def)+

lemma left_inv:
  assumes "transport_inv t" and "at_stage t i st" and "slot_of st = None" and "\<not> dials st" and "st \<noteq> Returned"
  shows "transport_inv (leave_connection i t)"
  using left_thread [OF assms(1,2,4,5) refl] by (intro thread_idles [OF assms(1,2,3) leave_fields(2,1)]) (simp_all add: leave_fields)

lemma drop_fields:
  "tp_conns (drop_connection i k reason errno t) = (tp_conns t)[k := (tp_conns t ! k)\<lparr>cn_active := False, cn_ready := False\<rparr>]"
  "tp_threads (drop_connection i k reason errno t) = tp_threads (leave_connection i t)"
  "tp_handlers (drop_connection i k reason errno t) = tp_handlers (leave_connection i t)"
  by (simp_all add: drop_connection_def Let_def leave_fields stage_defs)

lemma drop_inv:
  assumes "transport_inv t" and "at_stage t i st" and "slot_of st = Some k"
  shows "transport_inv (drop_connection i k reason errno t)"
proof -
  have st: "\<not> dials st" "st \<noteq> Returned" using assms(3) by (cases st; simp)+
  note at = at_stageD [OF assms(1,2)] and left = left_thread [OF assms(1,2) st refl]
  show ?thesis
    using left slots_freed [OF at(6,5), of k] at(3) assms(3)
    by (intro thread_moved [OF assms(1) at(1)]) (simp_all add: drop_fields leave_fields)
qed

lemma acquired: "acquire_connection_slot fd t = (Some k, t') \<Longrightarrow> k < MAX_CONNECTIONS \<and> \<not> cn_active (tp_conns t ! k) \<and>
    t' = upd_conn k (\<lambda>_. fresh_connection fd True) t"
  by (auto simp: acquire_connection_slot_def find_Some_iff split: option.splits)

lemma acquire_full: "acquire_connection_slot fd t = (None, t') \<Longrightarrow> t' = t \<and> (\<forall>k < MAX_CONNECTIONS. cn_active (tp_conns t ! k))"
  by (auto simp: acquire_connection_slot_def find_None_iff split: option.splits)

lemma opening_inv:
  assumes "transport_inv t" and "at_stage t i (Opening fd)"
  shows "transport_inv (run_opening i fd t)"
proof (cases "acquire_connection_slot fd t")
  case (Pair slot t')
  note at = at_stageD [OF assms]
  show ?thesis
  proof (cases slot)
    case None
    then show ?thesis using Pair acquire_full left_inv [OF assms] by (fastforce simp: run_opening_def)
  next
    case (Some k)
    with Pair acquired have k: "k < MAX_CONNECTIONS" "\<not> cn_active (tp_conns t ! k)"
      and t': "t' = upd_conn k (\<lambda>_. fresh_connection fd True) t" by blast+
    show ?thesis unfolding run_opening_def Pair Some prod.case option.case
      by (rule thread_moved [OF assms(1) at(1), where c = "(tp_threads t ! i)\<lparr>ct_stage := Greeting k, ct_recv := False\<rparr>"])
        (use at k slots_taken [OF at(6,5) _ k(1) k(2), of "Greeting k"] in \<open>simp_all add: t' stage_defs thread_ok_def live_def\<close>)
  qed
qed

lemma kept_inv:
  assumes "transport_inv t" and "at_stage t i st" and "slot_of st = Some k" and "slot_of (ct_stage c') = Some k"
    and "tp_threads t' = (tp_threads t)[i := c']" and "tp_conns t' = (tp_conns t)[k := c]"
    and "ct_role c' = ct_role (tp_threads t ! i)" and "ct_backoff c' = ct_backoff (tp_threads t ! i)"
    and "ct_attempt c' = ct_attempt (tp_threads t ! i)"
    and "tp_handlers t' = tp_handlers t" and "cn_active c" and "cn_ready c = receiving (ct_stage c')"
  shows "transport_inv t'"
proof -
  note at = at_stageD [OF assms(1,2)]
  have "thread_ok c'" "live c' = live (tp_threads t ! i)"
    using at assms(3,4,7-9) by (cases st; cases "ct_stage c'"; auto simp: thread_ok_def live_def)+
  then show ?thesis
    using slots_kept [OF at(6,5), of k "ct_stage c'" c] at(3) assms by (intro thread_moved [OF assms(1) at(1) assms(5)]) simp_all
qed

text \<open>A thread that stays at its stage, waiting for a message or with one read.\<close>

lemma recv_inv:
  assumes "transport_inv t" and "at_stage t i st" and "slot_of st = Some k"
  shows "transport_inv (enter_recv i t)" "transport_inv (leave_recv i (take_message k t))"
proof -
  note at = at_stageD [OF assms(1,2)]
  have own: "k < length (tp_conns t)" "cn_active (tp_conns t ! k)" "cn_ready (tp_conns t ! k) = receiving st"
    using owned [OF at(6,5), of k] at(3,6) assms(3) by (simp_all add: slots_inv_def)
  show "transport_inv (enter_recv i t)"
    by (rule kept_inv [OF assms, where c' = "(tp_threads t ! i)\<lparr>ct_recv := True\<rparr>" and c = "tp_conns t ! k"])
      (use own at(2) assms(3) in \<open>simp_all add: stage_defs\<close>)
  show "transport_inv (leave_recv i (take_message k t))"
    by (rule kept_inv [OF assms, where c' = "(tp_threads t ! i)\<lparr>ct_recv := False\<rparr>"
          and c = "(tp_conns t ! k)\<lparr>cn_inbox := cn_inbox (tp_conns t ! k) - 1\<rparr>"])
      (use own at(2) assms(3) in \<open>simp_all add: stage_defs\<close>)
qed

lemma idles_inv:
  assumes "transport_inv t" and "at_stage t i st" and "slot_of st = None" and "st \<noteq> Returned"
    and "tp_threads t' = (tp_threads t)[i := c]" and "tp_conns t' = tp_conns t" and "tp_handlers t' = tp_handlers t"
    and "slot_of (ct_stage c) = None" and "thread_ok c" and "ct_role c = ct_role (tp_threads t ! i)"
    and "ct_role c = Handler \<Longrightarrow> ct_stage c \<noteq> Returned"
  shows "transport_inv t'"
  using at_stageD(2) [OF assms(1,2)] assms(4,7,10,11)
  by (intro thread_idles [OF assms(1,2,3,5,6,8,9)]) (auto simp: live_def)

lemma dial_role: "transport_inv t \<Longrightarrow> at_stage t i st \<Longrightarrow> dials st \<Longrightarrow> ct_role (tp_threads t ! i) = Dialler"
  using at_stageD [of t i st] by (cases "ct_role (tp_threads t ! i)") (auto simp: thread_ok_def)

lemma backoff_after_pos: "0 < backoff_after n"
  by (simp add: backoff_after_def BACKOFF_CAP_MS_def BACKOFF_BASE_MS_def)

lemma backoff_after_0: "BACKOFF_BASE_MS = backoff_after 0"
  by (simp add: backoff_after_def BACKOFF_CAP_MS_def BACKOFF_BASE_MS_def)

lemma waits_inv:
  assumes "transport_inv t" and "at_stage t i (Backing_off waited)"
  shows "transport_inv (backoff_round i waited t)"
proof -
  note at = at_stageD [OF assms] and role = dial_role [OF assms]
  let ?c = "tp_threads t ! i"
  have ok: "0 < ct_attempt ?c" "ct_backoff ?c = backoff_after (ct_attempt ?c - 1)" "0 \<le> waited" using at(2,4) by (auto simp: thread_ok_def)
  show ?thesis
  proof (cases "waited < ct_backoff ?c \<and> \<not> tp_stop t")
    case True
    then have "thread_ok (?c\<lparr>ct_stage := Backing_off (waited + STOP_POLL_MS), ct_recv := False\<rparr>)"
      using ok role by (simp add: thread_ok_def STOP_POLL_MS_def)
    with True role show ?thesis
      by (intro idles_inv [OF assms, where c = "?c\<lparr>ct_stage := Backing_off (waited + STOP_POLL_MS), ct_recv := False\<rparr>"])
        (simp_all add: backoff_round_def stage_defs)
  next
    case False
    have "next_backoff (ct_backoff ?c) = backoff_after (ct_attempt ?c)" using ok next_backoff_after [of "ct_attempt ?c - 1"] by simp
    then have "thread_ok (?c\<lparr>ct_backoff := next_backoff (ct_backoff ?c), ct_stage := Dialling\<rparr>)"
      using role by (simp add: thread_ok_def)
    with False role show ?thesis
      by (intro idles_inv [OF assms, where c = "?c\<lparr>ct_backoff := next_backoff (ct_backoff ?c), ct_stage := Dialling\<rparr>"])
        (auto simp add: backoff_round_def stage_defs)
  qed
qed

lemma dialling_inv:
  assumes "transport_inv t"
  shows "at_stage t i Dialling \<Longrightarrow> transport_inv (go i Returned t)"
    and "at_stage t i Dialling \<Longrightarrow> transport_inv (go i Connecting t)"
    and "at_stage t i Connecting \<Longrightarrow> transport_inv (dial_connected i fd t)"
    and "at_stage t i Connecting \<Longrightarrow> transport_inv (dial_failed i t)"
proof -
  let ?c = "tp_threads t ! i"
  have "transport_inv (go i st t)" if "at_stage t i Dialling" "st \<in> {Returned, Connecting}" for st
    using at_stageD [OF assms that(1)] dial_role [OF assms that(1)] that(2)
    by (intro idles_inv [OF assms that(1), where c = "?c\<lparr>ct_stage := st, ct_recv := False\<rparr>"]) (auto simp: stage_defs thread_ok_def)
  then show "at_stage t i Dialling \<Longrightarrow> transport_inv (go i Returned t)" "at_stage t i Dialling \<Longrightarrow> transport_inv (go i Connecting t)"
    by simp_all
  show "transport_inv (dial_connected i fd t)" if "at_stage t i Connecting"
    using at_stageD [OF assms that] dial_role [OF assms that]
    by (intro idles_inv [OF assms that, where c = "?c\<lparr>ct_backoff := BACKOFF_BASE_MS, ct_attempt := 0, ct_stage := Opening fd\<rparr>"])
      (simp_all add: dial_connected_def stage_defs thread_ok_def backoff_after_0)
  show "transport_inv (dial_failed i t)" if "at_stage t i Connecting"
    using at_stageD [OF assms that] dial_role [OF assms that] backoff_after_pos [of "ct_attempt ?c"]
    by (intro idles_inv [OF assms that, where c = "?c\<lparr>ct_attempt := Suc (ct_attempt ?c), ct_stage := Backing_off 0\<rparr>"])
      (simp_all add: dial_failed_def Let_def stage_defs thread_ok_def STOP_POLL_MS_def)
qed

lemma advanced_inv:
  assumes "transport_inv t" and "at_stage t i st"
  shows "st = Greeting k \<Longrightarrow> transport_inv (run_greeted i k peer (take_message k t))"
    and "st = Exchanging k \<Longrightarrow> transport_inv (run_exchanged i k applied (take_message k t))"
proof -
  note at = at_stageD [OF assms]
  let ?c = "(tp_conns t ! k)\<lparr>cn_inbox := cn_inbox (tp_conns t ! k) - 1\<rparr>"
  have own: "k < length (tp_conns t)" "cn_active (tp_conns t ! k)" "\<not> cn_ready (tp_conns t ! k)"
    if "st = Greeting k \<or> st = Exchanging k"
    using owned [OF at(6,5), of k] at(3,6) that by (auto simp: slots_inv_def)
  show "transport_inv (run_greeted i k peer (take_message k t))" if st: "st = Greeting k"
    by (rule kept_inv [OF assms, of k "(tp_threads t ! i)\<lparr>ct_stage := Exchanging k, ct_recv := False\<rparr>" _ "?c\<lparr>cn_peer := peer\<rparr>"])
      (use own st in \<open>simp_all add: run_greeted_def stage_defs\<close>)
  show "transport_inv (run_exchanged i k applied (take_message k t))" if st: "st = Exchanging k"
    by (rule kept_inv [OF assms, of k "(tp_threads t ! i)\<lparr>ct_stage := Steady k, ct_recv := False\<rparr>" _ "?c\<lparr>cn_ready := True\<rparr>"])
      (use own st in \<open>simp_all add: run_exchanged_def stage_defs\<close>)
qed

lemma accepted_inv: "transport_inv t \<Longrightarrow> transport_inv (accept_connection fd t)"
  by (auto simp: transport_inv_def accept_connection_def new_handler_def thread_ok_def live_def backoff_after_0 intro: slots_more)

lemma thread_step_inv: "thread_step t t' \<Longrightarrow> transport_inv t \<Longrightarrow> transport_inv t'"
proof (induction rule: thread_step.induct)
  case (accept_gives_up t)
  then show ?case by (simp add: transport_inv_def)
next
  case (accept_ends t)
  then show ?case by (simp add: transport_inv_def)
qed (auto intro: dialling_inv waits_inv opening_inv advanced_inv recv_inv accepted_inv drop_inv)

lemma flags_inv:
  assumes "transport_inv t" and "tp_threads t' = tp_threads t" and "tp_handlers t' = tp_handlers t"
    and "length (tp_conns t') = length (tp_conns t)"
    and "\<And>k. k < length (tp_conns t) \<Longrightarrow>
      cn_active (tp_conns t' ! k) = cn_active (tp_conns t ! k) \<and> cn_ready (tp_conns t' ! k) = cn_ready (tp_conns t ! k)"
  shows "transport_inv t'"
  using assms slots_flags [of "map ct_stage (tp_threads t)" "tp_conns t" "tp_conns t'"] by (simp add: transport_inv_def)

lemma nth_updated: "f y = f (xs ! k) \<Longrightarrow> f (xs[k := y] ! j) = f (xs ! j)"
  by (cases "k = j"; cases "k < length xs") (auto simp: list_update_beyond)

lemma peer_step_inv: "peer_step t t' \<Longrightarrow> transport_inv t \<Longrightarrow> transport_inv t'"
  by (induction rule: peer_step.induct) (erule flags_inv; simp add: stage_defs nth_updated)+

lemma shutdown_inv: "transport_inv t \<Longrightarrow> transport_inv (shutdown_connections t)"
  by (erule flags_inv) (simp_all add: shutdown_connections_def)

lemma step_inv: "transport_step t t' \<Longrightarrow> transport_inv t \<Longrightarrow> transport_inv t'"
proof (induction rule: transport_step.induct)
  case (thread t t')
  then show ?case by (rule thread_step_inv)
next
  case (peer t t')
  then show ?case by (rule peer_step_inv)
next
  case (add_peer t p)
  then show ?case
    by (auto simp: transport_inv_def start_dialler_def new_dialler_def thread_ok_def live_def backoff_after_0 intro: slots_more)
next
  case (destroy_shuts t)
  then show ?case by (simp add: shutdown_inv)
qed (auto simp: transport_inv_def disseminate_collect_def disseminate_send_def request_stop_def close_listener_def Let_def)

lemma reachable_inv: "transport_reachable t \<Longrightarrow> transport_inv t"
proof (induction rule: transport_reachable.induct)
  case start
  show ?case
    by (auto simp: transport_inv_def daim_peer_transport_create_def slots_inv_def slot_ok_def owners_def)
qed (rule step_inv)

lemma handlers_counted: "sum_list (map live cs) = length (filter (\<lambda>c. ct_role c = Handler \<and> ct_stage c \<noteq> Returned) cs)"
  by (induction cs) (auto simp: live_def)

text \<open>
  Property C10. Whatever the threads do in whatever order: every connection slot in use belongs to exactly one
  thread, and a thread that runs a connection has a slot of its own, in use, which is ready exactly while the thread
  is in its receive loop. The handler count that \<open>destroy\<close> waits for is the number of handlers still running. A
  dialling thread that has failed \<open>n\<close> times in a row waits 100 ms times two to the power \<open>n - 1\<close>, at most 5 seconds.
\<close>

theorem connection_slots_owned:
  assumes "transport_reachable t"
  shows "length (tp_conns t) = MAX_CONNECTIONS \<and>
    (\<forall>k < MAX_CONNECTIONS. cn_active (tp_conns t ! k) \<longrightarrow>
       (\<exists>!i. i < length (tp_threads t) \<and> slot_of (ct_stage (tp_threads t ! i)) = Some k)) \<and>
    (\<forall>i < length (tp_threads t). \<forall>k. slot_of (ct_stage (tp_threads t ! i)) = Some k \<longrightarrow>
       k < MAX_CONNECTIONS \<and> cn_active (tp_conns t ! k) \<and>
       (cn_ready (tp_conns t ! k) \<longleftrightarrow> ct_stage (tp_threads t ! i) = Steady k)) \<and>
    tp_handlers t = length (filter (\<lambda>c. ct_role c = Handler \<and> ct_stage c \<noteq> Returned) (tp_threads t)) \<and>
    (\<forall>c \<in> set (tp_threads t). \<forall>waited. ct_stage c = Backing_off waited \<longrightarrow>
       ct_role c = Dialler \<and> 0 < ct_attempt c \<and> ct_backoff c = min 5000 (100 * 2 ^ (ct_attempt c - 1)))"
proof (intro conjI ballI allI impI)
  note inv = reachable_inv [OF assms]
  then have slots: "slots_inv (map ct_stage (tp_threads t)) (tp_conns t)" by (simp add: transport_inv_def)
  then show "length (tp_conns t) = MAX_CONNECTIONS" by (simp add: slots_inv_def)
  show "\<exists>!i. i < length (tp_threads t) \<and> slot_of (ct_stage (tp_threads t ! i)) = Some k"
    if k: "k < MAX_CONNECTIONS" "cn_active (tp_conns t ! k)" for k
  proof -
    have "slot_ok (map ct_stage (tp_threads t)) (tp_conns t ! k) k" using slots k(1) by (simp add: slots_inv_def)
    with k(2) obtain i where own: "owners (map ct_stage (tp_threads t)) k = {i}" by (auto simp: slot_ok_def)
    have "(j < length (tp_threads t) \<and> slot_of (ct_stage (tp_threads t ! j)) = Some k) = (j \<in> owners (map ct_stage (tp_threads t)) k)" for j
      by (auto simp: owners_def)
    then show ?thesis by (simp add: own)
  qed
  show "tp_handlers t = length (filter (\<lambda>c. ct_role c = Handler \<and> ct_stage c \<noteq> Returned) (tp_threads t))"
    using inv by (simp add: transport_inv_def handlers_counted)
  fix i k assume i: "i < length (tp_threads t)" "slot_of (ct_stage (tp_threads t ! i)) = Some k"
  with owned [OF slots, of i k] have own: "k < MAX_CONNECTIONS" "cn_active (tp_conns t ! k)"
      "cn_ready (tp_conns t ! k) = receiving (ct_stage (tp_threads t ! i))" by simp_all
  then show "k < MAX_CONNECTIONS" "cn_active (tp_conns t ! k)" by simp_all
  show "cn_ready (tp_conns t ! k) \<longleftrightarrow> ct_stage (tp_threads t ! i) = Steady k"
    using own(3) i(2) by (cases "ct_stage (tp_threads t ! i)") auto
next
  fix c waited assume "c \<in> set (tp_threads t)" and "ct_stage c = Backing_off waited"
  then have "thread_ok c" "ct_stage c = Backing_off waited" using reachable_inv [OF assms] by (auto simp: transport_inv_def)
  then show "ct_role c = Dialler" "0 < ct_attempt c" "ct_backoff c = min 5000 (100 * 2 ^ (ct_attempt c - 1))"
    by (cases "ct_role c"; auto simp: thread_ok_def backoff_after_def BACKOFF_CAP_MS_def BACKOFF_BASE_MS_def)+
qed

subsection \<open>Stopping\<close>

text \<open>
  What is left to do, where the transport stops: the stages a thread has before it, two for every message that has
  arrived, one for a peer that may still go, and the thread of a connection that was let in.
\<close>

fun weight :: "stage \<Rightarrow> bool \<Rightarrow> nat" where
  "weight Returned r = 0"
| "weight Dialling r = 1"
| "weight (Backing_off w) r = 2"
| "weight (Steady k) r = (if r then 3 else 2)"
| "weight (Exchanging k) r = (if r then 3 else 4)"
| "weight (Greeting k) r = (if r then 5 else 6)"
| "weight (Opening fd) r = 8"
| "weight Connecting r = 9"

fun accept_weight :: "acceptor \<Rightarrow> nat" where
  "accept_weight Ended = 0"
| "accept_weight Listening = 1"
| "accept_weight Admitting = 10"

definition conn_weight :: "connection \<Rightarrow> nat" where
  "conn_weight c = (if cn_active c then 2 * cn_inbox c + (if cn_gone c then 0 else 1) else 0)"

definition thread_weight :: "conn_thread \<Rightarrow> nat" where
  "thread_weight c = weight (ct_stage c) (ct_recv c)"

definition work :: "transport \<Rightarrow> nat" where
  "work t = sum_list (map thread_weight (tp_threads t)) + sum_list (map conn_weight (tp_conns t)) + accept_weight (tp_acceptor t)"

lemma work_decreases:
  assumes "i < length (tp_threads t)" and "tp_threads t' = (tp_threads t)[i := tp_threads t' ! i]" and "tp_acceptor t' = tp_acceptor t"
    and "k < length (tp_conns t)" and "tp_conns t' = (tp_conns t)[k := tp_conns t' ! k]"
    and "thread_weight (tp_threads t' ! i) + conn_weight (tp_conns t' ! k) < thread_weight (tp_threads t ! i) + conn_weight (tp_conns t ! k)"
  shows "work t' < work t"
  using sum_list_update_add [OF assms(1), of thread_weight "tp_threads t' ! i"] sum_list_update_add [OF assms(4), of conn_weight "tp_conns t' ! k"]
    assms(6) unfolding work_def assms(2) [symmetric] assms(3) assms(5) [symmetric] by linarith

lemma thread_work_decreases:
  assumes "at_stage t i st" and "tp_threads t' = (tp_threads t)[i := tp_threads t' ! i]" and "tp_acceptor t' = tp_acceptor t"
    and "tp_conns t' = tp_conns t" and "thread_weight (tp_threads t' ! i) < weight st (in_recv t i)"
  shows "work t' < work t"
  using sum_list_update_add [of i "tp_threads t" thread_weight "tp_threads t' ! i"] assms
  unfolding work_def assms(2) [symmetric] by (simp add: at_stage_def in_recv_def thread_weight_def)

lemma conn_work_decreases:
  assumes "transport_inv t" and "at_stage t i st" and "slot_of st = Some k"
    and "tp_threads t' = (tp_threads t)[i := tp_threads t' ! i]" and "tp_acceptor t' = tp_acceptor t"
    and "tp_conns t' = (tp_conns t)[k := tp_conns t' ! k]"
    and "thread_weight (tp_threads t' ! i) + conn_weight (tp_conns t' ! k) < weight st (in_recv t i) + conn_weight (tp_conns t ! k)"
  shows "work t' < work t"
proof -
  note at = at_stageD [OF assms(1,2)]
  have "k < length (tp_conns t)" using owned [OF at(6,5), of k] at(3,6) assms(3) by (simp add: slots_inv_def)
  then show ?thesis using at(1,2) assms by (intro work_decreases [of i t t' k]) (simp_all add: thread_weight_def in_recv_def)
qed

lemma leave_keeps: "tp_stop (leave_connection i t) = tp_stop t" "tp_acceptor (leave_connection i t) = tp_acceptor t"
    "tp_listening (leave_connection i t) = tp_listening t"
  by (auto simp: leave_connection_def stage_defs split: role.splits)

lemma drop_keeps: "tp_stop (drop_connection i k reason errno t) = tp_stop t" "tp_acceptor (drop_connection i k reason errno t) = tp_acceptor t"
    "tp_listening (drop_connection i k reason errno t) = tp_listening t"
  by (simp_all add: drop_connection_def Let_def leave_keeps stage_defs)

lemma all_returned:
  assumes "transport_inv t" and "\<forall>c \<in> set (tp_threads t). ct_stage c = Returned"
  shows "tp_handlers t = 0" "transport_active_connections t = 0"
proof -
  show "tp_handlers t = 0" using assms by (simp add: transport_inv_def live_def)
  have "owners (map ct_stage (tp_threads t)) k = {}" for k using assms(2) by (auto simp: owners_def)
  then have "\<forall>k < MAX_CONNECTIONS. \<not> cn_active (tp_conns t ! k)" "length (tp_conns t) = MAX_CONNECTIONS"
    using assms(1) by (auto simp: transport_inv_def slots_inv_def slot_ok_def split: if_splits)
  then show "transport_active_connections t = 0"
    by (auto simp: transport_active_connections_def filter_empty_conv in_set_conv_nth)
qed

lemma drop_work:
  assumes "transport_inv t" and "at_stage t i st" and "slot_of st = Some k"
  shows "work (drop_connection i k reason errno t) < work t"
proof -
  note at = at_stageD [OF assms(1,2)]
  have "1 < weight st (in_recv t i)" using assms(3) by (cases st; simp)
  moreover have "k < length (tp_conns t)" using owned [OF at(6,5), of k] at(3,6) assms(3) by (simp add: slots_inv_def)
  ultimately show ?thesis
    using at(1) by (intro conn_work_decreases [OF assms])
      (simp_all add: drop_fields drop_keeps leave_fields thread_weight_def conn_weight_def)
qed

lemma opening_work:
  assumes "transport_inv t" and "at_stage t i (Opening fd)"
  shows "work (run_opening i fd t) < work t"
proof (cases "acquire_connection_slot fd t")
  case (Pair slot t')
  note at = at_stageD [OF assms]
  show ?thesis
  proof (cases slot)
    case None
    then have "run_opening i fd t = leave_connection i t" using Pair acquire_full by (fastforce simp: run_opening_def)
    with assms(2) at(1) show ?thesis
      by (intro thread_work_decreases [OF assms(2)]) (simp_all add: leave_fields leave_keeps thread_weight_def)
  next
    case (Some k)
    with Pair acquired have k: "k < MAX_CONNECTIONS" "\<not> cn_active (tp_conns t ! k)"
      and t': "t' = upd_conn k (\<lambda>_. fresh_connection fd True) t" by blast+
    then have "k < length (tp_conns t)" using at(6) by (simp add: slots_inv_def)
    with k t' at(1,2) show ?thesis unfolding run_opening_def Pair Some prod.case option.case
      by (intro work_decreases [of i t _ k]) (simp_all add: stage_defs thread_weight_def conn_weight_def)
  qed
qed

lemma run_opening_keeps:
  "tp_stop (run_opening i fd t) = tp_stop t \<and> tp_listening (run_opening i fd t) = tp_listening t \<and>
   tp_acceptor (run_opening i fd t) = tp_acceptor t"
  using acquire_full [of fd t] acquired [of fd t]
  by (auto simp: run_opening_def leave_keeps stage_defs split: prod.splits option.splits)

lemma read_work:
  assumes "transport_inv t" and "at_stage t i st" and "in_recv t i" and "readable t k"
  shows "slot_of st = Some k \<Longrightarrow> work (leave_recv i (take_message k t)) < work t"
    and "st = Greeting k \<Longrightarrow> work (run_greeted i k peer (take_message k t)) < work t"
    and "st = Exchanging k \<Longrightarrow> work (run_exchanged i k applied (take_message k t)) < work t"
proof -
  note at = at_stageD [OF assms(1,2)]
  have own: "k < length (tp_conns t)" "cn_active (tp_conns t ! k)" if "slot_of st = Some k"
    using owned [OF at(6,5), of k] at(3,6) that by (auto simp: slots_inv_def)
  show "work (leave_recv i (take_message k t)) < work t" if st: "slot_of st = Some k"
    by (rule conn_work_decreases [OF assms(1,2) st])
      (use own [OF st] at(1) assms(2-4) st in
        \<open>cases st; simp add: stage_defs in_recv_def readable_def thread_weight_def conn_weight_def\<close>)+
  show "work (run_greeted i k peer (take_message k t)) < work t" if st: "st = Greeting k"
    by (rule conn_work_decreases [OF assms(1,2), of k])
      (use own at(1) assms(2-4) st in
        \<open>simp_all add: run_greeted_def stage_defs in_recv_def readable_def thread_weight_def conn_weight_def\<close>)
  show "work (run_exchanged i k applied (take_message k t)) < work t" if st: "st = Exchanging k"
    by (rule conn_work_decreases [OF assms(1,2), of k])
      (use own at(1) assms(2-4) st in
        \<open>simp_all add: run_exchanged_def stage_defs in_recv_def readable_def thread_weight_def conn_weight_def\<close>)
qed

lemma wait_work: "at_stage t i st \<Longrightarrow> \<not> in_recv t i \<Longrightarrow> st \<in> {Greeting k, Exchanging k} \<Longrightarrow> work (enter_recv i t) < work t"
  by (rule thread_work_decreases) (auto simp: stage_defs in_recv_def thread_weight_def)

lemma thread_step_work: "thread_step t t' \<Longrightarrow> transport_inv t \<Longrightarrow> tp_stop t \<Longrightarrow> work t' < work t"
proof (induction rule: thread_step.induct)
  case (dial_ends t i)
  then show ?case by (intro thread_work_decreases [of t i Dialling]) (simp_all add: stage_defs thread_weight_def)
next
  case (dial_connects t i fd)
  then show ?case
    by (intro thread_work_decreases [of t i Connecting]) (simp_all add: dial_connected_def stage_defs thread_weight_def)
next
  case (dial_fails t i)
  then show ?case
    by (intro thread_work_decreases [of t i Connecting]) (simp_all add: dial_failed_def Let_def stage_defs thread_weight_def)
next
  case (waits t i waited)
  then show ?case
    by (intro thread_work_decreases [of t i "Backing_off waited"]) (simp_all add: backoff_round_def stage_defs thread_weight_def)
next
  case (accepts t fd)
  then show ?case by (simp add: work_def accept_connection_def new_handler_def thread_weight_def)
next
  case (accept_gives_up t)
  then show ?case by (simp add: work_def)
next
  case (accept_ends t)
  then show ?case by (simp add: work_def)
qed (auto intro: drop_work opening_work read_work wait_work)

text \<open>
  The threads whose connection is opened while \<open>destroy\<close> shuts the others down: a dialling thread that has passed its check of
  \<open>stop\<close>, a thread that has no slot yet, and the handler of a connection that was let in.
\<close>

fun connecting :: "stage \<Rightarrow> bool" where
  "connecting Connecting = True"
| "connecting (Opening fd) = True"
| "connecting _ = False"

definition connecting_at :: "transport \<Rightarrow> nat \<Rightarrow> bool" where
  "connecting_at t i =
     (if i < length (tp_threads t) then connecting (ct_stage (tp_threads t ! i)) else i = length (tp_threads t) \<and> tp_acceptor t = Admitting)"

text \<open>What can happen while \<open>destroy\<close> waits: the threads and the peers go on.\<close>

definition closing_step :: "transport \<Rightarrow> transport \<Rightarrow> bool" where
  "closing_step t t' = (thread_step t t' \<or> peer_step t t')"

definition admitting :: "transport \<Rightarrow> nat" where
  "admitting t = (if tp_acceptor t = Admitting then 1 else 0)"

definition thread_closing :: "transport \<Rightarrow> transport \<Rightarrow> nat \<Rightarrow> bool" where
  "thread_closing t0 t i =
     ((connecting (ct_stage (tp_threads t ! i)) \<longrightarrow> connecting_at t0 i) \<and>
      (\<forall>k. slot_of (ct_stage (tp_threads t ! i)) = Some k \<longrightarrow>
         (connecting_at t0 i \<longrightarrow> ct_stage (tp_threads t ! i) = Steady k \<and> in_recv t i) \<longrightarrow> cn_shut (tp_conns t ! k)))"

definition closing_inv :: "transport \<Rightarrow> transport \<Rightarrow> bool" where
  "closing_inv t0 t =
     (transport_inv t \<and> tp_stop t \<and> \<not> tp_listening t \<and>
      length (tp_threads t0) \<le> length (tp_threads t) \<and>
      length (tp_threads t) + admitting t \<le> length (tp_threads t0) + admitting t0 \<and>
      (\<forall>i < length (tp_threads t). thread_closing t0 t i))"

lemma closing_start:
  "transport_inv t0 \<Longrightarrow> tp_stop t0 \<Longrightarrow> \<not> tp_listening t0 \<Longrightarrow> closing_inv t0 (shutdown_connections t0)"
proof -
  assume t0: "transport_inv t0" "tp_stop t0" "\<not> tp_listening t0"
  have "cn_shut (tp_conns (shutdown_connections t0) ! k)"
    if "i < length (tp_threads t0)" "slot_of (ct_stage (tp_threads t0 ! i)) = Some k" for i k
    using t0(1) that owned [of "map ct_stage (tp_threads t0)" "tp_conns t0" i k]
    by (auto simp: transport_inv_def shutdown_connections_def slots_inv_def)
  with t0 show ?thesis
    by (auto simp: closing_inv_def shutdown_inv thread_closing_def connecting_at_def admitting_def) (simp_all add: shutdown_connections_def)
qed

lemma closing_moved:
  assumes "closing_inv t0 t" and "transport_inv t'" and "at_stage t i st"
    and "tp_stop t' = tp_stop t" and "tp_listening t' = tp_listening t" and "tp_acceptor t' = tp_acceptor t"
    and "tp_threads t' = (tp_threads t)[i := tp_threads t' ! i]"
    and "\<And>k. cn_active (tp_conns t ! k) \<Longrightarrow> cn_shut (tp_conns t' ! k) = cn_shut (tp_conns t ! k)"
    and "connecting (ct_stage (tp_threads t' ! i)) \<Longrightarrow> connecting st"
    and "\<And>k. slot_of (ct_stage (tp_threads t' ! i)) = Some k \<Longrightarrow>
      if slot_of st = Some k then ct_stage (tp_threads t' ! i) = Steady k \<and> in_recv t' i \<longrightarrow> st = Steady k \<and> in_recv t i
      else connecting st \<and> ct_stage (tp_threads t' ! i) \<noteq> Steady k"
  shows "closing_inv t0 t'"
proof -
  note at = at_stageD [OF _ assms(3)]
  have inv: "transport_inv t" using assms(1) by (simp add: closing_inv_def)
  then have own: "cn_active (tp_conns t ! k)" if "j < length (tp_threads t)" "slot_of (ct_stage (tp_threads t ! j)) = Some k" for j k
    using owned [of "map ct_stage (tp_threads t)" "tp_conns t" j k] that by (simp add: transport_inv_def)
  have "thread_closing t0 t' j" if j: "j < length (tp_threads t)" for j
  proof -
    have old: "thread_closing t0 t j" using assms(1) j by (simp add: closing_inv_def)
    show ?thesis
    proof (cases "j = i")
      case False
      then have same: "tp_threads t' ! j = tp_threads t ! j" using assms(7) by (metis nth_list_update_neq)
      then have "in_recv t' j = in_recv t j" by (simp add: in_recv_def)
      then show ?thesis using old own [OF j] assms(8) by (auto simp: thread_closing_def same)
    next
      case True
      have st: "ct_stage (tp_threads t ! i) = st" using assms(3) by (simp add: at_stage_def)
      have early: "connecting st \<Longrightarrow> connecting_at t0 i"
        and shut: "\<And>k. slot_of st = Some k \<Longrightarrow> (connecting_at t0 i \<Longrightarrow> st = Steady k \<and> in_recv t i) \<Longrightarrow> cn_shut (tp_conns t ! k)"
        using old st True by (simp_all add: thread_closing_def)
      show ?thesis unfolding True thread_closing_def
      proof (intro conjI allI impI)
        show "connecting (ct_stage (tp_threads t' ! i)) \<Longrightarrow> connecting_at t0 i" using assms(9) early by blast
        fix k assume slot: "slot_of (ct_stage (tp_threads t' ! i)) = Some k"
          and late: "connecting_at t0 i \<longrightarrow> ct_stage (tp_threads t' ! i) = Steady k \<and> in_recv t' i"
        have was: "slot_of st = Some k"
          using assms(10) [OF slot] late early by presburger
        then have "connecting_at t0 i \<Longrightarrow> st = Steady k \<and> in_recv t i"
          using assms(10) [OF slot] late by presburger
        then have "cn_shut (tp_conns t ! k)" using shut [OF was] by blast
        then show "cn_shut (tp_conns t' ! k)" using assms(8) [of k] own [OF j, of k] st True was by simp
      qed
    qed
  qed
  moreover have "length (tp_threads t') = length (tp_threads t)" using assms(7) by (metis length_list_update)
  ultimately show ?thesis using assms(1,2,4-6) by (simp add: closing_inv_def admitting_def)
qed

lemma closing_opened:
  assumes "closing_inv t0 t" and "at_stage t i (Opening fd)"
  shows "closing_inv t0 (run_opening i fd t)"
proof (rule closing_moved [OF assms(1) _ assms(2)])
  have inv: "transport_inv t" using assms(1) by (simp add: closing_inv_def)
  then show "transport_inv (run_opening i fd t)" using opening_inv assms(2) by blast
  note at = at_stageD [OF inv assms(2)]
  obtain slot t' where Pair: "acquire_connection_slot fd t = (slot, t')" by fastforce
  have cases: "run_opening i fd t = leave_connection i t \<or>
      (\<exists>k. \<not> cn_active (tp_conns t ! k) \<and> run_opening i fd t = go i (Greeting k) (upd_conn k (\<lambda>_. fresh_connection fd True) t))"
    using Pair acquire_full [of fd t t'] acquired [of fd t _ t'] by (cases slot) (auto simp: run_opening_def)
  then show "tp_threads (run_opening i fd t) = (tp_threads t)[i := tp_threads (run_opening i fd t) ! i]"
    using at(1) by (auto simp: leave_fields stage_defs)
  show "cn_shut (tp_conns (run_opening i fd t) ! k) = cn_shut (tp_conns t ! k)" if "cn_active (tp_conns t ! k)" for k
  proof -
    have "k' \<noteq> k" if "\<not> cn_active (tp_conns t ! k')" for k' using that \<open>cn_active (tp_conns t ! k)\<close> by blast
    then show ?thesis using cases by (auto simp: leave_fields stage_defs)
  qed
  show "connecting (Opening fd)" by simp
  show "if slot_of (Opening fd) = Some k
        then ct_stage (tp_threads (run_opening i fd t) ! i) = Steady k \<and> in_recv (run_opening i fd t) i \<longrightarrow> Opening fd = Steady k \<and> in_recv t i
        else connecting (Opening fd) \<and> ct_stage (tp_threads (run_opening i fd t) ! i) \<noteq> Steady k" for k
    using cases at(1) by (auto simp: leave_fields stage_defs split: if_splits)
qed (simp_all add: run_opening_keeps)

lemmas frame_defs = stage_defs leave_fields leave_keeps drop_fields drop_keeps in_recv_def nth_updated

lemma closing_dropped:
  assumes "closing_inv t0 t" and "at_stage t i st" and "slot_of st = Some k"
  shows "closing_inv t0 (drop_connection i k reason errno t)"
proof (rule closing_moved [OF assms(1) _ assms(2)])
  have inv: "transport_inv t" using assms(1) by (simp add: closing_inv_def)
  then show "transport_inv (drop_connection i k reason errno t)" using drop_inv assms(2,3) by blast
qed (use assms(2) in \<open>auto simp: frame_defs split: if_splits\<close>)

lemma closing_waits:
  assumes "closing_inv t0 t" and "at_stage t i st" and "slot_of st = Some k" and "st \<noteq> Steady k"
  shows "closing_inv t0 (enter_recv i t)"
proof (rule closing_moved [OF assms(1) _ assms(2)])
  show "transport_inv (enter_recv i t)" using assms(1-3) recv_inv(1) by (auto simp: closing_inv_def)
qed (use assms(2-4) in \<open>auto simp: frame_defs\<close>)

lemma closing_reads:
  assumes "closing_inv t0 t" and "at_stage t i st"
  shows "slot_of st = Some k \<Longrightarrow> closing_inv t0 (leave_recv i (take_message k t))"
    and "st = Greeting k \<Longrightarrow> closing_inv t0 (run_greeted i k peer (take_message k t))"
    and "st = Exchanging k \<Longrightarrow> closing_inv t0 (run_exchanged i k applied (take_message k t))"
proof -
  have inv: "transport_inv t" using assms(1) by (simp add: closing_inv_def)
  show "closing_inv t0 (leave_recv i (take_message k t))" if st: "slot_of st = Some k"
    by (rule closing_moved [OF assms(1) recv_inv(2) [OF inv assms(2) st] assms(2)])
      (use assms(2) st in \<open>auto simp: frame_defs split: if_splits\<close>)
  show "closing_inv t0 (run_greeted i k peer (take_message k t))" if st: "st = Greeting k"
    by (rule closing_moved [OF assms(1) advanced_inv(1) [OF inv assms(2) st] assms(2)])
      (use assms(2) st in \<open>auto simp: frame_defs run_greeted_def\<close>)
  show "closing_inv t0 (run_exchanged i k applied (take_message k t))" if st: "st = Exchanging k"
    by (rule closing_moved [OF assms(1) advanced_inv(2) [OF inv assms(2) st] assms(2)])
      (use assms(2) st in \<open>auto simp: frame_defs run_exchanged_def\<close>)
qed

lemma closing_accepted:
  assumes "closing_inv t0 t" and "tp_acceptor t = Admitting"
  shows "closing_inv t0 (accept_connection fd t)"
proof -
  have len: "length (tp_threads t) = length (tp_threads t0)" "tp_acceptor t0 = Admitting"
    using assms by (auto simp: closing_inv_def admitting_def split: if_splits)
  have "thread_closing t0 (accept_connection fd t) j" if j: "j < Suc (length (tp_threads t))" for j
  proof (cases "j < length (tp_threads t)")
    case True
    with assms(1) show ?thesis
      by (simp add: closing_inv_def thread_closing_def accept_connection_def in_recv_def nth_append)
  next
    case False
    with j len show ?thesis by (simp add: thread_closing_def accept_connection_def new_handler_def nth_append connecting_at_def)
  qed
  with assms len show ?thesis
    by (simp add: closing_inv_def accepted_inv) (simp add: accept_connection_def admitting_def)
qed

lemma closing_thread: "thread_step t t' \<Longrightarrow> closing_inv t0 t \<Longrightarrow> closing_inv t0 t'"
proof (induction rule: thread_step.induct)
  case (accepts t fd)
  then show ?case by (rule_tac closing_accepted)
next
  case (accept_gives_up t)
  then show ?case by (auto simp: closing_inv_def transport_inv_def admitting_def thread_closing_def in_recv_def)
next
  case (accept_ends t)
  then show ?case by (auto simp: closing_inv_def transport_inv_def admitting_def thread_closing_def in_recv_def)
next
  case (dial_begins t i)
  then show ?case by (simp add: closing_inv_def)
next
  case (receive_waits t i k)
  then show ?case by (simp add: closing_inv_def)
next
  case (opens t i fd)
  then show ?case by (rule_tac closing_opened)
next
  case (dial_ends t i)
  then show ?case
    by (intro closing_moved [OF dial_ends.prems thread_step_inv [OF thread_step.dial_ends] dial_ends.hyps])
      (auto simp: closing_inv_def frame_defs)
next
  case (dial_connects t i fd)
  then show ?case
    by (intro closing_moved [OF _ thread_step_inv [OF thread_step.dial_connects] dial_connects.hyps])
      (auto simp: closing_inv_def frame_defs dial_connected_def)
next
  case (dial_fails t i)
  then show ?case
    by (intro closing_moved [OF _ thread_step_inv [OF thread_step.dial_fails] dial_fails.hyps])
      (auto simp: closing_inv_def frame_defs dial_failed_def Let_def)
next
  case (waits t i waited)
  then show ?case
    by (intro closing_moved [OF _ thread_step_inv [OF thread_step.waits] waits.hyps])
      (auto simp: closing_inv_def frame_defs backoff_round_def)
qed (auto intro: closing_dropped closing_waits closing_reads)

lemma closing_peer: "peer_step t t' \<Longrightarrow> closing_inv t0 t \<Longrightarrow> closing_inv t0 t'"
proof -
  assume step: "peer_step t t'" and inv: "closing_inv t0 t"
  then have same: "tp_threads t' = tp_threads t" "tp_stop t' = tp_stop t" "tp_listening t' = tp_listening t" "tp_acceptor t' = tp_acceptor t"
    "cn_shut (tp_conns t' ! k) = cn_shut (tp_conns t ! k)" for k
    by (auto simp: frame_defs elim!: peer_step.cases)
  then show ?thesis using inv peer_step_inv [OF step] by (simp add: closing_inv_def admitting_def thread_closing_def in_recv_def)
qed

lemma closing_kept: "closing_step t t' \<Longrightarrow> closing_inv t0 t \<Longrightarrow> closing_inv t0 t'"
  unfolding closing_step_def by (blast intro: closing_thread closing_peer)

lemma closing_steps: "rtranclp closing_step t t' \<Longrightarrow> closing_inv t0 t \<Longrightarrow> closing_inv t0 t'"
  by (induction rule: rtranclp_induct) (blast intro: closing_kept)+

text \<open>Every step does some of the work, but for a message that arrives on a connection opened late.\<close>

lemma closing_work:
  assumes "closing_step t t'" and "closing_inv t0 t"
    and "\<not> (\<exists>i k. connecting_at t0 i \<and> slot_of (ct_stage (tp_threads t ! i)) = Some k \<and> t' = deliver k t)"
  shows "work t' < work t"
  using assms(1) unfolding closing_step_def
proof
  assume "thread_step t t'"
  with assms(2) show ?thesis by (simp add: closing_inv_def thread_step_work)
next
  assume "peer_step t t'"
  then show ?thesis
  proof cases
    case (message_arrives k)
    have inv: "slots_inv (map ct_stage (tp_threads t)) (tp_conns t)" using assms(2) by (simp add: closing_inv_def transport_inv_def)
    with message_arrives(2,3) obtain i where i: "i \<in> owners (map ct_stage (tp_threads t)) k" by (fastforce simp: slots_inv_def slot_ok_def)
    then have own: "i < length (tp_threads t)" "slot_of (ct_stage (tp_threads t ! i)) = Some k" by (auto simp: owners_def)
    with assms(2) message_arrives(4) have "connecting_at t0 i" by (auto simp: closing_inv_def thread_closing_def socket_ended_def)
    with own assms(3) message_arrives(1) show ?thesis by blast
  next
    case (peer_goes k)
    then have "k < length (tp_conns t)" using assms(2) by (simp add: closing_inv_def transport_inv_def slots_inv_def)
    with peer_goes show ?thesis
      using sum_list_update_add [of k "tp_conns t" conn_weight "(tp_conns t ! k)\<lparr>cn_gone := True\<rparr>"]
      by (simp add: work_def stage_defs conn_weight_def)
  qed
qed

text \<open>Where no thread can take a step, each has returned or waits for the first words of a peer on a connection opened late.\<close>

lemma closing_stuck:
  assumes "closing_inv t0 t" and "\<not> (\<exists>t'. thread_step t t')" and "i < length (tp_threads t)" and "ct_stage (tp_threads t ! i) \<noteq> Returned"
  shows "connecting_at t0 i \<and>
    (\<exists>k. ct_stage (tp_threads t ! i) \<in> {Greeting k, Exchanging k} \<and> in_recv t i \<and> \<not> readable t k \<and> \<not> socket_ended t k)"
proof -
  have at: "at_stage t i (ct_stage (tp_threads t ! i))" using assms(3) by (simp add: at_stage_def)
  have closing: "thread_closing t0 t i" and stop: "tp_stop t" using assms(1,3) by (simp_all add: closing_inv_def)
  have stay: "\<not> thread_step t t'" for t' using assms(2) by blast
  show ?thesis
  proof (cases "ct_stage (tp_threads t ! i)")
    case (Greeting k)
    with at have "at_stage t i (Greeting k)" by simp
    from stay thread_step.hello_sent [OF this] thread_step.greeting_fails [OF this]
    have "in_recv t i" "\<not> readable t k" "\<not> socket_ended t k" by blast+
    with Greeting closing show ?thesis by (auto simp: thread_closing_def socket_ended_def)
  next
    case (Exchanging k)
    with at have "at_stage t i (Exchanging k)" by simp
    from stay thread_step.exchange_waits [OF this] thread_step.exchange_fails [OF this]
    have "in_recv t i" "\<not> readable t k" "\<not> socket_ended t k" by blast+
    with Exchanging closing show ?thesis by (auto simp: thread_closing_def socket_ended_def)
  next
    case (Steady k)
    with at have "at_stage t i (Steady k)" by simp
    from stop stay thread_step.stops [OF this] thread_step.receive_fails [OF this]
    have "in_recv t i" "\<not> socket_ended t k" by blast+
    with Steady closing show ?thesis by (auto simp: thread_closing_def socket_ended_def)
  qed (use at stay thread_step.intros assms(4) in metis)+
qed

text \<open>
  Property C11. When \<open>destroy\<close> has set \<open>stop\<close>, closed the listening socket and shut down the sockets of the connections in use, the
  threads and peers cannot go on forever, unless a peer goes on sending forever on a connection that was being opened at that
  moment. Where no thread can take a step, the accepting thread has ended, and every other thread has returned or runs such a late
  connection, in its \<open>recv\<close> for the \<open>HELLO\<close> or the snapshot of a peer that is there but silent. So without a late connection all
  threads return whatever the peers do, no handler is counted and no slot is in use: \<open>destroy\<close> joins them and frees the transport.
\<close>

theorem destroy_joins_threads:
  assumes "transport_reachable t0" and "tp_stop t0" and "\<not> tp_listening t0" and "t = shutdown_connections t0"
  shows "(\<forall>run. run 0 = t \<and> (\<forall>n. closing_step (run n) (run (Suc n))) \<longrightarrow>
       (\<forall>m. \<exists>n \<ge> m. \<exists>i k. connecting_at t0 i \<and> slot_of (ct_stage (tp_threads (run n) ! i)) = Some k \<and> run (Suc n) = deliver k (run n))) \<and>
    (\<forall>t'. rtranclp closing_step t t' \<and> \<not> (\<exists>t''. thread_step t' t'') \<longrightarrow>
       tp_acceptor t' = Ended \<and>
       (\<forall>i < length (tp_threads t'). ct_stage (tp_threads t' ! i) \<noteq> Returned \<longrightarrow> connecting_at t0 i \<and>
          (\<exists>k. ct_stage (tp_threads t' ! i) \<in> {Greeting k, Exchanging k} \<and> in_recv t' i \<and> \<not> readable t' k \<and> \<not> socket_ended t' k)) \<and>
       ((\<forall>i. \<not> connecting_at t0 i) \<longrightarrow>
          (\<forall>c \<in> set (tp_threads t'). ct_stage c = Returned) \<and> tp_handlers t' = 0 \<and> transport_active_connections t' = 0))"
proof (intro conjI allI ballI impI; (elim conjE)?)
  have start: "closing_inv t0 t" using closing_start [OF reachable_inv [OF assms(1)] assms(2,3)] assms(4) by simp
  fix run m assume run: "run 0 = t" "\<forall>n. closing_step (run n) (run (Suc n))"
  have inv: "closing_inv t0 (run n)" for n
    by (induction n) (use start run closing_kept in auto)
  show "\<exists>n \<ge> m. \<exists>i k. connecting_at t0 i \<and> slot_of (ct_stage (tp_threads (run n) ! i)) = Some k \<and> run (Suc n) = deliver k (run n)"
  proof (rule ccontr)
    assume none: "\<not> ?thesis"
    have less: "work (run (Suc (m + n))) < work (run (m + n))" for n
      using none run(2) inv [of "m + n"] by (intro closing_work) (auto simp: not_le)
    have "work (run (m + n)) + n \<le> work (run m)" for n
    proof (induction n)
      case (Suc n)
      then show ?case using less [of n] by simp
    qed simp
    from this [of "Suc (work (run m))"] show False by simp
  qed
next
  fix t' assume steps: "rtranclp closing_step t t'" and stuck: "\<not> (\<exists>t''. thread_step t' t'')"
  have inv: "closing_inv t0 t'"
    using closing_steps [OF steps] closing_start [OF reachable_inv [OF assms(1)] assms(2,3)] assms(4) by simp
  show "tp_acceptor t' = Ended"
    using stuck inv by (cases "tp_acceptor t'") (auto simp: closing_inv_def intro: thread_step.intros)
  show "connecting_at t0 i"
    "\<exists>k. ct_stage (tp_threads t' ! i) \<in> {Greeting k, Exchanging k} \<and> in_recv t' i \<and> \<not> readable t' k \<and> \<not> socket_ended t' k"
    if "i < length (tp_threads t')" "ct_stage (tp_threads t' ! i) \<noteq> Returned" for i
    using closing_stuck [OF inv stuck that] by blast+
  assume "\<forall>i. \<not> connecting_at t0 i"
  then have all: "\<forall>c \<in> set (tp_threads t'). ct_stage c = Returned"
    using closing_stuck [OF inv stuck] by (metis in_set_conv_nth)
  then show "\<And>c. c \<in> set (tp_threads t') \<Longrightarrow> ct_stage c = Returned" "tp_handlers t' = 0" "transport_active_connections t' = 0"
    using all_returned inv by (auto simp: closing_inv_def)
qed

subsection \<open>A connection opened late\<close>

lemma reach_thread: "transport_reachable t \<Longrightarrow> thread_step t t' \<Longrightarrow> transport_reachable t'"
  by (blast intro: transport_reachable.step transport_step.thread)

lemma reach_peer: "transport_reachable t \<Longrightarrow> peer_step t t' \<Longrightarrow> transport_reachable t'"
  by (blast intro: transport_reachable.step transport_step.peer)

definition let_in :: transport where
  "let_in = daim_peer_transport_create\<lparr>tp_acceptor := Admitting\<rparr>"

lemma let_in_reachable: "transport_reachable let_in"
  using transport_reachable.step [OF transport_reachable.start transport_step.accept]
  by (simp add: let_in_def daim_peer_transport_create_def)

text \<open>
  The accepting thread has passed its check when \<open>destroy\<close> begins, and the handler takes its slot after the sockets in use were shut
  down. It says \<open>HELLO\<close> and waits; where the peer says nothing, the handler never returns, and \<open>destroy\<close> waits for it forever.
\<close>

definition let_in_late :: transport where
  "let_in_late = (let t = enter_recv 0 (run_opening 0 7 (accept_connection 7 (shutdown_connections (close_listener (request_stop let_in)))))
                  in t\<lparr>tp_acceptor := Ended\<rparr>)"

lemma closing_thread_step: "rtranclp closing_step t t' \<Longrightarrow> thread_step t' t'' \<Longrightarrow> rtranclp closing_step t t''"
  using rtranclp.rtrancl_into_rtrancl [of closing_step t t' t''] by (simp add: closing_step_def)

lemma destroy_waits_for_silent_peer:
  "\<exists>t0 t'. transport_reachable t0 \<and> tp_stop t0 \<and> \<not> tp_listening t0 \<and> rtranclp closing_step (shutdown_connections t0) t' \<and>
     \<not> (\<exists>t''. thread_step t' t'') \<and> tp_handlers t' = 1"
proof (intro exI conjI)
  let ?t0 = "close_listener (request_stop let_in)"
  let ?t1 = "shutdown_connections ?t0"
  let ?t2 = "accept_connection 7 ?t1"
  let ?t3 = "run_opening 0 7 ?t2"
  let ?t4 = "enter_recv 0 ?t3"
  show "tp_stop ?t0" "\<not> tp_listening ?t0" by code_simp+
  show "transport_reachable ?t0"
    by (rule transport_reachable.step [OF transport_reachable.step [OF let_in_reachable transport_step.destroy_stops] transport_step.destroy_closes])
      code_simp
  have "rtranclp closing_step ?t1 ?t1" by simp
  then have "rtranclp closing_step ?t1 ?t2" by (rule closing_thread_step [OF _ thread_step.accepts]) code_simp
  then have "rtranclp closing_step ?t1 ?t3" by (rule closing_thread_step [OF _ thread_step.opens]) code_simp
  then have "rtranclp closing_step ?t1 ?t4" by (rule closing_thread_step [OF _ thread_step.hello_sent [of _ _ 0]]) code_simp+
  then show "rtranclp closing_step ?t1 let_in_late"
    unfolding let_in_late_def Let_def by (rule closing_thread_step [OF _ thread_step.accept_ends]) code_simp+
  have "length (tp_threads let_in_late) = 1" "ct_stage (tp_threads let_in_late ! 0) = Greeting 0" "in_recv let_in_late 0"
    "\<not> readable let_in_late 0" "\<not> socket_ended let_in_late 0" "tp_acceptor let_in_late = Ended" by code_simp+
  then show "\<not> (\<exists>t''. thread_step let_in_late t'')" by (auto simp: at_stage_def elim!: thread_step.cases)
  show "tp_handlers let_in_late = 1" by code_simp
qed

subsection \<open>Dissemination and the reuse of slots\<close>

text \<open>
  One peer connects and becomes ready, a dissemination collects its slot, the peer drops, another connects and gets the
  same slot, and then the dissemination writes.
\<close>

definition peer_ready :: transport where
  "peer_ready = run_exchanged 0 0 1 (take_message 0 (deliver 0 (enter_recv 0
     (run_greeted 0 0 9 (take_message 0 (deliver 0 (enter_recv 0 (run_opening 0 7 (accept_connection 7 let_in)))))))))"

definition slot_reused :: transport where
  "slot_reused = run_opening 1 8 (accept_connection 8 ((drop_connection 0 0 4 104
     (upd_conn 0 (\<lambda>c. c\<lparr>cn_gone := True\<rparr>) (enter_recv 0 (disseminate_collect peer_ready))))\<lparr>tp_acceptor := Admitting\<rparr>))"

lemma peer_ready_reachable: "transport_reachable peer_ready"
proof -
  let ?t1 = "accept_connection 7 let_in"
  let ?t2 = "run_opening 0 7 ?t1"
  let ?t3 = "enter_recv 0 ?t2"
  let ?t4 = "deliver 0 ?t3"
  let ?t5 = "run_greeted 0 0 9 (take_message 0 ?t4)"
  let ?t6 = "enter_recv 0 ?t5"
  let ?t7 = "deliver 0 ?t6"
  have "transport_reachable ?t1" by (rule reach_thread [OF let_in_reachable thread_step.accepts]) code_simp
  then have "transport_reachable ?t2" by (rule reach_thread [OF _ thread_step.opens]) code_simp
  then have "transport_reachable ?t3" by (rule reach_thread [OF _ thread_step.hello_sent [of _ _ 0]]) code_simp+
  then have "transport_reachable ?t4" by (rule reach_peer [OF _ peer_step.message_arrives]) code_simp+
  then have "transport_reachable ?t5" by (rule reach_thread [OF _ thread_step.greets]) code_simp+
  then have "transport_reachable ?t6" by (rule reach_thread [OF _ thread_step.exchange_waits [of _ _ 0]]) code_simp+
  then have "transport_reachable ?t7" by (rule reach_peer [OF _ peer_step.message_arrives]) code_simp+
  then show ?thesis unfolding peer_ready_def by (rule reach_thread [OF _ thread_step.exchanges]) code_simp+
qed

lemma slot_reused_reachable: "transport_reachable slot_reused"
proof -
  let ?t1 = "disseminate_collect peer_ready"
  let ?t2 = "enter_recv 0 ?t1"
  let ?t3 = "upd_conn 0 (\<lambda>c. c\<lparr>cn_gone := True\<rparr>) ?t2"
  let ?t4 = "drop_connection 0 0 4 104 ?t3"
  let ?t5 = "?t4\<lparr>tp_acceptor := Admitting\<rparr>"
  let ?t6 = "accept_connection 8 ?t5"
  have "transport_reachable ?t1" by (rule transport_reachable.step [OF peer_ready_reachable transport_step.collect])
  then have "transport_reachable ?t2" by (rule reach_thread [OF _ thread_step.receive_waits [of _ _ 0]]) code_simp+
  then have "transport_reachable ?t3" by (rule reach_peer [OF _ peer_step.peer_goes]) code_simp+
  then have "transport_reachable ?t4" by (rule reach_thread [OF _ thread_step.receive_fails]) code_simp+
  moreover have "tp_acceptor ?t4 = Listening" "tp_listening ?t4" "\<not> tp_stop ?t4" by code_simp+
  ultimately have "transport_reachable ?t5" using transport_reachable.step [OF _ transport_step.accept, of ?t4] by simp
  then have "transport_reachable ?t6" by (rule reach_thread [OF _ thread_step.accepts]) code_simp
  then show ?thesis unfolding slot_reused_def by (rule reach_thread [OF _ thread_step.opens]) code_simp
qed

text \<open>
  Updates go to connections that are in use, but not only to ready ones: the check of \<open>ready\<close> and the write are not
  under one lock, and the slot may have changed hands in between.
\<close>

lemma update_before_ready:
  "\<exists>t k c. transport_reachable t \<and> (k, c) \<in> set (tp_updates t) \<and> cn_active c \<and> \<not> cn_ready c"
proof -
  have "0 < length (tp_calls slot_reused)" "tp_calls slot_reused ! 0 = [0]" by code_simp+
  then have "transport_reachable (disseminate_send 0 0 [] slot_reused)"
    using slot_reused_reachable by (intro transport_reachable.step [OF slot_reused_reachable transport_step.send]) simp_all
  moreover have "tp_updates (disseminate_send 0 0 [] slot_reused) = [(0, fresh_connection 8 True)]"
    by code_simp
  ultimately show ?thesis by (metis fresh_flags(1,2) list.set_intros(1))
qed

theorem connection_slots_owned_witness:
  "tp_handlers peer_ready = 1 \<and> (\<exists>!i. i < length (tp_threads peer_ready) \<and> slot_of (ct_stage (tp_threads peer_ready ! i)) = Some 0)"
proof -
  have "cn_active (tp_conns peer_ready ! 0)" "length (filter (\<lambda>c. ct_role c = Handler \<and> ct_stage c \<noteq> Returned) (tp_threads peer_ready)) = 1"
    by code_simp+
  moreover have "0 < MAX_CONNECTIONS" by (simp add: MAX_CONNECTIONS_def)
  ultimately show ?thesis using connection_slots_owned [OF peer_ready_reachable] by simp
qed

text \<open>A handler that waits in its receive loop when \<open>destroy\<close> begins.\<close>

definition receiver_stopped :: transport where
  "receiver_stopped = close_listener (request_stop (enter_recv 0 peer_ready))"

lemma receiver_stopped_reachable: "transport_reachable receiver_stopped"
proof -
  have "transport_reachable (enter_recv 0 peer_ready)"
    by (rule reach_thread [OF peer_ready_reachable thread_step.receive_waits [of _ _ 0]]) code_simp+
  then have "transport_reachable (request_stop (enter_recv 0 peer_ready))" by (rule transport_reachable.step [OF _ transport_step.destroy_stops])
  then show ?thesis unfolding receiver_stopped_def by (rule transport_reachable.step [OF _ transport_step.destroy_closes]) code_simp
qed

theorem destroy_joins_threads_witness:
  "in_recv receiver_stopped 0 \<and> at_stage receiver_stopped 0 (Steady 0) \<and>
   \<not> (\<exists>t' c. rtranclp closing_step (shutdown_connections receiver_stopped) t' \<and> \<not> (\<exists>t''. thread_step t' t'') \<and>
      c \<in> set (tp_threads t') \<and> ct_stage c \<noteq> Returned) \<and>
   \<not> (\<exists>run. run 0 = shutdown_connections receiver_stopped \<and> (\<forall>n. closing_step (run n) (run (Suc n))))"
proof -
  have stop: "tp_stop receiver_stopped" "\<not> tp_listening receiver_stopped" by code_simp+
  have facts: "length (tp_threads receiver_stopped) = 1" "ct_stage (tp_threads receiver_stopped ! 0) = Steady 0"
    "tp_acceptor receiver_stopped = Listening" "in_recv receiver_stopped 0" by code_simp+
  then have none: "\<not> connecting_at receiver_stopped i" for i by (auto simp: connecting_at_def)
  note joined = destroy_joins_threads [OF receiver_stopped_reachable stop refl]
  have "at_stage receiver_stopped 0 (Steady 0)" using facts by (simp add: at_stage_def)
  with facts(4) none joined show ?thesis by blast
qed

end
