(* ===== verification/OpenFlow_Session.thy ===== *)
theory OpenFlow_Session
  imports OpenFlow_Adapter
begin

text \<open>
  How the persistent adapter gets its connection (\<open>implementation/src/ovs_persistent_adapter.c\<close>): the listening socket, the
  switch that connects, and the exchange of \<open>HELLO\<close> messages, up to the reader thread and the adapter's end.
  Which system calls succeed is a parameter; what the switch sends is the stream of bytes that arrive
  before the timeouts.
\<close>

text \<open>
  The switch's \<open>HELLO\<close> may carry a body, of which at most 256 bytes are read and thrown away. The result is the
  return code, the message that was sent, and the rest of the stream.
\<close>

definition do_handshake :: "transmit \<Rightarrow> bytes \<Rightarrow> int \<times> bytes list \<times> bytes" where
  "do_handshake tx stream =
     (let hello = build_hello 1
      in if tx [] hello \<noteq> int (length hello) then (- 1, [hello], stream)
         else if length stream < 8 then (- 1, [hello], [])
         else
           let len = unat (fst (get_u16 stream 2));
               remaining = (if len > 8 then min (len - 8) 256 else 0)
           in (0, [hello], drop remaining (drop 8 stream)))"

record listen_env =
  le_memory :: bool
  le_socket :: bool
  le_bind :: "u16 \<Rightarrow> bool"
  le_listen :: bool
  le_accept :: "int \<Rightarrow> bool"
  le_reader :: bool

text \<open>
  The creation gives the return code and, on success, the context with the state of the reader thread: running on the rest
  of the stream, or not running when the thread could not be had, which the caller does not learn.
\<close>

definition daim_ovs_persistent_adapter_create ::
    "listen_env \<Rightarrow> transmit \<Rightarrow> bytes \<Rightarrow> int \<Rightarrow> int \<Rightarrow> int \<times> (persistent_context \<times> bytes option) option" where
  "daim_ovs_persistent_adapter_create E tx stream listen_port timeout_seconds =
     (if \<not> le_memory E then (- 1, None)
      else if \<not> le_socket E then (- 1, None)
      else if \<not> le_bind E (word_of_int listen_port) then (- 1, None)
      else if \<not> le_listen E then (- 1, None)
      else if \<not> le_accept E timeout_seconds then (- 1, None)
      else case do_handshake tx stream of
        (rc, sent, rest) \<Rightarrow>
          if rc \<noteq> 0 then (- 1, None)
          else (0, Some (new_context, if le_reader E then Some rest else None)))"

text \<open>What the reader thread makes of the connection until it ends; \<open>destroy\<close> then leaves the adapter without a context.\<close>

definition reader_outcome :: "transmit \<Rightarrow> persistent_context \<times> bytes option \<Rightarrow> persistent_context" where
  "reader_outcome tx s = (case s of (c, reading) \<Rightarrow> (case reading of None \<Rightarrow> c | Some stream \<Rightarrow> reader_loop tx stream c))"

definition persistent_destroy :: "persistent_context option \<Rightarrow> persistent_context option" where
  "persistent_destroy context = None"

subsection \<open>The start of the session\<close>

text \<open>A switch's \<open>HELLO\<close> with its body, as in the OpenFlow specification.\<close>

definition switch_hello :: "u32 \<Rightarrow> bytes \<Rightarrow> bytes" where
  "switch_hello xid body = put_u8 4 @ put_u8 0 @ put_u16 (of_nat (8 + length body)) @ put_u32 xid @ body"

lemma unat_hello_length: "length body < 2 ^ 16 - 8 \<Longrightarrow> unat (of_nat (8 + length body) :: u16) = 8 + length body"
  by (subst unat_of_nat) (simp add: take_bit_nat_eq_self_iff)

lemma handshake_drops:
  assumes "\<forall>sent msg. tx sent msg = int (length msg)" and "length body < 2 ^ 16 - 8"
  shows "do_handshake tx (switch_hello xid body @ stream) = (0, [build_hello 1], drop (min (length body) 256) (body @ stream))"
proof -
  let ?len = "of_nat (8 + length body) :: u16"
  define s where "s = switch_hello xid body @ stream"
  have "get_u16 ([4, 0] @ put_u16 ?len @ (put_u32 xid @ body @ stream)) 2 = (?len, 2 + 2)"
    by (rule u16_field.get_at) simp
  then have len: "get_u16 s 2 = (?len, 4)" by (simp add: s_def switch_hello_def put_u8_def)
  have drop: "drop 8 s = body @ stream" "\<not> length s < 8" by (simp_all add: s_def switch_hello_def)
  show ?thesis unfolding s_def [symmetric]
    using assms(1) by (simp add: do_handshake_def Let_def len drop unat_hello_length [OF assms(2)] del: of_nat_add)
qed

text \<open>
  A session that starts with a \<open>HELLO\<close> of at most 256 bytes of body answers every echo request after it, in order. With
  a longer body the reader starts in the middle of it.
\<close>

lemma session_answers_echo:
  assumes "\<forall>sent msg. tx sent msg = int (length msg)" and "length body \<le> 256"
    and "le_memory E" "le_socket E" "le_bind E (word_of_int port)" "le_listen E" "le_accept E timeout" "le_reader E"
  shows "\<exists>s. daim_ovs_persistent_adapter_create E tx (switch_hello xid body @ concat (map echo_request xids)) port timeout = (0, Some s) \<and>
    pc_sent (reader_outcome tx s) = map build_echo_reply xids"
proof -
  have "do_handshake tx (switch_hello xid body @ concat (map echo_request xids)) = (0, [build_hello 1], concat (map echo_request xids))"
    using handshake_drops [OF assms(1), of body] assms(2) by simp
  then show ?thesis using assms(3-) echo_replies [OF assms(1), of xids new_context]
    by (intro exI [of _ "(new_context, Some (concat (map echo_request xids)))"])
      (simp add: daim_ovs_persistent_adapter_create_def reader_outcome_def, simp add: new_context_def)
qed

lemma long_hello_misread:
  assumes "\<forall>sent msg. tx sent msg = int (length msg)" and "256 < length body" and "length body < 2 ^ 16 - 8"
  shows "snd (snd (do_handshake tx (switch_hello xid body @ stream))) = drop 256 body @ stream"
  using handshake_drops [OF assms(1,3)] assms(2) by simp

end
