(* ===== verification/Mock_Adapter.thy ===== *)
theory Mock_Adapter
  imports OpenFlow_Adapter
begin

text \<open>
  The other two ways behind the switch-adapter interface: the mock adapter, which records what it is asked
  (\<open>implementation/src/mock_switch_adapter.c\<close>), and the executor that runs a command line as a process
  (\<open>ovs_switch_adapter.c\<close>). The locale \<open>flow_adapter\<close> is the contract on the counters that the mock and the persistent
  adapter share.
\<close>

subsection \<open>The mock adapter\<close>

definition PACKET_CAPACITY :: nat where "PACKET_CAPACITY = 2048"

record mock_stats =
  mk_reads :: u64
  mk_writes :: u64
  mk_ioctls :: u64
  mk_flows_added :: u64
  mk_flows_deleted :: u64
  mk_last_bridge :: string
  mk_last_flow :: string

record mock_context =
  mc_stats :: mock_stats
  mc_last_packet :: bytes

text \<open>\<open>mc_last_packet\<close> is the used part of the packet buffer.\<close>

definition daim_mock_adapter_create :: mock_context where
  "daim_mock_adapter_create =
     \<lparr>mc_stats = \<lparr>mk_reads = 0, mk_writes = 0, mk_ioctls = 0, mk_flows_added = 0, mk_flows_deleted = 0, mk_last_bridge = [], mk_last_flow = []\<rparr>,
      mc_last_packet = []\<rparr>"

definition mock_read :: "nat \<Rightarrow> mock_context \<Rightarrow> int \<times> bytes \<times> mock_context" where
  "mock_read sz c =
     (let data = take sz (mc_last_packet c)
      in (int (length data), data, c\<lparr>mc_stats := (mc_stats c)\<lparr>mk_reads := mk_reads (mc_stats c) + 1\<rparr>\<rparr>))"

definition mock_write :: "bytes \<Rightarrow> mock_context \<Rightarrow> int \<times> mock_context" where
  "mock_write data c =
     (if length data > PACKET_CAPACITY then (- 1, c)
      else (int (length data), c\<lparr>mc_last_packet := data, mc_stats := (mc_stats c)\<lparr>mk_writes := mk_writes (mc_stats c) + 1\<rparr>\<rparr>))"

definition mock_ioctl :: "mock_context \<Rightarrow> int \<times> mock_context" where
  "mock_ioctl c = (0, c\<lparr>mc_stats := (mc_stats c)\<lparr>mk_ioctls := mk_ioctls (mc_stats c) + 1\<rparr>\<rparr>)"

definition record_flow :: "string \<Rightarrow> string \<Rightarrow> bool \<Rightarrow> mock_context \<Rightarrow> int \<times> mock_context" where
  "record_flow bridge flow add c =
     (if length bridge \<ge> 64 \<or> length flow \<ge> 512 then (- 1, c)
      else let st = (mc_stats c)\<lparr>mk_last_bridge := bridge, mk_last_flow := flow\<rparr>
           in (0, c\<lparr>mc_stats :=
                 if add then st\<lparr>mk_flows_added := mk_flows_added st + 1\<rparr> else st\<lparr>mk_flows_deleted := mk_flows_deleted st + 1\<rparr>\<rparr>))"

definition mock_flow_add :: "string \<Rightarrow> string \<Rightarrow> mock_context \<Rightarrow> int \<times> mock_context" where
  "mock_flow_add bridge flow = record_flow bridge flow True"

definition mock_flow_delete :: "string \<Rightarrow> string \<Rightarrow> mock_context \<Rightarrow> int \<times> mock_context" where
  "mock_flow_delete bridge flow = record_flow bridge flow False"

lemma mock_write_then_read:
  "mock_write data c = (int (length data), c') \<Longrightarrow> length data \<le> sz \<Longrightarrow> fst (snd (mock_read sz c')) = data"
  by (auto simp: mock_write_def mock_read_def Let_def split: if_splits)

subsection \<open>The executor that spawns processes\<close>

datatype process_end = Spawn_failed | Wait_failed | Exited int | Killed

definition daim_ovs_spawn_executor :: "(string list \<Rightarrow> process_end) \<Rightarrow> string list \<Rightarrow> int" where
  "daim_ovs_spawn_executor spawn argv =
     (case spawn argv of Spawn_failed \<Rightarrow> - 1 | Wait_failed \<Rightarrow> - 1 | Exited status \<Rightarrow> status | Killed \<Rightarrow> - 1)"

text \<open>Through the command-per-rule adapter a flow is installed only if a process ran and exited with 0.\<close>

lemma spawned_flow_installed:
  "fst (ovs_add (\<lambda>_. daim_ovs_spawn_executor spawn) bridge flow p) = 0 \<longleftrightarrow>
    valid_token bridge 63 \<and> valid_token flow 511 \<and> spawn (ovs_argv ''add-flow'' bridge flow) = Exited 0"
  by (auto simp: ovs_add_def ovs_flow_def daim_ovs_spawn_executor_def Let_def split: process_end.splits)

subsection \<open>The contract on the counters\<close>

text \<open>A flow operation that succeeds counts one, and one that fails counts nothing.\<close>

locale flow_adapter =
  fixes flow_op :: "string \<Rightarrow> string \<Rightarrow> 's \<Rightarrow> int \<times> 's"
    and counter :: "'s \<Rightarrow> u64"
  assumes counts: "flow_op bridge flow s = (rc, s') \<Longrightarrow> counter s' = counter s + (if rc = 0 then 1 else 0)"
begin

fun flow_ops :: "(string \<times> string) list \<Rightarrow> 's \<Rightarrow> int list \<times> 's" where
  "flow_ops [] s = ([], s)"
| "flow_ops ((b, f) # fs) s = (case flow_op b f s of (rc, s1) \<Rightarrow> (case flow_ops fs s1 of (rcs, s2) \<Rightarrow> (rc # rcs, s2)))"

lemma counter_successes: "flow_ops fs s = (rcs, s') \<Longrightarrow> counter s' = counter s + of_nat (length (filter (\<lambda>rc. rc = 0) rcs))"
proof (induction fs arbitrary: s rcs)
  case (Cons bf fs)
  obtain b f where bf: "bf = (b, f)" by force
  obtain rc s1 where one: "flow_op b f s = (rc, s1)" by force
  obtain rcs' where rest: "flow_ops fs s1 = (rcs', s')" "rcs = rc # rcs'"
    using Cons.prems by (auto simp: bf one split: prod.splits)
  show ?case using Cons.IH [OF rest(1)] counts [OF one] rest(2) by simp
qed simp

end

interpretation mock_add: flow_adapter mock_flow_add "\<lambda>c. mk_flows_added (mc_stats c)"
  by unfold_locales (auto simp: mock_flow_add_def record_flow_def Let_def split: if_splits)

interpretation mock_delete: flow_adapter mock_flow_delete "\<lambda>c. mk_flows_deleted (mc_stats c)"
  by unfold_locales (auto simp: mock_flow_delete_def record_flow_def Let_def split: if_splits)

interpretation persistent_add: flow_adapter "\<lambda>bridge. persistent_flow_add tx" "\<lambda>c. flow_mods_sent (pc_stats c)" for tx
  by unfold_locales
    (auto simp: persistent_flow_add_def persistent_flow_def send_message_def Let_def split: option.splits if_splits prod.splits)

interpretation persistent_delete: flow_adapter "\<lambda>bridge. persistent_flow_delete tx" "\<lambda>c. flow_mods_sent (pc_stats c)" for tx
  by unfold_locales
    (auto simp: persistent_flow_delete_def persistent_flow_def send_message_def Let_def split: option.splits if_splits prod.splits)

text \<open>What an adapter reports is the number of flow operations that succeeded, modulo the width of the counter.\<close>

lemma adapters_count_successes:
  "mock_add.flow_ops fs daim_mock_adapter_create = (rcs, c) \<Longrightarrow>
    mk_flows_added (mc_stats c) = of_nat (length (filter (\<lambda>rc. rc = 0) rcs))"
  "persistent_add.flow_ops tx fs new_context = (rcs, d) \<Longrightarrow>
    flow_mods_sent (pc_stats d) = of_nat (length (filter (\<lambda>rc. rc = 0) rcs))"
  using mock_add.counter_successes [of fs daim_mock_adapter_create rcs c] persistent_add.counter_successes [of tx fs new_context rcs d]
  by (simp_all add: daim_mock_adapter_create_def new_context_def)

end
