(* ===== verification/Spec2Isabelle.thy ===== *)
theory Spec2Isabelle
  imports Snapshot_Sync Node_Launch Gate_Laws Gate_Scripts Gate_Readings Sample_Stats Bridge_Laws Reactive_Laws Scaling_Outcomes No_Exchange_Laws Latency_Laws Campaign_Laws Link_Monitor Foreign_Structs Transport_Slots OpenFlow_Session Mock_Adapter
begin

text \<open>
  A verification library for DAIM OS with distributed execution: OpenFlow switches, each with a node of its own
  that learns where hosts are, exchanges this knowledge with its peers over TCP, and decides how to forward; and the
  experiments that measure it. Paths below are relative to \<open>src/\<close>.


  THE PROGRAM AND ITS PARTS

  A node is a Python process with the C libraries loaded into it.

  \<^item> The host-location table (\<open>implementation/src/daim_distributed_state.c\<close>) keeps, per MAC address, the owner and the
    version of the newest accepted claim. Theory \<open>Host_State\<close>: the record \<open>host_state\<close> is the struct \<open>state\<close>, the used
    part of its array is a list, and each function is a state transformer under the name it has in C; the mutex makes a
    call atomic, the clock is an argument. \<open>Host_Laws\<close>: the invariant and the effect of every operation on the map view,
    and the locale \<open>location_store\<close> with what the users of the table rely on. \<open>Host_Convergence\<close>: the table after any
    sequence of received updates, convergence for addresses of one owner, divergence for conflicting claims.
  \<^item> The peer protocol (\<open>implementation/src/daim_peer_protocol.c\<close>). \<open>Peer_Protocol\<close>: writers and readers on machine words,
    with the locales \<open>field_codec\<close> and \<open>message_codec\<close> interpreted on every field width and every message.
  \<^item> The peer transport (\<open>implementation/src/daim_peer_transport.c\<close>). \<open>Peer_Transport\<close>: framing, serving and exchanging
    snapshots, the queue of live updates that arrive meanwhile, the handling of messages and the life of one
    connection, over the sequence of messages the peer sends. \<open>Transport_Laws\<close> and \<open>Snapshot_Sync\<close>: what an exchange applies,
    and what a reader's table holds after a peer's snapshot, whatever it held before. \<open>Transport_Threads\<close> is the same file seen from its threads:
    dialling, accepting, the table of connection slots, dissemination to all ready peers and the three steps of \<open>destroy\<close> as a step relation
    with every interleaving; a connection is a slot, a stage and the messages that have arrived there. A thread in \<open>recv\<close> goes on when
    a message has arrived, its peer has gone or its socket was shut down; what peers do is a relation of its own. \<open>Transport_Slots\<close>: the
    invariant of the slots and their owners, the back-off, and what becomes of the threads after \<open>destroy\<close>, where an invariant on the
    connections that were shut down and a measure on stages and unread messages show that they end.
  \<^item> DAIM Core (\<open>implementation/src/daim_core.c\<close>), tables and signals: \<open>Core_Tables\<close>. The forwarding application and the
    switch adapter that runs \<open>ovs-ofctl\<close> (\<open>daim_distributed_learning_app.c\<close>, \<open>ovs_switch_adapter.c\<close>): \<open>Learning_App\<close>,
    where the record \<open>process\<close> is the static state of all libraries of one process; \<open>Learning_Laws\<close> on one Packet-In.
  \<^item> The Python binding of a node (\<open>network/daim_distributed_node.py\<close>): \<open>Node_Bridge\<close>, with ctypes truncation to the
    field widths. The Os-Ken application around it (\<open>network/daim_distributed_controller.py\<close>): \<open>Node_Controller\<close>.
    \<open>Foreign_Layout\<close> and \<open>Foreign_Structs\<close> are the memory between the two languages: struct layouts by the rules of the
    platform ABI, objects as bytes, the declarations of both sides, and their agreement. \<open>Node_Launch\<close> composes them: the environment a node is started with, its configuration, and a Packet-In from event to
    packet-out.
  \<^item> The Python peer of the gates (\<open>network/daim_synthetic_peer.py\<close>): \<open>Struct_Pack\<close> and \<open>Synthetic_Peer\<close>; \<open>Wire_Agreement\<close> relates
    it to the C side, byte by byte and through any segmentation of the stream.

  The single-controller mode, which the experiments compare with, has one controller for all switches.

  \<^item> Its application (\<open>implementation/src/daim_learning_app.c\<close>): \<open>Single_App\<close> and \<open>Single_Laws\<close>. Its second switch
    adapter speaks OpenFlow itself (\<open>ovs_persistent_adapter.c\<close>): \<open>OpenFlow_Adapter\<close>, and \<open>OpenFlow_Session\<close> on how it gets its
    connection and what the reader makes of it. \<open>Mock_Adapter\<close>: the mock of the C tests and the executor that spawns
    processes, with the locale \<open>flow_adapter\<close> on the counters that the mock and the persistent adapter keep.
  \<^item> Binding and controller (\<open>network/daim_core_bridge.py\<close>, \<open>network/daim_bridge_controller.py\<close>): \<open>Core_Bridge\<close>,
    \<open>Bridge_Controller\<close>; \<open>Bridge_Laws\<close> has the handlers and threads as a step relation with an invariant on its reachable
    states, and runs one sequence of packets through both switch adapters to compare the two ways of counting control traffic.
  \<^item> The learning switch without DAIM (\<open>network/osken_reactive_baseline_controller.py\<close>): \<open>Reactive_Baseline\<close>, and in
    \<open>Reactive_Laws\<close> its equivalence with the DAIM application. The locale \<open>port_store\<close> is what both tables have in common.

  The experiments are scripts that start the processes, generate traffic, read what the processes print, and judge it.

  \<^item> \<open>Harness\<close> is the world they share: every effect is an \<open>action\<close> that is logged and takes time, and everything learned from
    outside is a function of the actions so far, collected in the record \<open>env\<close>. The events of a node are those of its
    last process. \<open>Harness_Laws\<close> has the laws of waiting and recording; its locale \<open>history\<close> says what holds of a
    relation between states that all control flow preserves, and is interpreted on growing histories, on unchanged
    processes, and in \<open>Latency_Laws\<close> on trials.
  \<^item> The mechanism gate (\<open>network/distributed_prototype_gate.py\<close>): topology and ports in \<open>Chain_Topology\<close>, statistics in
    \<open>Sample_Stats\<close>, processes in \<open>Gate_Cluster\<close>, gates G1 to G6 in \<open>Gate_Checks\<close>, G8 in \<open>Gate_Conflict\<close>, the whole run in
    \<open>Gate_Main\<close>. \<open>Gate_Laws\<close>: cleanup on every path and the meaning of a passed run. \<open>Gate_Scripts\<close>: gates G2 to G4 from
    the Python peer through the C transport to the verdict. \<open>Gate_Readings\<close>: how ping output and flow dumps are read.
  \<^item> The scaling gate (\<open>network/scaling_prototype_gate.py\<close>): \<open>Cluster_Attempts\<close>, \<open>Scaling_Cluster\<close>, \<open>Scaling_Gate\<close>;
    \<open>Scaling_Laws\<close> on the barrier and the mesh, \<open>Scaling_Outcomes\<close> on the type of outcomes and rows.
  \<^item> The baseline without exchange (\<open>network/gate_no_exchange.py\<close>): \<open>No_Exchange_Gate\<close>, and in \<open>No_Exchange_Laws\<close> why its
    nodes can only flood.
  \<^item> The latency experiment (\<open>network/packetin_latency_breakdown.py\<close>): \<open>Latency_Trials\<close>, \<open>Latency_Laws\<close>. The campaigns
    (\<open>network/campaign_distributed.py\<close>, \<open>network/campaign_single_core.py\<close>): \<open>Campaigns\<close>, \<open>Campaign_Laws\<close>, with the text of the
    manifest between gate and campaign in \<open>Py_Dumps\<close>.
  \<^item> The link monitor (\<open>implementation/tools/daim_monitor.py\<close>): \<open>Link_Monitor\<close>.

  \<open>Prelude\<close> has the types of machine integers, the exceptions, the result and state types and the hint
  collections; \<open>Py_Values\<close>, \<open>Py_Json\<close> and \<open>Py_Dumps\<close> the parts of Python's strings, numbers, dictionaries and JSON that the
  scripts use.


  CONVENTIONS

  C integers are words of their width. Python integers are \<open>int\<close>, floats are the rational numbers they denote, without
  rounding. Bytes are lists of 8-bit words, strings lists of characters with codes below 256. A dictionary is an
  association list in insertion order. A function that may raise returns \<open>py_error + 'a\<close>; a method is a function
  from a state to a result and the state it leaves, and an exception keeps the changes made before it.
  Definitions have the name of the function, type or constant they model where it is free. A function of several steps is
  composed of definitions for its steps in the order of the code.

  What is not under \<open>src/\<close> is a parameter: Mininet, Open vSwitch, Os-Ken, the operating system and the random
  generator appear as fields of the environment records (\<open>env\<close>, \<open>node_env\<close>, \<open>controller_env\<close> and the like) or as
  arguments. Assumptions on them are hypotheses of the theorems: Mininet numbers ports in the order of the links, a random
  number is below its bound, the written form of a float has no line break.


  TERMINATION

  Polling loops are total functions, because every round sleeps and so brings the deadline nearer; loops over received
  messages, lines or rows recurse on the list of what is received. The reader of a controller's output is total because a process
  that ends has printed finitely many lines. Fuel appears only in \<open>forward_path\<close>, the walk of a frame
  through the chain: one unit per switch and one for the host, so \<open>n + 1\<close> is enough for \<open>n\<close> switches. Four loops may run forever and are partial functions
  with the value \<open>None\<close> then: the wait for the barrier file, the announcement of the single controller, the
  fragmented send with a fragment size of 0, and the link monitor. For the barrier, the send and the monitor it is
  proved when they end.


  WHAT IS SHOWN

  Tables converge and keep what they should (C1 to C4); the Python and the C side of the protocol agree (C5 to C7); exchanges
  lose nothing and carry whole tables over (C8, C9); the threads of the transport never share a slot and end when asked to, but
  for a connection opened late (C10, C11); a Packet-In claims, decides and installs what the protocol says, and frames reach the owner along the chain
  (C12 to C15); nodes are built, launched and wired up as intended, and the two languages read the same memory alike (C16 to
  C19); the statistics and the waiting are right (C20, C21); the gates judge what they mean to judge, clean up on every
  path and pass exactly on true verdicts (C22 to C27); the single-controller mode forwards like the reference and like the
  baseline, and counts its traffic consistently (C28 to C32); the scaling gate, the no-exchange gate, the latency experiment, the
  campaigns and the monitor do what they report (C33 to C40). Where the code does not do what it says, the theorem states
  what it does: a ping with total loss passes the test for no loss, a scalar line silences the reader of a node,
  echo replies are not counted in bytes, a silent peer on a connection opened late holds up \<open>destroy\<close>, the monitor's timeout is off by nine
  orders of magnitude.


  NOT MODELLED

  \<^item> Socket options, and the memory order below the locks of the transport: a step is what happens under one lock or between
    two blocking calls, and leaving a connection (two callbacks and the closing section) is one step. \<open>recv\<close> and \<open>accept\<close> return only on
    their conditions; \<open>connect\<close> and \<open>send\<close> always return, which the time-outs of TCP and the option \<open>TCP_USER_TIMEOUT\<close> bring about. In the model
    of one connection \<open>recv\<close> runs over a given stream, and the check of \<open>stop\<close> is left to the model of the threads.
  \<^item> The C tests, the shell scripts, recorded results and the vendored sources.
  \<^item> In the scripts: writing files and checksums, progress messages, tracebacks, the argument parsers, and the
    description of the platform in the manifests.
  \<^item> Allocation failure in C, except where a constructor reports it, and deallocation.
  \<^item> Copies: the scripts carry their own copies of the statistics, of the node process and of the topology, which agree word
    for word with those of the mechanism gate and are modelled once.
\<close>

end
